(* ===== verification/GoBase.thy ===== *)
theory GoBase
  imports Main "HOL-Library.Word"
begin

text \<open>
  The prelude of the development: the parts of Go and of its standard library that every
  component uses.

  \<^item> Byte strings: a Go \<open>string\<close> and a Go \<open>[]byte\<close> are both sequences of bytes, so both are
    \<open>char list\<close> here (a HOL character is one byte).
  \<^item> Errors as values: \<open>errors.New\<close>, \<open>fmt.Errorf\<close> with \<open>%w\<close>, \<open>errors.Is\<close>.
  \<^item> Results of a Go call: a value, a non-nil error, or a run-time panic.
  \<^item> The functions of package \<open>strings\<close> the source calls (\<open>HasPrefix\<close>, \<open>Contains\<close>,
    \<open>SplitN\<close> at the first colon, \<open>TrimSpace\<close>), decimal printing, the 64-bit durations of
    package \<open>time\<close>, and the lemmas on them the components share.
\<close>

named_theorems sentinels "the package-level error values of the program"

type_synonym bytes = string
type_synonym duration = "64 word"
type_synonym go_time = int  \<comment> \<open>nanoseconds since the epoch\<close>

section \<open>Errors and results\<close>

text \<open>
  A sentinel is a package-level value of \<open>errors.New\<close>, told apart by its text (the program
  declares no two with the same text in one package). \<open>ErrText\<close> is an error made at run time.
  \<open>ErrWrap e s\<close> is the error \<open>fmt.Errorf\<close> returns for a format with \<open>%w\<close> applied to \<open>e\<close>; \<open>s\<close> is
  its whole text.
\<close>

datatype go_error =
    Sentinel string
  | ErrText string
  | ErrWrap go_error string

primrec err_text :: "go_error \<Rightarrow> string" where
  "err_text (Sentinel s) = s"
| "err_text (ErrText s) = s"
| "err_text (ErrWrap e s) = s"

primrec err_is :: "go_error \<Rightarrow> go_error \<Rightarrow> bool" where
  "err_is (Sentinel s) t = (Sentinel s = t)"
| "err_is (ErrText s) t = (ErrText s = t)"
| "err_is (ErrWrap e s) t = (ErrWrap e s = t \<or> err_is e t)"

text \<open>The format \<open>"%w: %v"\<close>, used throughout the controllers.\<close>

definition wrap_colon :: "go_error \<Rightarrow> string \<Rightarrow> go_error" where
  "wrap_colon e s = ErrWrap e (err_text e @ '': '' @ s)"

lemma err_is_refl [simp]: "err_is e e"
  by (cases e) simp_all

lemma err_is_wrap_colon [simp]: "err_is (wrap_colon e s) e"
  by (simp add: wrap_colon_def)

lemma err_text_wrap_colon [simp]: "err_text (wrap_colon e s) = err_text e @ '': '' @ s"
  by (simp add: wrap_colon_def)

text \<open>What a Go call comes back with: a value, a non-nil error, or a panic that unwinds.\<close>

datatype 'a go_result = Ok 'a | Fail go_error | Panic

primrec is_ok :: "'a go_result \<Rightarrow> bool" where
  "is_ok (Ok a) = True"
| "is_ok (Fail e) = False"
| "is_ok Panic = False"

lemma is_ok_iff: "is_ok r \<longleftrightarrow> (\<exists>a. r = Ok a)"
  by (cases r) simp_all

section \<open>Package strings\<close>

definition has_prefix :: "string \<Rightarrow> string \<Rightarrow> bool" where
  "has_prefix s p \<longleftrightarrow> take (length p) s = p"

fun str_contains :: "string \<Rightarrow> string \<Rightarrow> bool" where
  "str_contains [] sub = (sub = [])"
| "str_contains (c # s) sub = (has_prefix (c # s) sub \<or> str_contains s sub)"

lemma has_prefix_append [simp]: "has_prefix (p @ s) p"
  by (simp add: has_prefix_def)

lemma has_prefix_iff: "has_prefix s p \<longleftrightarrow> (\<exists>r. s = p @ r)"
  by (metis append_eq_conv_conj append_take_drop_id has_prefix_def)

lemma has_prefix_Nil [simp]: "has_prefix s []"
  by (simp add: has_prefix_def)

lemma has_prefix_Cons [simp]:
  "has_prefix [] (a # p) = False"
  "has_prefix (c # s) (a # p) = (c = a \<and> has_prefix s p)"
  by (auto simp: has_prefix_def)

lemma str_contains_iff: "str_contains s sub \<longleftrightarrow> (\<exists>a b. s = a @ sub @ b)"
proof (induction s)
  case Nil
  then show ?case by simp
next
  case (Cons c s)
  show ?case
  proof
    assume "str_contains (c # s) sub"
    then consider "has_prefix (c # s) sub" | "str_contains s sub" by auto
    then show "\<exists>a b. c # s = a @ sub @ b"
    proof cases
      case 1
      then show ?thesis by (metis append_Nil has_prefix_iff)
    next
      case 2
      with Cons.IH show ?thesis by (metis append_Cons)
    qed
  next
    assume "\<exists>a b. c # s = a @ sub @ b"
    then obtain a b where ab: "c # s = a @ sub @ b" by blast
    show "str_contains (c # s) sub"
    proof (cases a)
      case Nil
      with ab have "has_prefix (c # s) sub" by (auto simp: has_prefix_iff)
      then show ?thesis by simp
    next
      case (Cons d a')
      with ab have "s = a' @ sub @ b" by simp
      with Cons.IH show ?thesis by auto
    qed
  qed
qed

text \<open>
  \<open>strings.SplitN(s, ":", 2)\<close> is \<open>[s]\<close> when \<open>s\<close> has no colon, and otherwise the text before
  and the text after the first colon. The program reads index 1 of it, which panics in the
  first case: \<open>None\<close>.
\<close>

fun after_colon :: "string \<Rightarrow> string option" where
  "after_colon [] = None"
| "after_colon (c # s) = (if c = CHR '':'' then Some s else after_colon s)"

lemma after_colon_append:
  "CHR '':'' \<notin> set p \<Longrightarrow> after_colon (p @ CHR '':'' # s) = Some s"
  by (induction p) auto

lemma after_colon_None_iff: "after_colon s = None \<longleftrightarrow> CHR '':'' \<notin> set s"
  by (induction s) auto

text \<open>
  \<open>strings.TrimSpace\<close> removes leading and trailing Unicode white space: the six ASCII ones and
  the UTF-8 encodings of U+0085, U+00A0, U+1680, U+2000 to U+200A, U+2028, U+2029, U+202F,
  U+205F and U+3000.
\<close>

definition go_spaces :: "string list" where
  "go_spaces =
     [[CHR 0x09], [CHR 0x0A], [CHR 0x0B], [CHR 0x0C], [CHR 0x0D], [CHR 0x20],
      [CHR 0xC2, CHR 0x85], [CHR 0xC2, CHR 0xA0], [CHR 0xE1, CHR 0x9A, CHR 0x80],
      [CHR 0xE2, CHR 0x80, CHR 0x80], [CHR 0xE2, CHR 0x80, CHR 0x81],
      [CHR 0xE2, CHR 0x80, CHR 0x82], [CHR 0xE2, CHR 0x80, CHR 0x83],
      [CHR 0xE2, CHR 0x80, CHR 0x84], [CHR 0xE2, CHR 0x80, CHR 0x85],
      [CHR 0xE2, CHR 0x80, CHR 0x86], [CHR 0xE2, CHR 0x80, CHR 0x87],
      [CHR 0xE2, CHR 0x80, CHR 0x88], [CHR 0xE2, CHR 0x80, CHR 0x89],
      [CHR 0xE2, CHR 0x80, CHR 0x8A], [CHR 0xE2, CHR 0x80, CHR 0xA8],
      [CHR 0xE2, CHR 0x80, CHR 0xA9], [CHR 0xE2, CHR 0x80, CHR 0xAF],
      [CHR 0xE2, CHR 0x81, CHR 0x9F], [CHR 0xE3, CHR 0x80, CHR 0x80]]"

text \<open>Strips the strings of \<open>ps\<close> (none of them empty) from the front, as long as one is there.\<close>

function strip_front :: "string list \<Rightarrow> string \<Rightarrow> string" where
  "strip_front ps s =
     (case find (\<lambda>p. p \<noteq> [] \<and> has_prefix s p) ps of
        None \<Rightarrow> s
      | Some p \<Rightarrow> strip_front ps (drop (length p) s))"
  by pat_completeness auto
termination
proof (relation "measure (\<lambda>(ps, s). length s)", goal_cases)
  case 1
  show ?case by simp
next
  case (2 ps s p)
  then have "p \<noteq> []" "has_prefix s p" by (auto simp: find_Some_iff)
  then show ?case by (auto simp: has_prefix_iff)
qed

declare strip_front.simps [simp del]

definition trim_space :: "string \<Rightarrow> string" where
  "trim_space s = rev (strip_front (map rev go_spaces) (rev (strip_front go_spaces s)))"

text \<open>A string is trimmed when it begins and ends with no white space.\<close>

definition trimmed :: "string \<Rightarrow> bool" where
  "trimmed s \<longleftrightarrow> (\<forall>p \<in> set go_spaces. \<not> has_prefix s p) \<and>
                 (\<forall>p \<in> set go_spaces. \<not> has_prefix (rev s) (rev p))"

lemma strip_front_done: "\<forall>p \<in> set ps. \<not> has_prefix s p \<Longrightarrow> strip_front ps s = s"
  by (subst strip_front.simps) (auto split: option.splits simp: find_Some_iff)

lemma strip_front_Nil [simp]: "strip_front ps [] = []"
  by (subst strip_front.simps) (auto split: option.splits simp: find_Some_iff has_prefix_def)

lemma trim_space_trimmed: "trimmed s \<Longrightarrow> trim_space s = s"
  by (simp add: trim_space_def trimmed_def strip_front_done)

lemma strip_front_space: "strip_front go_spaces (CHR '' '' # s) = strip_front go_spaces s"
  by (subst strip_front.simps) (simp add: go_spaces_def)

lemma trim_space_leading: "trim_space (CHR '' '' # s) = trim_space s"
  by (simp add: trim_space_def strip_front_space)

lemma trim_space_Nil [simp]: "trim_space [] = []"
  by (simp add: trim_space_def)

lemma strip_front_no_prefix:
  "p \<in> set ps \<Longrightarrow> p \<noteq> [] \<Longrightarrow> \<not> has_prefix (strip_front ps s) p"
proof (induction ps s rule: strip_front.induct)
  case (1 ps s)
  show ?case
  proof (cases "find (\<lambda>p. p \<noteq> [] \<and> has_prefix s p) ps")
    case None
    then have "strip_front ps s = s"
      by (subst strip_front.simps) simp
    with None "1.prems" show ?thesis
      by (auto simp: find_None_iff)
  next
    case (Some q)
    with "1.IH" [OF Some] "1.prems" show ?thesis
      by (subst strip_front.simps) simp
  qed
qed

lemma strip_front_suffix: "\<exists>q. s = q @ strip_front ps s"
proof (induction ps s rule: strip_front.induct)
  case (1 ps s)
  show ?case
  proof (cases "find (\<lambda>p. p \<noteq> [] \<and> has_prefix s p) ps")
    case None
    then show ?thesis by (subst strip_front.simps) simp
  next
    case (Some q)
    with "1.IH" [OF Some] obtain q' where "drop (length q) s = q' @ strip_front ps (drop (length q) s)"
      by blast
    then have "s = (take (length q) s @ q') @ strip_front ps (drop (length q) s)"
      by (metis append_assoc append_take_drop_id)
    moreover have "strip_front ps s = strip_front ps (drop (length q) s)"
      using Some by (subst strip_front.simps) simp
    ultimately show ?thesis by metis
  qed
qed

lemma go_spaces_nonempty: "p \<in> set go_spaces \<Longrightarrow> p \<noteq> []"
  by (auto simp: go_spaces_def)

lemma trimmed_trim_space: "trimmed (trim_space s)"
proof -
  define t where "t = strip_front go_spaces s"
  define u where "u = strip_front (map rev go_spaces) (rev t)"
  have trim: "trim_space s = rev u" by (simp add: trim_space_def t_def u_def)
  obtain q where "rev t = q @ u"
    using strip_front_suffix [of "rev t" "map rev go_spaces"] by (auto simp: u_def)
  then have t: "t = rev u @ rev q" by (metis rev_append rev_rev_ident)
  have "\<not> has_prefix (rev u) p" if "p \<in> set go_spaces" for p
  proof
    assume "has_prefix (rev u) p"
    then have "has_prefix t p" using t by (auto simp: has_prefix_iff)
    then show False
      using strip_front_no_prefix [OF that go_spaces_nonempty [OF that], of s] by (simp add: t_def)
  qed
  moreover have "\<not> has_prefix u (rev p)" if "p \<in> set go_spaces" for p
    unfolding u_def
    by (rule strip_front_no_prefix) (use that go_spaces_nonempty [OF that] in auto)
  ultimately show ?thesis by (simp add: trim trimmed_def)
qed

lemma trim_space_idem [simp]: "trim_space (trim_space s) = trim_space s"
  by (rule trim_space_trimmed) (rule trimmed_trim_space)

section \<open>Decimal printing and time\<close>

fun digits_of :: "nat \<Rightarrow> string" where
  "digits_of n = (if n < 10 then [char_of (48 + n)]
                  else digits_of (n div 10) @ [char_of (48 + n mod 10)])"

declare digits_of.simps [simp del]

text \<open>The verb \<open>%d\<close> on a Go integer.\<close>

definition show_int :: "int \<Rightarrow> string" where
  "show_int i = (if i < 0 then CHR ''-'' # digits_of (nat (- i)) else digits_of (nat i))"

lemma digits_of_not_newline: "c \<in> set (digits_of n) \<Longrightarrow> c \<noteq> CHR 0x0A"
proof (induction n rule: digits_of.induct)
  case (1 n)
  have digit: "char_of (48 + d) \<noteq> CHR 0x0A" if "d < 10" for d :: nat
  proof
    assume "char_of (48 + d) = CHR 0x0A"
    then have "of_char (char_of (48 + d) :: char) = (of_char (CHR 0x0A) :: nat)" by (rule arg_cong)
    with that show False by simp
  qed
  from 1 show ?case
    by (subst (asm) digits_of.simps) (auto simp: digit digit [symmetric] split: if_splits)
qed

lemma show_int_not_newline: "CHR 0x0A \<notin> set (show_int i)"
  using digits_of_not_newline by (auto simp: show_int_def)

text \<open>\<open>time.Second\<close>, \<open>time.Minute\<close> and \<open>Time.Add\<close>: a duration is a signed 64-bit nanosecond count.\<close>

definition time_Second :: duration where "time_Second = 1000000000"
definition time_Minute :: duration where "time_Minute = 60 * time_Second"

definition time_add :: "go_time \<Rightarrow> duration \<Rightarrow> go_time" where
  "time_add t d = t + sint d"

end
