(* ===== verification/ApiTypes.thy ===== *)
theory ApiTypes
  imports GoBase
begin

text \<open>
  The API types of \<open>api/v1alpha1\<close>: the specification and the status of an Issuer and of a
  ClusterIssuer, their conditions, and the string constants of \<open>issuer_types.go\<close>,
  \<open>types.go\<close> and \<open>groupversion_info.go\<close>. Of \<open>metav1.ObjectMeta\<close> only the name and the
  namespace are kept, the two fields the program reads. The embedded \<open>metav1.TypeMeta\<close> is the
  constructor of the object.
\<close>

section \<open>Constants\<close>

definition IssuerConditionReady :: string where
  "IssuerConditionReady = ''Ready''"

definition IssuerConditionStatusSubmitted :: string where
  "IssuerConditionStatusSubmitted = ''Certificate request submitted''"
definition IssuerConditionStatusProcessing :: string where
  "IssuerConditionStatusProcessing = ''Certificate request in progress''"
definition IssuerConditionStatusApproved :: string where
  "IssuerConditionStatusApproved = ''Certificate request approved''"
definition IssuerConditionStatusSigned :: string where
  "IssuerConditionStatusSigned = ''Certificate is signed''"

definition TaskStatusProcessing :: string where "TaskStatusProcessing = ''PROCESSING''"
definition TaskStatusApproved :: string where "TaskStatusApproved = ''APPROVED''"
definition TaskStatusIssued :: string where "TaskStatusIssued = ''ISSUED''"
definition TaskStatusFailed :: string where "TaskStatusFailed = ''FAILED_IN_REVIEW''"
definition TaskStatusDeclined :: string where "TaskStatusDeclined = ''DECLINED''"
definition TaskStatusCanceled :: string where "TaskStatusCanceled = ''CANCELED''"

definition ConditionTrue :: string where "ConditionTrue = ''True''"
definition ConditionFalse :: string where "ConditionFalse = ''False''"
definition ConditionUnknown :: string where "ConditionUnknown = ''Unknown''"

definition EventSource :: string where "EventSource = ''essendi-xc-issuer''"
definition EventReasonCertificateRequestReconciler :: string where
  "EventReasonCertificateRequestReconciler = ''CertificateRequestReconciler''"
definition EventReasonIssuerReconciler :: string where
  "EventReasonIssuerReconciler = ''IssuerReconciler''"

definition GroupVersion_Group :: string where
  "GroupVersion_Group = ''essendixc.angeloxx.ch''"
definition GroupVersion_Version :: string where
  "GroupVersion_Version = ''v1alpha1''"

lemmas condition_constants =
  IssuerConditionReady_def ConditionTrue_def ConditionFalse_def ConditionUnknown_def

lemmas phase_messages =
  IssuerConditionStatusSubmitted_def IssuerConditionStatusProcessing_def
  IssuerConditionStatusApproved_def IssuerConditionStatusSigned_def

lemmas task_statuses =
  TaskStatusProcessing_def TaskStatusApproved_def TaskStatusIssued_def
  TaskStatusFailed_def TaskStatusDeclined_def TaskStatusCanceled_def

text \<open>No message prefix of a phase holds a colon, and none is a prefix of another's text.\<close>

lemma phase_message_no_colon [simp]:
  "CHR '':'' \<notin> set IssuerConditionStatusSubmitted"
  "CHR '':'' \<notin> set IssuerConditionStatusProcessing"
  "CHR '':'' \<notin> set IssuerConditionStatusApproved"
  "CHR '':'' \<notin> set IssuerConditionStatusSigned"
  by (simp_all add: phase_messages)

lemma phase_message_prefix [simp]:
  "has_prefix (IssuerConditionStatusSubmitted @ s) IssuerConditionStatusProcessing = False"
  "has_prefix (IssuerConditionStatusSubmitted @ s) IssuerConditionStatusApproved = False"
  "has_prefix (IssuerConditionStatusSubmitted @ s) IssuerConditionStatusSigned = False"
  "has_prefix (IssuerConditionStatusProcessing @ s) IssuerConditionStatusSubmitted = False"
  "has_prefix (IssuerConditionStatusProcessing @ s) IssuerConditionStatusApproved = False"
  "has_prefix (IssuerConditionStatusProcessing @ s) IssuerConditionStatusSigned = False"
  "has_prefix (IssuerConditionStatusApproved @ s) IssuerConditionStatusSubmitted = False"
  "has_prefix (IssuerConditionStatusApproved @ s) IssuerConditionStatusProcessing = False"
  "has_prefix (IssuerConditionStatusApproved @ s) IssuerConditionStatusSigned = False"
  "has_prefix (IssuerConditionStatusSigned @ s) IssuerConditionStatusSubmitted = False"
  "has_prefix (IssuerConditionStatusSigned @ s) IssuerConditionStatusProcessing = False"
  "has_prefix (IssuerConditionStatusSigned @ s) IssuerConditionStatusApproved = False"
  by (simp_all add: phase_messages)

section \<open>Issuer and ClusterIssuer\<close>

record issuer_custom_field =
  cf_Name :: string
  cf_Value :: string

record issuer_spec =
  is_URL :: string
  is_CustomFields :: "issuer_custom_field list"
  is_AuthSecretName :: string
  is_ProfileName :: string
  is_SubscriberName :: string
  is_IgnoreHostInApiResponse :: bool

record issuer_condition =
  ic_Type :: string
  ic_Status :: string
  ic_LastTransitionTime :: "go_time option"
  ic_Reason :: string
  ic_Message :: string

record issuer_status =
  is_Conditions :: "issuer_condition list"

record issuer =
  iss_Namespace :: string
  iss_Name :: string
  iss_Spec :: issuer_spec
  iss_Status :: issuer_status

record cluster_issuer =
  cis_Name :: string
  cis_Spec :: issuer_spec
  cis_Status :: issuer_status

text \<open>
  A value of the interface \<open>client.Object\<close>: one of the two types of this API group, or an
  object of some other type, of which the program only prints a rendering.
\<close>

datatype client_object =
    ObjIssuer issuer
  | ObjClusterIssuer cluster_issuer
  | ObjOther string

text \<open>
  What \<open>Scheme.New\<close> returns, a fresh object of a registered type: an Issuer, a
  ClusterIssuer, another type that implements \<open>client.Object\<close>, or a type that does not
  (\<open>IssuerList\<close> and \<open>ClusterIssuerList\<close>, which are registered too, are lists and carry no
  object metadata).
\<close>

datatype runtime_object =
    RtIssuer
  | RtClusterIssuer
  | RtClientObject string
  | RtNotClientObject string

text \<open>
  What the \<open>init\<close> functions of \<open>issuer_types.go\<close> and \<open>clusterissuer_types.go\<close> give to
  \<open>SchemeBuilder.Register\<close>, with the kind each type is registered under (its Go name), and the
  content of \<open>SchemeBuilder\<close> once the package is loaded: its files are initialised in the order of
  their names. These are the types the repository registers; \<open>scheme.Builder\<close> itself adds the kinds
  of \<open>metav1.AddToGroupVersion\<close> to the group (\<open>WatchEvent\<close> and option types such as \<open>ListOptions\<close>), which
  belong to the library and are not listed.
\<close>

definition issuer_types_init :: "(string \<times> runtime_object) list" where
  "issuer_types_init =
     [(''Issuer'', RtIssuer), (''IssuerList'', RtNotClientObject ''IssuerList'')]"

definition clusterissuer_types_init :: "(string \<times> runtime_object) list" where
  "clusterissuer_types_init =
     [(''ClusterIssuer'', RtClusterIssuer), (''ClusterIssuerList'', RtNotClientObject ''ClusterIssuerList'')]"

definition SchemeBuilder :: "(string \<times> string) \<times> (string \<times> runtime_object) list" where
  "SchemeBuilder =
     ((GroupVersion_Group, GroupVersion_Version), clusterissuer_types_init @ issuer_types_init)"

text \<open>A key in the API server: namespace and name, as in \<open>types.NamespacedName\<close>.\<close>

type_synonym namespaced_name = "string \<times> string"

end
