(* ===== verification/CertManager.thy ===== *)
theory CertManager
  imports ApiTypes
begin

text \<open>
  The cert-manager side of the program's interface. The \<open>CertificateRequest\<close> type and the
  helpers of \<open>pkg/api/util\<close> are not part of this repository: the record below has the fields
  the program reads and writes, and the helpers are the fields of \<open>cmutil\<close>, an argument of
  every definition that calls them. \<open>cmutil_laws\<close> states what cert-manager documents of them;
  the string constants are the ones of its API reference. \<open>cmutil_doc\<close> is one function for
  each helper that behaves as documented, used where a theorem is applied to a concrete
  request.
\<close>

definition cm_Ready :: string where "cm_Ready = ''Ready''"
definition cm_Approved :: string where "cm_Approved = ''Approved''"
definition cm_Denied :: string where "cm_Denied = ''Denied''"
definition cm_True :: string where "cm_True = ''True''"
definition cm_False :: string where "cm_False = ''False''"
definition cm_Pending :: string where "cm_Pending = ''Pending''"
definition cm_Failed :: string where "cm_Failed = ''Failed''"
definition cm_Issued :: string where "cm_Issued = ''Issued''"

text \<open>The reason \<open>Denied\<close> has the same text as the condition type \<open>Denied\<close>.\<close>

lemmas cm_constants =
  cm_Ready_def cm_Approved_def cm_Denied_def cm_True_def cm_False_def
  cm_Pending_def cm_Failed_def cm_Issued_def

lemma cm_distinct [simp]:
  "cm_Ready \<noteq> cm_Approved" "cm_Approved \<noteq> cm_Ready" "cm_Ready \<noteq> cm_Denied" "cm_Denied \<noteq> cm_Ready"
  "cm_Approved \<noteq> cm_Denied" "cm_Denied \<noteq> cm_Approved" "cm_Failed \<noteq> cm_Ready" "cm_Ready \<noteq> cm_Failed"
  "cm_True \<noteq> cm_False" "cm_False \<noteq> cm_True"
  "cm_Pending \<noteq> cm_Failed" "cm_Failed \<noteq> cm_Pending" "cm_Pending \<noteq> cm_Issued" "cm_Issued \<noteq> cm_Pending"
  "cm_Pending \<noteq> cm_Denied" "cm_Denied \<noteq> cm_Pending" "cm_Failed \<noteq> cm_Issued" "cm_Issued \<noteq> cm_Failed"
  "cm_Failed \<noteq> cm_Denied" "cm_Denied \<noteq> cm_Failed" "cm_Issued \<noteq> cm_Denied" "cm_Denied \<noteq> cm_Issued"
  "cm_Pending \<noteq> []" "cm_Failed \<noteq> []" "cm_Issued \<noteq> []" "cm_Denied \<noteq> []"
  by (simp_all add: cm_constants)

record cr_condition =
  cc_Type :: string
  cc_Status :: string
  cc_Reason :: string
  cc_Message :: string
  cc_LastTransitionTime :: "go_time option"

record certificate_request =
  cr_Namespace :: string
  cr_Name :: string
  cr_IssuerGroup :: string
  cr_IssuerKind :: string
  cr_IssuerName :: string
  cr_Request :: bytes
  cr_Conditions :: "cr_condition list"
  cr_Certificate :: bytes
  cr_CA :: bytes
  cr_FailureTime :: "go_time option"

text \<open>The helpers, with the arguments the program gives them.\<close>

record cmutil =
  cm_HasCondition :: "certificate_request \<Rightarrow> string \<Rightarrow> string \<Rightarrow> string \<Rightarrow> bool"
  cm_GetCondition :: "certificate_request \<Rightarrow> string \<Rightarrow> cr_condition option"
  cm_IsApproved :: "certificate_request \<Rightarrow> bool"
  cm_IsDenied :: "certificate_request \<Rightarrow> bool"
  cm_SetCondition :: "certificate_request \<Rightarrow> string \<Rightarrow> string \<Rightarrow> string \<Rightarrow> string \<Rightarrow> certificate_request"

definition has_condition_doc :: "certificate_request \<Rightarrow> string \<Rightarrow> string \<Rightarrow> string \<Rightarrow> bool" where
  "has_condition_doc cr t s r \<longleftrightarrow>
     list_ex (\<lambda>c. cc_Type c = t \<and> cc_Status c = s \<and> (r = [] \<or> cc_Reason c = r)) (cr_Conditions cr)"

text \<open>Updates the condition of the same type, or appends the new one when there is none.\<close>

fun upsert :: "cr_condition \<Rightarrow> cr_condition list \<Rightarrow> cr_condition list" where
  "upsert n [] = [n]"
| "upsert n (c # cs) = (if cc_Type c = cc_Type n then n # cs else c # upsert n cs)"

text \<open>
  What cert-manager documents: a condition is found by its type; a match compares type and
  status, and the reason only when the query has one; a request is approved (denied) by an
  Approved (Denied) condition with status True; setting a condition updates the one of that
  type or inserts it, and touches nothing else. When it sets the transition time is left open.
\<close>

definition cmutil_laws :: "cmutil \<Rightarrow> bool" where
  "cmutil_laws cm \<longleftrightarrow>
     (\<forall>cr t s r. cm_HasCondition cm cr t s r = has_condition_doc cr t s r) \<and>
     (\<forall>cr t. cm_GetCondition cm cr t = find (\<lambda>c. cc_Type c = t) (cr_Conditions cr)) \<and>
     (\<forall>cr. cm_IsApproved cm cr = has_condition_doc cr cm_Approved cm_True []) \<and>
     (\<forall>cr. cm_IsDenied cm cr = has_condition_doc cr cm_Denied cm_True []) \<and>
     (\<forall>cr t s r m. \<exists>tm. cm_SetCondition cm cr t s r m =
        cr\<lparr>cr_Conditions := upsert \<lparr>cc_Type = t, cc_Status = s, cc_Reason = r, cc_Message = m,
             cc_LastTransitionTime = tm\<rparr> (cr_Conditions cr)\<rparr>)"

definition cmutil_doc :: cmutil where
  "cmutil_doc = \<lparr>
     cm_HasCondition = has_condition_doc,
     cm_GetCondition = (\<lambda>cr t. find (\<lambda>c. cc_Type c = t) (cr_Conditions cr)),
     cm_IsApproved = (\<lambda>cr. has_condition_doc cr cm_Approved cm_True []),
     cm_IsDenied = (\<lambda>cr. has_condition_doc cr cm_Denied cm_True []),
     cm_SetCondition = (\<lambda>cr t s r m. cr\<lparr>cr_Conditions :=
        upsert \<lparr>cc_Type = t, cc_Status = s, cc_Reason = r, cc_Message = m,
                cc_LastTransitionTime = Some 0\<rparr> (cr_Conditions cr)\<rparr>)\<rparr>"

lemma cmutil_laws_doc [simp]: "cmutil_laws cmutil_doc"
  by (auto simp: cmutil_laws_def cmutil_doc_def)

section \<open>Lemmas\<close>

definition cond_of :: "string \<Rightarrow> cr_condition list \<Rightarrow> cr_condition option" where
  "cond_of t cs = find (\<lambda>c. cc_Type c = t) cs"

lemma cond_of_Nil [simp]: "cond_of t [] = None"
  by (simp add: cond_of_def)

lemma cond_of_Cons [simp]: "cond_of t (c # cs) = (if cc_Type c = t then Some c else cond_of t cs)"
  by (simp add: cond_of_def)

lemma cond_of_upsert: "cond_of t (upsert n cs) = (if cc_Type n = t then Some n else cond_of t cs)"
  by (induction cs) auto

lemma cond_of_Some: "cond_of t cs = Some c \<Longrightarrow> c \<in> set cs \<and> cc_Type c = t"
  by (induction cs) (auto split: if_splits)

lemma cond_of_None_iff: "cond_of t cs = None \<longleftrightarrow> (\<forall>c \<in> set cs. cc_Type c \<noteq> t)"
  by (induction cs) auto

lemma set_upsert_subset: "set (upsert n cs) \<subseteq> insert n (set cs)"
  by (induction cs) auto

lemma upsert_types:
  "map cc_Type (upsert n cs) =
     (if cc_Type n \<in> cc_Type ` set cs then map cc_Type cs else map cc_Type cs @ [cc_Type n])"
  by (induction cs) auto

lemma distinct_upsert: "distinct (map cc_Type cs) \<Longrightarrow> distinct (map cc_Type (upsert n cs))"
  by (auto simp: upsert_types)

lemma distinct_types_Cons:
  "distinct (map cc_Type (c # cs)) \<Longrightarrow> d \<in> set cs \<Longrightarrow> cc_Type d \<noteq> cc_Type c"
  by (auto dest: image_eqI [where f = cc_Type, OF sym])

lemma set_upsert_distinct:
  "distinct (map cc_Type cs) \<Longrightarrow>
     set (upsert n cs) = insert n {c \<in> set cs. cc_Type c \<noteq> cc_Type n}"
proof (induction cs)
  case Nil
  then show ?case by simp
next
  case (Cons c cs)
  show ?case
  proof (cases "cc_Type c = cc_Type n")
    case True
    with Cons.prems have "\<forall>d \<in> set cs. cc_Type d \<noteq> cc_Type n"
      using distinct_types_Cons [of c cs] by simp
    with True show ?thesis by auto
  next
    case False
    with Cons show ?thesis by auto
  qed
qed

lemma upsert_others:
  "filter (\<lambda>c. cc_Type c \<noteq> cc_Type n) (upsert n cs) = filter (\<lambda>c. cc_Type c \<noteq> cc_Type n) cs"
  by (induction cs) auto

text \<open>With one condition per type, a match against the list is a match against that condition.\<close>

lemma has_condition_cond_of:
  assumes "distinct (map cc_Type (cr_Conditions cr))"
  shows "has_condition_doc cr t s r \<longleftrightarrow>
    (\<exists>c. cond_of t (cr_Conditions cr) = Some c \<and> cc_Status c = s \<and> (r = [] \<or> cc_Reason c = r))"
proof -
  have "list_ex (\<lambda>c. cc_Type c = t \<and> cc_Status c = s \<and> (r = [] \<or> cc_Reason c = r)) cs \<longleftrightarrow>
      (\<exists>c. cond_of t cs = Some c \<and> cc_Status c = s \<and> (r = [] \<or> cc_Reason c = r))"
    if "distinct (map cc_Type cs)" for cs
    using that
  proof (induction cs)
    case Nil
    then show ?case by simp
  next
    case (Cons c cs)
    then have others: "\<forall>d \<in> set cs. cc_Type d \<noteq> cc_Type c"
      using distinct_types_Cons [of c cs] by simp
    show ?case
    proof (cases "cc_Type c = t")
      case True
      with others have "\<not> list_ex (\<lambda>c. cc_Type c = t \<and> cc_Status c = s \<and> (r = [] \<or> cc_Reason c = r)) cs"
        by (auto simp: list_ex_iff)
      with True show ?thesis by auto
    next
      case False
      with Cons show ?thesis by simp
    qed
  qed
  with assms show ?thesis by (simp add: has_condition_doc_def)
qed

lemma cmutil_has [simp]: "cmutil_laws cm \<Longrightarrow> cm_HasCondition cm cr t s r = has_condition_doc cr t s r"
  and cmutil_get [simp]: "cmutil_laws cm \<Longrightarrow> cm_GetCondition cm cr t = cond_of t (cr_Conditions cr)"
  and cmutil_approved [simp]:
    "cmutil_laws cm \<Longrightarrow> cm_IsApproved cm cr = has_condition_doc cr cm_Approved cm_True []"
  and cmutil_denied [simp]:
    "cmutil_laws cm \<Longrightarrow> cm_IsDenied cm cr = has_condition_doc cr cm_Denied cm_True []"
  by (simp_all add: cmutil_laws_def cond_of_def)

lemma cmutil_set:
  assumes "cmutil_laws cm"
  obtains tm where "cm_SetCondition cm cr t s r m =
    cr\<lparr>cr_Conditions := upsert \<lparr>cc_Type = t, cc_Status = s, cc_Reason = r, cc_Message = m,
         cc_LastTransitionTime = tm\<rparr> (cr_Conditions cr)\<rparr>"
  using assms unfolding cmutil_laws_def by blast

end
