(* ===== verification/Kube.thy ===== *)
theory Kube
  imports CertManager
begin

text \<open>
  What both controllers see of the cluster: the API server through the controller-runtime
  client, the scheme, the clock and the event recorder. None of it is code of this repository.
  \<open>kube\<close> holds the answers of the API server during one call of \<open>Reconcile\<close>; the events recorded
  and the object passed to \<open>Status().Update\<close> are part of the outcome.
\<close>

text \<open>\<open>client.IgnoreNotFound\<close> drops exactly the first kind of error.\<close>

datatype get_error = GetNotFound go_error | GetOther go_error

primrec get_error_text :: "get_error \<Rightarrow> string" where
  "get_error_text (GetNotFound e) = err_text e"
| "get_error_text (GetOther e) = err_text e"

record kube =
  k_get_Issuer :: "namespaced_name \<Rightarrow> get_error + issuer"
  k_get_ClusterIssuer :: "namespaced_name \<Rightarrow> get_error + cluster_issuer"
  k_get_Other :: "string \<Rightarrow> namespaced_name \<Rightarrow> get_error + string"
  k_get_Secret :: "namespaced_name \<Rightarrow> get_error + (string \<rightharpoonup> bytes)"
  k_get_CertificateRequest :: "namespaced_name \<Rightarrow> get_error + certificate_request"
  k_update_issuer :: "client_object \<Rightarrow> go_error option"
  k_update_cr :: "certificate_request \<Rightarrow> go_error option"
  k_scheme_new :: "string \<Rightarrow> go_error + runtime_object"
  k_nn_string :: "namespaced_name \<Rightarrow> string"
  k_now :: go_time

text \<open>
  \<open>r.Get(ctx, name, obj)\<close> fills the object it is given, so the answer has that object's type. It
  is called with a \<open>client.Object\<close> only.
\<close>

definition get_object :: "kube \<Rightarrow> runtime_object \<Rightarrow> namespaced_name \<Rightarrow> get_error + client_object" where
  "get_object k ro n =
     (case ro of
        RtIssuer \<Rightarrow> map_sum id ObjIssuer (k_get_Issuer k n)
      | RtClusterIssuer \<Rightarrow> map_sum id ObjClusterIssuer (k_get_ClusterIssuer k n)
      | RtClientObject ty \<Rightarrow> map_sum id ObjOther (k_get_Other k ty n)
      | RtNotClientObject ty \<Rightarrow> Inl (GetOther (ErrText ty)))"

text \<open>
  \<open>AddToScheme\<close> has been called on the scheme: \<open>Scheme.New\<close> answers with a fresh object for every
  type the repository registered with \<open>SchemeBuilder\<close>. Of other kinds, those the library adds to the
  group included, nothing is said: \<open>Scheme.New\<close> may know them or not.
\<close>

definition scheme_registered :: "kube \<Rightarrow> bool" where
  "scheme_registered k \<longleftrightarrow> list_all (\<lambda>(kind, ro). k_scheme_new k kind = Inr ro) (snd SchemeBuilder)"

lemma scheme_registered_iff:
  "scheme_registered k \<longleftrightarrow>
     k_scheme_new k ''Issuer'' = Inr RtIssuer \<and>
     k_scheme_new k ''ClusterIssuer'' = Inr RtClusterIssuer \<and>
     k_scheme_new k ''IssuerList'' = Inr (RtNotClientObject ''IssuerList'') \<and>
     k_scheme_new k ''ClusterIssuerList'' = Inr (RtNotClientObject ''ClusterIssuerList'')"
  by (auto simp: scheme_registered_def SchemeBuilder_def issuer_types_init_def clusterissuer_types_init_def)

datatype event_type = EventNormal | EventWarning

record event =
  ev_type :: event_type
  ev_reason :: string
  ev_message :: string

text \<open>
  The error a reconciliation returns: its own, or \<open>utilerrors.NewAggregate\<close> of its own (if any)
  and the error of the status update.
\<close>

datatype ret_error = Single go_error | Aggregate "go_error option" go_error

text \<open>
  The outcome of one call of \<open>Reconcile\<close> on objects of type \<open>'o\<close>: \<open>RequeueAfter\<close> of the result,
  the error, whether the call unwinds with a panic, the object given to \<open>Status().Update\<close> and
  whether the API server took it, and the events recorded.
\<close>

record 'o outcome =
  oc_RequeueAfter :: duration
  oc_error :: "ret_error option"
  oc_panic :: bool
  oc_update :: "'o option"
  oc_stored :: bool
  oc_events :: "event list"

text \<open>A call that returns before the deferred update is set up.\<close>

definition early_return :: "go_error option \<Rightarrow> 'o outcome" where
  "early_return err = \<lparr>oc_RequeueAfter = 0, oc_error = map_option Single err, oc_panic = False,
     oc_update = None, oc_stored = False, oc_events = []\<rparr>"

definition early_panic :: "'o outcome" where
  "early_panic = \<lparr>oc_RequeueAfter = 0, oc_error = None, oc_panic = True,
     oc_update = None, oc_stored = False, oc_events = []\<rparr>"

text \<open>The message and the type of an event: an error is appended and makes it a warning.\<close>

definition report_message :: "string \<Rightarrow> go_error option \<Rightarrow> string" where
  "report_message message err =
     (case err of None \<Rightarrow> message | Some e \<Rightarrow> message @ '': '' @ err_text e)"

definition report_type :: "go_error option \<Rightarrow> event_type" where
  "report_type err = (case err of None \<Rightarrow> EventNormal | Some e \<Rightarrow> EventWarning)"

lemma early_return_simps [simp]:
  "oc_RequeueAfter (early_return err) = 0" "oc_error (early_return err) = map_option Single err"
  "oc_panic (early_return err) = False" "oc_update (early_return err) = None"
  "oc_stored (early_return err) = False" "oc_events (early_return err) = []"
  by (simp_all add: early_return_def)

lemma early_panic_simps [simp]:
  "oc_RequeueAfter early_panic = 0" "oc_error early_panic = None"
  "oc_panic early_panic = True" "oc_update early_panic = None"
  "oc_stored early_panic = False" "oc_events early_panic = []"
  by (simp_all add: early_panic_def)

lemma report_message_None [simp]: "report_message m None = m"
  by (simp add: report_message_def)

lemma report_type_simps [simp]:
  "report_type None = EventNormal" "report_type (Some e) = EventWarning"
  by (simp_all add: report_type_def)

end
