(* ===== verification/IssuerUtil.thy ===== *)
theory IssuerUtil
  imports ApiTypes
begin

text \<open>
  Package \<open>internal/issuer/util\<close>, the half on issuers: access to the specification and the
  status of an issuer object and the Ready condition kept in its status.

  \<open>GetSpecAndStatus\<close> returns pointers into the object. A caller's writes through the status
  pointer are \<open>put_status\<close> here. \<open>GetReadyCondition\<close> returns a pointer to the loop variable, a
  copy of the condition, so \<open>SetReadyCondition\<close> works on a copy and writes it back by index.
\<close>

definition GetSpecAndStatus :: "client_object \<Rightarrow> go_error + (issuer_spec \<times> issuer_status)" where
  "GetSpecAndStatus obj =
     (case obj of
        ObjIssuer t \<Rightarrow> Inr (iss_Spec t, iss_Status t)
      | ObjClusterIssuer t \<Rightarrow> Inr (cis_Spec t, cis_Status t)
      | ObjOther t \<Rightarrow> Inl (ErrText (''not an issuer type: '' @ t)))"

definition put_status :: "client_object \<Rightarrow> issuer_status \<Rightarrow> client_object" where
  "put_status obj st =
     (case obj of
        ObjIssuer t \<Rightarrow> ObjIssuer (t\<lparr>iss_Status := st\<rparr>)
      | ObjClusterIssuer t \<Rightarrow> ObjClusterIssuer (t\<lparr>cis_Status := st\<rparr>)
      | ObjOther t \<Rightarrow> ObjOther t)"

definition is_ready_cond :: "issuer_condition \<Rightarrow> bool" where
  "is_ready_cond c \<longleftrightarrow> ic_Type c = IssuerConditionReady"

definition GetReadyCondition :: "issuer_status \<Rightarrow> issuer_condition option" where
  "GetReadyCondition st = find is_ready_cond (is_Conditions st)"

text \<open>The loop of \<open>SetReadyCondition\<close>: the first Ready condition is overwritten, then it returns.\<close>

fun write_ready :: "issuer_condition \<Rightarrow> issuer_condition list \<Rightarrow> issuer_condition list" where
  "write_ready r [] = []"
| "write_ready r (c # cs) = (if is_ready_cond c then r # cs else c # write_ready r cs)"

definition new_ready :: issuer_condition where
  "new_ready = \<lparr>ic_Type = IssuerConditionReady, ic_Status = '''',
     ic_LastTransitionTime = None, ic_Reason = '''', ic_Message = ''''\<rparr>"

definition SetReadyCondition ::
    "go_time \<Rightarrow> string \<Rightarrow> string \<Rightarrow> string \<Rightarrow> issuer_status \<Rightarrow> issuer_status" where
  "SetReadyCondition now conditionStatus reason message st =
     (let found = GetReadyCondition st;
          conds = (case found of None \<Rightarrow> is_Conditions st @ [new_ready] | Some _ \<Rightarrow> is_Conditions st);
          ready = (case found of None \<Rightarrow> new_ready | Some c \<Rightarrow> c);
          ready = (if ic_Status ready \<noteq> conditionStatus
                   then ready\<lparr>ic_Status := conditionStatus, ic_LastTransitionTime := Some now\<rparr>
                   else ready);
          ready = ready\<lparr>ic_Reason := reason, ic_Message := message\<rparr>
      in st\<lparr>is_Conditions := write_ready ready conds\<rparr>)"

definition IsReady :: "issuer_status \<Rightarrow> bool" where
  "IsReady st = (case GetReadyCondition st of None \<Rightarrow> False | Some c \<Rightarrow> ic_Status c = ConditionTrue)"

section \<open>Lemmas\<close>

lemma is_ready_cond_new [simp]: "is_ready_cond new_ready"
  by (simp add: is_ready_cond_def new_ready_def)

lemma is_ready_cond_update [simp]:
  "is_ready_cond (c\<lparr>ic_Status := s\<rparr>) = is_ready_cond c"
  "is_ready_cond (c\<lparr>ic_LastTransitionTime := t\<rparr>) = is_ready_cond c"
  "is_ready_cond (c\<lparr>ic_Reason := r\<rparr>) = is_ready_cond c"
  "is_ready_cond (c\<lparr>ic_Message := m\<rparr>) = is_ready_cond c"
  by (simp_all add: is_ready_cond_def)

lemma find_write_ready:
  "is_ready_cond r \<Longrightarrow> find is_ready_cond cs \<noteq> None \<Longrightarrow>
     find is_ready_cond (write_ready r cs) = Some r"
  by (induction cs) auto

lemma write_ready_others:
  "is_ready_cond r \<Longrightarrow>
     filter (\<lambda>c. \<not> is_ready_cond c) (write_ready r cs) = filter (\<lambda>c. \<not> is_ready_cond c) cs"
  by (induction cs) auto

lemma write_ready_length [simp]: "length (write_ready r cs) = length cs"
  by (induction cs) auto

lemma write_ready_count:
  "is_ready_cond r \<Longrightarrow>
     length (filter is_ready_cond (write_ready r cs)) = length (filter is_ready_cond cs)"
  by (induction cs) auto

lemma GetReadyCondition_ready: "GetReadyCondition st = Some c \<Longrightarrow> is_ready_cond c"
  by (auto simp: GetReadyCondition_def find_Some_iff)

lemma find_append_new:
  "find is_ready_cond cs = None \<Longrightarrow> find is_ready_cond (cs @ [new_ready]) = Some new_ready"
  by (induction cs) (auto split: if_splits)

text \<open>What \<open>GetReadyCondition\<close> finds after \<open>SetReadyCondition\<close>, in full.\<close>

definition ready_after :: "go_time \<Rightarrow> string \<Rightarrow> string \<Rightarrow> string \<Rightarrow> issuer_condition option \<Rightarrow> issuer_condition" where
  "ready_after now s r m old =
     \<lparr>ic_Type = IssuerConditionReady, ic_Status = s,
      ic_LastTransitionTime =
        (case old of
           None \<Rightarrow> (if s = '''' then None else Some now)
         | Some c \<Rightarrow> (if ic_Status c = s then ic_LastTransitionTime c else Some now)),
      ic_Reason = r, ic_Message = m\<rparr>"

lemma GetReadyCondition_SetReadyCondition:
  "GetReadyCondition (SetReadyCondition now s r m st) =
     Some (ready_after now s r m (GetReadyCondition st))"
proof (cases "GetReadyCondition st")
  case None
  then have "find is_ready_cond (is_Conditions st @ [new_ready]) \<noteq> None"
    by (simp add: GetReadyCondition_def find_append_new)
  with None show ?thesis
    by (simp add: SetReadyCondition_def GetReadyCondition_def find_write_ready ready_after_def)
       (simp add: new_ready_def)
next
  case (Some c)
  moreover from Some have ready: "is_ready_cond c" by (rule GetReadyCondition_ready)
  moreover from Some have "find is_ready_cond (is_Conditions st) \<noteq> None"
    by (simp add: GetReadyCondition_def)
  ultimately show ?thesis
    by (simp add: SetReadyCondition_def GetReadyCondition_def find_write_ready ready_after_def)
       (simp add: is_ready_cond_def)
qed

lemma SetReadyCondition_others:
  "filter (\<lambda>c. \<not> is_ready_cond c) (is_Conditions (SetReadyCondition now s r m st)) =
     filter (\<lambda>c. \<not> is_ready_cond c) (is_Conditions st)"
  by (simp add: SetReadyCondition_def Let_def write_ready_others GetReadyCondition_ready
        split: option.splits)

end
