(* ===== verification/GoCrypto.thy ===== *)
theory GoCrypto
  imports GoBase
begin

unbundle bit_operations_syntax

text \<open>
  The functions of the standard library behind \<open>generateXSignature\<close>: SHA-256 (FIPS 180-4),
  HMAC with it (RFC 2104, block size 64) and the standard base64 alphabet with padding
  (RFC 4648). They are executable; the lemmas give the sizes of their results and the
  decoding of base64.
\<close>

section \<open>SHA-256\<close>

type_synonym u32 = "32 word"

definition sha_K :: "u32 list" where
  "sha_K =
    [1116352408, 1899447441, 3049323471, 3921009573, 961987163, 1508970993, 2453635748, 2870763221,
     3624381080, 310598401, 607225278, 1426881987, 1925078388, 2162078206, 2614888103, 3248222580,
     3835390401, 4022224774, 264347078, 604807628, 770255983, 1249150122, 1555081692, 1996064986,
     2554220882, 2821834349, 2952996808, 3210313671, 3336571891, 3584528711, 113926993, 338241895,
     666307205, 773529912, 1294757372, 1396182291, 1695183700, 1986661051, 2177026350, 2456956037,
     2730485921, 2820302411, 3259730800, 3345764771, 3516065817, 3600352804, 4094571909, 275423344,
     430227734, 506948616, 659060556, 883997877, 958139571, 1322822218, 1537002063, 1747873779,
     1955562222, 2024104815, 2227730452, 2361852424, 2428436474, 2756734187, 3204031479, 3329325298]"

definition sha_H0 :: "u32 list" where
  "sha_H0 = [0x6a09e667, 0xbb67ae85, 0x3c6ef372, 0xa54ff53a,
             0x510e527f, 0x9b05688c, 0x1f83d9ab, 0x5be0cd19]"

definition rotr32 :: "nat \<Rightarrow> u32 \<Rightarrow> u32" where
  "rotr32 n x = drop_bit n x OR push_bit (32 - n) x"

definition small_sigma0 :: "u32 \<Rightarrow> u32" where
  "small_sigma0 x = rotr32 7 x XOR rotr32 18 x XOR drop_bit 3 x"
definition small_sigma1 :: "u32 \<Rightarrow> u32" where
  "small_sigma1 x = rotr32 17 x XOR rotr32 19 x XOR drop_bit 10 x"
definition big_sigma0 :: "u32 \<Rightarrow> u32" where
  "big_sigma0 x = rotr32 2 x XOR rotr32 13 x XOR rotr32 22 x"
definition big_sigma1 :: "u32 \<Rightarrow> u32" where
  "big_sigma1 x = rotr32 6 x XOR rotr32 11 x XOR rotr32 25 x"

text \<open>The message schedule: \<open>n\<close> more words after the ones in \<open>ws\<close>.\<close>

fun sha_schedule :: "nat \<Rightarrow> u32 list \<Rightarrow> u32 list" where
  "sha_schedule 0 ws = ws"
| "sha_schedule (Suc n) ws =
     (let t = length ws in
      sha_schedule n (ws @ [small_sigma1 (ws ! (t - 2)) + ws ! (t - 7)
                            + small_sigma0 (ws ! (t - 15)) + ws ! (t - 16)]))"

fun sha_round :: "u32 \<times> u32 \<Rightarrow> u32 list \<Rightarrow> u32 list" where
  "sha_round (k, w) [a, b, c, d, e, f, g, h] =
     (let t1 = h + big_sigma1 e + ((e AND f) XOR (NOT e AND g)) + k + w;
          t2 = big_sigma0 a + ((a AND b) XOR (a AND c) XOR (b AND c))
      in [t1 + t2, a, b, c, d + t1, e, f, g])"
| "sha_round kw st = st"

definition sha_compress :: "u32 list \<Rightarrow> u32 list \<Rightarrow> u32 list" where
  "sha_compress block st =
     map2 (+) st (fold sha_round (zip sha_K (sha_schedule 48 block)) st)"

definition byte_word :: "char \<Rightarrow> u32" where
  "byte_word c = word_of_nat (of_char c)"

fun words_be :: "bytes \<Rightarrow> u32 list" where
  "words_be (a # b # c # d # r) =
     (push_bit 24 (byte_word a) OR push_bit 16 (byte_word b)
      OR push_bit 8 (byte_word c) OR byte_word d) # words_be r"
| "words_be r = []"

fun sha_blocks :: "nat \<Rightarrow> u32 list \<Rightarrow> u32 list \<Rightarrow> u32 list" where
  "sha_blocks 0 ws st = st"
| "sha_blocks (Suc n) ws st = sha_blocks n (drop 16 ws) (sha_compress (take 16 ws) st)"

definition word_bytes :: "u32 \<Rightarrow> bytes" where
  "word_bytes w = map (\<lambda>n. char_of (unat (drop_bit n w AND 0xFF))) [24, 16, 8, 0]"

definition length_bytes :: "nat \<Rightarrow> bytes" where
  "length_bytes n = map (\<lambda>i. char_of ((n div 256 ^ i) mod 256)) [7, 6, 5, 4, 3, 2, 1, 0]"

definition sha_pad :: "bytes \<Rightarrow> bytes" where
  "sha_pad m = m @ [CHR 0x80] @ replicate ((119 - length m mod 64) mod 64) (CHR 0x00)
                 @ length_bytes (8 * length m)"

definition sha256 :: "bytes \<Rightarrow> bytes" where
  "sha256 m = (let p = sha_pad m in
     concat (map word_bytes (sha_blocks (length p div 64) (words_be p) sha_H0)))"

lemma sha_round_length: "length st = 8 \<Longrightarrow> length (sha_round kw st) = 8"
  by (cases "(kw, st)" rule: sha_round.cases)
     (simp_all only: sha_round.simps Let_def list.size prod.inject)

lemma fold_sha_round_length: "length st = 8 \<Longrightarrow> length (fold sha_round kws st) = 8"
  by (induction kws arbitrary: st) (auto simp: sha_round_length)

lemma sha_compress_length: "length st = 8 \<Longrightarrow> length (sha_compress b st) = 8"
  by (simp add: sha_compress_def fold_sha_round_length)

lemma sha_blocks_length: "length st = 8 \<Longrightarrow> length (sha_blocks n ws st) = 8"
  by (induction n arbitrary: ws st) (auto simp: sha_compress_length)

lemma length_concat_word_bytes: "length (concat (map word_bytes ws)) = 4 * length ws"
  by (induction ws) (auto simp: word_bytes_def)

lemma sha256_length: "length (sha256 m) = 32"
  by (simp add: sha256_def Let_def length_concat_word_bytes sha_blocks_length sha_H0_def)

lemma sha_pad_blocks: "length (sha_pad m) mod 64 = 0"
proof -
  define q r where "q = length m div 64" and "r = length m mod 64"
  then have m: "length m = 64 * q + r" and r: "r < 64" by simp_all
  have len: "length (sha_pad m) = length m + 9 + (119 - r) mod 64"
    by (simp add: sha_pad_def length_bytes_def r_def)
  show ?thesis
  proof (cases "r \<le> 55")
    case True
    then have "119 - r = (55 - r) + 64" by simp
    then have "(119 - r) mod 64 = (55 - r) mod 64" by (simp only: mod_add_self2)
    then have "(119 - r) mod 64 = 55 - r" by simp
    with len m True have "length (sha_pad m) = 64 * (q + 1)" by simp
    then show ?thesis by (simp only: mod_mult_self1_is_0)
  next
    case False
    with r have "(119 - r) mod 64 = 119 - r" by simp
    with len m r False have "length (sha_pad m) = 64 * (q + 2)" by simp
    then show ?thesis by (simp only: mod_mult_self1_is_0)
  qed
qed

section \<open>HMAC\<close>

definition xor_byte :: "nat \<Rightarrow> char \<Rightarrow> char" where
  "xor_byte n c = char_of (of_char c XOR n)"

definition hmac_sha256 :: "bytes \<Rightarrow> bytes \<Rightarrow> bytes" where
  "hmac_sha256 key msg =
     (let k = (if length key > 64 then sha256 key else key);
          k = k @ replicate (64 - length k) (CHR 0x00)
      in sha256 (map (xor_byte 0x5c) k @ sha256 (map (xor_byte 0x36) k @ msg)))"

lemma hmac_sha256_length [simp]: "length (hmac_sha256 key msg) = 32"
  by (simp add: hmac_sha256_def Let_def sha256_length)

section \<open>Base64\<close>

definition b64_alphabet :: string where
  "b64_alphabet = ''ABCDEFGHIJKLMNOPQRSTUVWXYZabcdefghijklmnopqrstuvwxyz0123456789+/''"

definition b64_char :: "nat \<Rightarrow> char" where
  "b64_char n = b64_alphabet ! (n mod 64)"

fun base64_encode :: "bytes \<Rightarrow> string" where
  "base64_encode [] = []"
| "base64_encode [a] =
     (let n = 16 * of_char a in [b64_char (n div 64), b64_char n, CHR ''='', CHR ''=''])"
| "base64_encode [a, b] =
     (let n = 4 * (256 * of_char a + of_char b)
      in [b64_char (n div 4096), b64_char (n div 64), b64_char n, CHR ''=''])"
| "base64_encode (a # b # c # r) =
     (let n = 65536 * of_char a + 256 * of_char b + of_char c
      in b64_char (n div 262144) # b64_char (n div 4096) # b64_char (n div 64) # b64_char n
           # base64_encode r)"

lemma base64_encode_length: "length (base64_encode s) = 4 * ((length s + 2) div 3)"
proof (induction s rule: base64_encode.induct)
  case (4 a b c r)
  have "(length (a # b # c # r) + 2) div 3 = Suc ((length r + 2) div 3)" by simp
  with 4 show ?case by (simp add: Let_def)
qed (simp_all add: Let_def)

lemma b64_char_mem: "b64_char n \<in> set b64_alphabet"
proof -
  have "length b64_alphabet = 64" by (simp add: b64_alphabet_def)
  then show ?thesis unfolding b64_char_def by (intro nth_mem) simp
qed

lemma base64_encode_chars: "set (base64_encode s) \<subseteq> insert (CHR ''='') (set b64_alphabet)"
  by (induction s rule: base64_encode.induct) (auto simp: Let_def b64_char_mem)

text \<open>Decoding, and the round trip.\<close>

definition b64_value :: "char \<Rightarrow> nat" where
  "b64_value c = length (takeWhile (\<lambda>d. d \<noteq> c) b64_alphabet)"

fun base64_decode :: "string \<Rightarrow> bytes" where
  "base64_decode (a # b # c # d # r) =
     (let n = ((b64_value a * 64 + b64_value b) * 64 + b64_value c) * 64 + b64_value d
      in if c = CHR ''='' then [char_of (b64_value a * 4 + b64_value b div 16)]
         else if d = CHR ''='' then
           [char_of (b64_value a * 4 + b64_value b div 16),
            char_of (b64_value b mod 16 * 16 + b64_value c div 4)]
         else char_of (n div 65536) # char_of (n div 256 mod 256) # char_of (n mod 256) # base64_decode r)"
| "base64_decode _ = []"

lemma b64_value_char: "b64_value (b64_char n) = n mod 64"
proof -
  have "list_all (\<lambda>i. b64_value (b64_alphabet ! i) = i) [0..<64]" by code_simp
  then have "\<forall>i < 64. b64_value (b64_alphabet ! i) = i" by (simp add: list_all_iff)
  then show ?thesis by (simp add: b64_char_def)
qed

lemma b64_char_pad: "b64_char n \<noteq> CHR ''=''"
proof -
  have "CHR ''='' \<notin> set b64_alphabet" by (simp add: b64_alphabet_def)
  with b64_char_mem [of n] show ?thesis by metis
qed

lemma of_char_256: "(of_char c :: nat) < 256"
  by (rule String.nat_of_char_less_256)

lemma digits_64: "(m div b) mod c * b + m mod b = m mod (b * c)" for m :: nat
  by (simp add: mod_mult2_eq mult.commute)

lemma div_64: "m mod (b * c) div b = m div b mod c" if "0 < b" for m :: nat
  using that by (simp add: mod_mult2_eq)

lemma recompose_64:
  "n < 16777216 \<Longrightarrow> ((n div 262144 mod 64 * 64 + n div 4096 mod 64) * 64 + n div 64 mod 64) * 64 + n mod 64 = (n::nat)"
proof -
  assume n: "n < 16777216"
  have "n div 262144 mod 64 * 64 + n div 4096 mod 64 = n div 4096 mod 4096"
    using digits_64 [of "n div 4096" 64 64] by (simp add: div_mult2_eq [symmetric])
  moreover have "n div 4096 mod 4096 * 64 + n div 64 mod 64 = n div 64 mod 262144"
    using digits_64 [of "n div 64" 64 4096] by (simp add: div_mult2_eq [symmetric])
  moreover have "n div 64 mod 262144 * 64 + n mod 64 = n mod 16777216"
    using digits_64 [of n 64 262144] by simp
  ultimately show ?thesis using n by simp
qed

lemma decode_one: "x < 256 \<Longrightarrow> 16 * x div 64 mod 64 * 4 + 16 * x mod 64 div 16 = (x::nat)"
proof -
  assume x: "x < 256"
  have "16 * x div 64 = x div 4" by (simp add: div_mult2_eq [of _ 16 4, symmetric])
  moreover have "16 * x mod 64 = 16 * (x mod 4)" using mult_mod_right [of 16 x 4] by simp
  moreover have "x div 4 mod 64 = x div 4" using x by simp
  ultimately show ?thesis by simp
qed

lemma decode_two:
  assumes "m < 65536"
  shows "4 * m div 4096 mod 64 * 4 + 4 * m div 64 mod 64 div 16 = m div 256"
    and "4 * m div 64 mod 64 mod 16 * 16 + 4 * m mod 64 div 4 = m mod (256::nat)"
proof -
  have d: "4 * m div 4096 = m div 16 div 64" "4 * m div 64 = m div 16"
    by (simp_all add: div_mult2_eq [symmetric])
  have r: "4 * m mod 64 div 4 = m mod 16" using mult_mod_right [of 4 m 16] by simp
  have q: "m div 16 mod 64 div 16 = m div 16 div 16 mod 4" using div_64 [of 16 "m div 16" 4] by simp
  have "m div 16 div 64 mod 64 = m div 16 div 64" using assms by simp
  moreover have "m div 16 div 64 = m div 16 div 16 div 4" by (simp add: div_mult2_eq [symmetric])
  ultimately show "4 * m div 4096 mod 64 * 4 + 4 * m div 64 mod 64 div 16 = m div 256"
    unfolding d q by (simp add: div_mult2_eq [of m 16 16, symmetric])
  have "m div 16 mod 64 mod 16 = m div 16 mod 16" by (simp add: mod_mod_cancel)
  then show "4 * m div 64 mod 64 mod 16 * 16 + 4 * m mod 64 div 4 = m mod 256"
    unfolding d r using digits_64 [of m 16 16] by simp
qed

lemma base64_decode_encode: "base64_decode (base64_encode s) = s"
proof (induction s rule: base64_encode.induct)
  case (2 a)
  define n :: nat where "n = 16 * of_char a"
  have "n div 64 mod 64 * 4 + n mod 64 div 16 = of_char a"
    using decode_one [OF of_char_256 [of a]] by (simp only: n_def)
  then show ?case by (simp add: Let_def b64_value_char b64_char_pad n_def [symmetric])
next
  case (3 a b)
  define m :: nat where "m = 256 * of_char a + of_char b"
  have m: "m < 65536" "m div 256 = of_char a" "m mod 256 = of_char b"
    unfolding m_def using of_char_256 [of a] of_char_256 [of b] by (linarith, simp_all)
  show ?case
    using decode_two [OF m(1)] m(2,3)
    by (simp add: Let_def b64_value_char b64_char_pad m_def [symmetric])
next
  case (4 a b c r)
  define n :: nat where "n = 65536 * of_char a + 256 * of_char b + of_char c"
  note bounds = of_char_256 [of a] of_char_256 [of b] of_char_256 [of c]
  define q :: nat where "q = of_char b + 256 * of_char a"
  have nq: "n = of_char c + 256 * q" by (simp add: n_def q_def)
  have split: "(x + 256 * y) mod 256 = x \<and> (x + 256 * y) div 256 = y" if "x < 256" for x y :: nat
    using that by simp
  have "n mod 256 = of_char c" "n div 256 = q" "q mod 256 = of_char b"
    using split [OF bounds(3), of q] split [OF bounds(2), of "of_char a"] unfolding nq q_def by simp_all
  then have n: "n div 256 mod 256 = of_char b" "n mod 256 = of_char c" by simp_all
  have bc: "char_of (n div 256) = b" "char_of n = c"
    using arg_cong [OF n(1), of "char_of :: nat \<Rightarrow> char"] arg_cong [OF n(2), of "char_of :: nat \<Rightarrow> char"]
    by simp_all
  have big: "n < 16777216" "n div 65536 = of_char a"
    unfolding n_def using bounds by linarith+
  have "((b64_value (b64_char (n div 262144)) * 64 + b64_value (b64_char (n div 4096))) * 64 +
      b64_value (b64_char (n div 64))) * 64 + b64_value (b64_char n) = n"
    by (simp only: b64_value_char recompose_64 [OF big(1)])
  moreover have "char_of (n div 65536) = a" using big(2) by simp
  ultimately show ?case
    using bc 4 by (simp add: Let_def b64_char_pad n_def [symmetric])
qed simp

end
