(* ===== verification/GoText.thy ===== *)
theory GoText
  imports GoBase
begin

text \<open>
  Unicode text as Go's \<open>unicode/utf8\<close> and \<open>unicode/utf16\<close> see it: which bytes form the encoding of
  one character, the encoding of a code point, and the replacement of bytes that encode nothing
  by U+FFFD, which is what \<open>encoding/json\<close> does to strings on the way in and on the way out.
\<close>

section \<open>One character\<close>

text \<open>
  The bytes that may follow a first byte, each as a range; None when no character begins with it.
  The first ranges of E0, ED, F0 and F4 exclude overlong forms, surrogates and code points above
  U+10FFFF.
\<close>

definition utf8_tail :: "nat \<Rightarrow> (nat \<times> nat) list option" where
  "utf8_tail n =
     (let t = (0x80, 0xBF) in
      if n < 0x80 then Some []
      else if n < 0xC2 then None
      else if n < 0xE0 then Some [t]
      else if n = 0xE0 then Some [(0xA0, 0xBF), t]
      else if n = 0xED then Some [(0x80, 0x9F), t]
      else if n < 0xF0 then Some [t, t]
      else if n = 0xF0 then Some [(0x90, 0xBF), t, t]
      else if n < 0xF4 then Some [t, t, t]
      else if n = 0xF4 then Some [(0x80, 0x8F), t, t]
      else None)"

fun in_ranges :: "(nat \<times> nat) list \<Rightarrow> bytes \<Rightarrow> bool" where
  "in_ranges [] s = True"
| "in_ranges (r # rs) [] = False"
| "in_ranges (r # rs) (c # s) = (fst r \<le> of_char c \<and> of_char c \<le> snd r \<and> in_ranges rs s)"

text \<open>How many bytes after \<open>c\<close> belong to the character \<open>c\<close> begins, when it begins one.\<close>

definition rune_rest :: "char \<Rightarrow> bytes \<Rightarrow> nat option" where
  "rune_rest c s =
     (case utf8_tail (of_char c) of
        None \<Rightarrow> None
      | Some rs \<Rightarrow> if in_ranges rs s then Some (length rs) else None)"

lemma rune_rest_le: "rune_rest c s = Some n \<Longrightarrow> n \<le> length s"
proof -
  have "in_ranges rs s \<Longrightarrow> length rs \<le> length s" for rs
    by (induction rs s rule: in_ranges.induct) auto
  then show "rune_rest c s = Some n \<Longrightarrow> n \<le> length s"
    by (auto simp: rune_rest_def split: option.splits if_splits)
qed

lemma in_ranges_take: "in_ranges rs s \<Longrightarrow> in_ranges rs (take (length rs) s @ t)"
  by (induction rs s rule: in_ranges.induct) auto

text \<open>A character is recognised by its own bytes, whatever follows.\<close>

lemma rune_rest_own: "rune_rest c s = Some n \<Longrightarrow> rune_rest c (take n s @ t) = Some n"
  by (auto simp: rune_rest_def in_ranges_take split: option.splits if_splits)

lemma rune_rest_ascii [simp]: "of_char c < (128 :: nat) \<Longrightarrow> rune_rest c s = Some 0"
  by (simp add: rune_rest_def utf8_tail_def)

lemma rune_rest_0_iff: "rune_rest c s = Some 0 \<longleftrightarrow> of_char c < (128 :: nat)"
  by (auto simp: rune_rest_def utf8_tail_def Let_def split: if_splits)

section \<open>Encoding a code point\<close>

definition utf8_encode :: "nat \<Rightarrow> bytes" where
  "utf8_encode u =
     map char_of
       (if u < 0x80 then [u]
        else if u < 0x800 then [0xC0 + u div 64, 0x80 + u mod 64]
        else if u < 0x10000 then [0xE0 + u div 4096, 0x80 + u div 64 mod 64, 0x80 + u mod 64]
        else [0xF0 + u div 262144, 0x80 + u div 4096 mod 64, 0x80 + u div 64 mod 64, 0x80 + u mod 64])"

text \<open>U+FFFD.\<close>

definition replacement :: bytes where
  "replacement = [CHR 0xEF, CHR 0xBF, CHR 0xBD]"

lemma replacement_encode: "utf8_encode 0xFFFD = replacement"
  by (simp add: utf8_encode_def replacement_def char_of_eq_iff)

section \<open>Replacing what is not UTF-8\<close>

function to_valid_utf8 :: "bytes \<Rightarrow> bytes" where
  "to_valid_utf8 [] = []"
| "to_valid_utf8 (c # s) =
     (case rune_rest c s of
        None \<Rightarrow> replacement @ to_valid_utf8 s
      | Some n \<Rightarrow> c # take n s @ to_valid_utf8 (drop n s))"
  by pat_completeness auto
termination by (relation "measure length") auto

function utf8_valid :: "bytes \<Rightarrow> bool" where
  "utf8_valid [] = True"
| "utf8_valid (c # s) =
     (case rune_rest c s of None \<Rightarrow> False | Some n \<Rightarrow> utf8_valid (drop n s))"
  by pat_completeness auto
termination by (relation "measure length") auto

lemma to_valid_utf8_valid: "utf8_valid s \<Longrightarrow> to_valid_utf8 s = s"
  by (induction s rule: utf8_valid.induct) (auto split: option.splits)

definition ascii :: "bytes \<Rightarrow> bool" where
  "ascii s \<longleftrightarrow> list_all (\<lambda>c. of_char c < (128 :: nat)) s"

lemma ascii_valid: "ascii s \<Longrightarrow> utf8_valid s"
  by (induction s) (auto simp: ascii_def rune_rest_ascii)

end
