(* ===== verification/GoJson.thy ===== *)
theory GoJson
  imports GoText "HOL-Library.List_Lexorder" "HOL-Library.Char_ord"
begin

text \<open>
  JSON as Go's \<open>encoding/json\<close> reads and writes it: \<open>Marshal\<close> with its escapes and its sorted keys,
  and \<open>Unmarshal\<close> into maps, with the scanner as a lexer and a parser with an explicit stack of the
  containers that are open, of which there may be ten thousand. Numbers stay in the text they were
  written in; the one thing asked of them is whether they fit a \<open>float64\<close>.
\<close>

section \<open>Values\<close>

text \<open>An object is its list of members as written; a later member of the same name wins.\<close>

datatype json =
    JNull
  | JBool bool
  | JNum string
  | JStr string
  | JArr "json list"
  | JObj "(string \<times> json) list"

section \<open>Writing\<close>

definition hex_digit :: "nat \<Rightarrow> char" where
  "hex_digit n = char_of (if n < 10 then 48 + n else 87 + n)"

definition escape_u :: "nat \<Rightarrow> bytes" where
  "escape_u u =
     CHR 0x5C # CHR ''u'' # map (\<lambda>d. hex_digit (u div d mod 16)) [4096, 256, 16, 1]"

text \<open>
  One ASCII character: quotation mark and backslash, the five control characters with a letter of
  their own, and the other control characters and the three of HTML as \<open>\u00xx\<close>.
\<close>

definition escape_ascii :: "char \<Rightarrow> bytes" where
  "escape_ascii c =
     (let n = of_char c :: nat in
      if c = CHR 0x22 \<or> c = CHR 0x5C then [CHR 0x5C, c]
      else if n = 8 then [CHR 0x5C, CHR ''b'']
      else if n = 12 then [CHR 0x5C, CHR ''f'']
      else if n = 10 then [CHR 0x5C, CHR ''n'']
      else if n = 13 then [CHR 0x5C, CHR ''r'']
      else if n = 9 then [CHR 0x5C, CHR ''t'']
      else if n < 32 \<or> c \<in> {CHR ''<'', CHR ''>'', CHR ''&''} then escape_u n
      else [c])"

text \<open>U+2028 and U+2029 are escaped, and bytes that are not UTF-8 are written as the replacement.\<close>

definition line_separator :: bytes where "line_separator = [CHR 0xE2, CHR 0x80, CHR 0xA8]"
definition paragraph_separator :: bytes where "paragraph_separator = [CHR 0xE2, CHR 0x80, CHR 0xA9]"

definition escape_rune :: "bytes \<Rightarrow> bytes" where
  "escape_rune u =
     (if u = line_separator then escape_u 0x2028
      else if u = paragraph_separator then escape_u 0x2029
      else u)"

function json_escape :: "bytes \<Rightarrow> bytes" where
  "json_escape [] = []"
| "json_escape (c # s) =
     (case rune_rest c s of
        None \<Rightarrow> escape_u 0xFFFD @ json_escape s
      | Some n \<Rightarrow>
          (if n = 0 then escape_ascii c else escape_rune (c # take n s)) @ json_escape (drop n s))"
  by pat_completeness auto
termination by (relation "measure length") auto

definition json_quote :: "bytes \<Rightarrow> bytes" where
  "json_quote s = CHR 0x22 # json_escape s @ [CHR 0x22]"

fun commas :: "bytes list \<Rightarrow> bytes" where
  "commas [] = []"
| "commas [x] = x"
| "commas (x # xs) = x @ CHR '','' # commas xs"

fun json_print :: "json \<Rightarrow> bytes" where
  "json_print JNull = ''null''"
| "json_print (JBool b) = (if b then ''true'' else ''false'')"
| "json_print (JNum n) = n"
| "json_print (JStr s) = json_quote s"
| "json_print (JArr vs) = CHR ''['' # commas (map json_print vs) @ '']''"
| "json_print (JObj ms) =
     CHR ''{'' # commas (map (\<lambda>(k, v). json_quote k @ CHR '':'' # json_print v) ms) @ ''}''"

text \<open>\<open>json.Marshal\<close> of a tree of maps: the members of each are written in the order of their keys.\<close>

fun sort_members :: "json \<Rightarrow> json" where
  "sort_members (JArr vs) = JArr (map sort_members vs)"
| "sort_members (JObj ms) = JObj (sort_key fst (map (\<lambda>(k, v). (k, sort_members v)) ms))"
| "sort_members j = j"

definition json_marshal :: "json \<Rightarrow> bytes" where
  "json_marshal j = json_print (sort_members j)"

section \<open>Reading: strings and numbers\<close>

definition is_digit :: "char \<Rightarrow> bool" where
  "is_digit c \<longleftrightarrow> 48 \<le> (of_char c :: nat) \<and> of_char c \<le> (57 :: nat)"

definition hex_value :: "char \<Rightarrow> nat option" where
  "hex_value c =
     (let n = of_char c :: nat in
      if is_digit c then Some (n - 48)
      else if 97 \<le> n \<and> n \<le> 102 then Some (n - 87)
      else if 65 \<le> n \<and> n \<le> 70 then Some (n - 55)
      else None)"

lemma hex_value_digit: "n < 16 \<Longrightarrow> hex_value (hex_digit n) = Some n"
  by (auto simp: hex_value_def hex_digit_def is_digit_def Let_def)

fun hex4 :: "bytes \<Rightarrow> (nat \<times> bytes) option" where
  "hex4 (a # b # c # d # s) =
     (case (hex_value a, hex_value b, hex_value c, hex_value d) of
        (Some p, Some q, Some x, Some y) \<Rightarrow> Some (p * 4096 + q * 256 + x * 16 + y, s)
      | _ \<Rightarrow> None)"
| "hex4 _ = None"

text \<open>
  The code point a \<open>\u\<close> escape stands for. Half of a surrogate pair has to be followed by the
  escape of the other half; alone it becomes U+FFFD.
\<close>

definition unescape_u :: "bytes \<Rightarrow> (bytes \<times> bytes) option" where
  "unescape_u s =
     (case hex4 s of
        None \<Rightarrow> None
      | Some (u, r) \<Rightarrow>
          if u < 0xD800 \<or> 0xDFFF < u then Some (utf8_encode u, r)
          else if has_prefix r [CHR 0x5C, CHR ''u''] then
            (case hex4 (drop 2 r) of
               None \<Rightarrow> Some (replacement, r)
             | Some (v, r') \<Rightarrow>
                 if u < 0xDC00 \<and> 0xDC00 \<le> v \<and> v \<le> 0xDFFF
                 then Some (utf8_encode ((u - 0xD800) * 1024 + (v - 0xDC00) + 0x10000), r')
                 else Some (replacement, r))
          else Some (replacement, r))"

definition unescape :: "bytes \<Rightarrow> (bytes \<times> bytes) option" where
  "unescape s =
     (case s of
        [] \<Rightarrow> None
      | e # r \<Rightarrow>
          if e \<in> {CHR 0x22, CHR 0x5C, CHR ''/''} then Some ([e], r)
          else if e = CHR ''b'' then Some ([CHR 0x08], r)
          else if e = CHR ''f'' then Some ([CHR 0x0C], r)
          else if e = CHR ''n'' then Some ([CHR 0x0A], r)
          else if e = CHR ''r'' then Some ([CHR 0x0D], r)
          else if e = CHR ''t'' then Some ([CHR 0x09], r)
          else if e = CHR ''u'' then unescape_u r
          else None)"

lemma hex4_shorter: "hex4 s = Some (u, r) \<Longrightarrow> length r < length s"
  by (induction s rule: hex4.induct) (auto split: option.splits)

lemma unescape_u_shorter: "unescape_u s = Some (u, r) \<Longrightarrow> length r < length s"
  by (auto simp: unescape_u_def has_prefix_iff split: option.splits if_splits
      dest!: hex4_shorter)

lemma unescape_shorter: "unescape s = Some (u, r) \<Longrightarrow> length r < length s"
  by (auto simp: unescape_def split: list.splits if_splits dest: unescape_u_shorter)

definition prepend :: "bytes \<Rightarrow> (bytes \<times> bytes) option \<Rightarrow> (bytes \<times> bytes) option" where
  "prepend u = map_option (\<lambda>(s, r). (u @ s, r))"

text \<open>The text after an opening quotation mark: the string, and the text after the closing one.\<close>

function lex_string :: "bytes \<Rightarrow> (bytes \<times> bytes) option" where
  "lex_string [] = None"
| "lex_string (c # s) =
     (if c = CHR 0x22 then Some ([], s)
      else if c = CHR 0x5C then
        (case unescape s of None \<Rightarrow> None | Some (u, r) \<Rightarrow> prepend u (lex_string r))
      else if of_char c < (32 :: nat) then None
      else case rune_rest c s of
             None \<Rightarrow> prepend replacement (lex_string s)
           | Some n \<Rightarrow> prepend (c # take n s) (lex_string (drop n s)))"
  by pat_completeness auto
termination by (relation "measure length") (auto dest: unescape_shorter)

lemma lex_string_shorter: "lex_string s = Some (t, r) \<Longrightarrow> length r < length s"
proof (induction s arbitrary: t r rule: lex_string.induct)
  case (2 c s)
  have esc: "length r < Suc (length s)"
    if "unescape s = Some (u, r')" "lex_string r' = Some (t', r)" "c \<noteq> CHR 0x22" "c = CHR 0x5C" for u r' t'
    using "2.IH"(1) [OF that(3,4,1) refl that(2)] unescape_shorter [OF that(1)] by simp
  show ?case
    using "2.prems" "2.IH"(2,3) esc
    by (auto simp: prepend_def split: if_splits option.splits) (fastforce+)?
qed simp

text \<open>\<open>-?(0|[1-9][0-9]*)(\.[0-9]+)?([eE][+-]?[0-9]+)?\<close>: the parts, and the text after them.\<close>

definition lex_digits :: "bytes \<Rightarrow> (bytes \<times> bytes) option" where
  "lex_digits s =
     (let d = takeWhile is_digit s in if d = [] then None else Some (d, drop (length d) s))"

definition lex_int :: "bytes \<Rightarrow> (bytes \<times> bytes) option" where
  "lex_int s =
     (let m = (if has_prefix s ''-'' then ''-'' else []);
          r = drop (length m) s
      in if has_prefix r ''0'' then Some (m @ ''0'', drop 1 r)
         else prepend m (lex_digits r))"

definition lex_frac :: "bytes \<Rightarrow> (bytes \<times> bytes) option" where
  "lex_frac s = (if has_prefix s ''.'' then prepend ''.'' (lex_digits (drop 1 s)) else Some ([], s))"

definition lex_exp :: "bytes \<Rightarrow> (bytes \<times> bytes) option" where
  "lex_exp s =
     (case s of
        [] \<Rightarrow> Some ([], s)
      | c # r \<Rightarrow>
          if c \<in> {CHR ''e'', CHR ''E''} then
            (let sgn = take 1 (takeWhile (\<lambda>c. c \<in> {CHR ''+'', CHR ''-''}) r)
             in prepend (c # sgn) (lex_digits (drop (length sgn) r)))
          else Some ([], s))"

definition lex_number :: "bytes \<Rightarrow> (bytes \<times> bytes) option" where
  "lex_number s =
     (case lex_int s of
        None \<Rightarrow> None
      | Some (i, r) \<Rightarrow>
          (case lex_frac r of
             None \<Rightarrow> None
           | Some (f, r') \<Rightarrow> prepend i (prepend f (lex_exp r'))))"

lemma prepend_Some: "prepend u x = Some (t, r) \<longleftrightarrow> (\<exists>t'. x = Some (t', r) \<and> t = u @ t')"
  by (auto simp: prepend_def)

lemma lex_digits_shorter: "lex_digits s = Some (t, r) \<Longrightarrow> length r < length s"
  by (cases s) (auto simp: lex_digits_def Let_def split: if_splits)

lemma lex_int_shorter: "lex_int s = Some (t, r) \<Longrightarrow> length r < length s"
  by (auto simp: lex_int_def Let_def prepend_Some has_prefix_iff split: if_splits dest!: lex_digits_shorter)

lemma lex_frac_le: "lex_frac s = Some (t, r) \<Longrightarrow> length r \<le> length s"
  by (auto simp: lex_frac_def prepend_Some split: if_splits dest!: lex_digits_shorter)

lemma lex_exp_le: "lex_exp s = Some (t, r) \<Longrightarrow> length r \<le> length s"
  by (auto simp: lex_exp_def Let_def prepend_Some split: list.splits if_splits dest!: lex_digits_shorter)

lemma lex_number_shorter: "lex_number s = Some (t, r) \<Longrightarrow> length r < length s"
  by (fastforce simp: lex_number_def prepend_Some split: option.splits
      dest: lex_int_shorter lex_frac_le lex_exp_le)

section \<open>Reading: tokens and values\<close>

text \<open>A literal is a token of its own, so is every value that is not a container.\<close>

datatype json_token =
    BeginObj | EndObj | BeginArr | EndArr | Colon | Comma
  | Atom json

definition lex_word :: "string \<Rightarrow> json \<Rightarrow> bytes \<Rightarrow> (json_token \<times> bytes) option" where
  "lex_word w j s = (if has_prefix s w then Some (Atom j, drop (length w) s) else None)"

definition lex_token :: "bytes \<Rightarrow> (json_token \<times> bytes) option" where
  "lex_token s =
     (case s of
        [] \<Rightarrow> None
      | c # r \<Rightarrow>
          if c = CHR ''{'' then Some (BeginObj, r)
          else if c = CHR ''}'' then Some (EndObj, r)
          else if c = CHR ''['' then Some (BeginArr, r)
          else if c = CHR '']'' then Some (EndArr, r)
          else if c = CHR '':'' then Some (Colon, r)
          else if c = CHR '','' then Some (Comma, r)
          else if c = CHR 0x22 then map_option (\<lambda>(t, r). (Atom (JStr t), r)) (lex_string r)
          else if c = CHR ''t'' then lex_word ''true'' (JBool True) s
          else if c = CHR ''f'' then lex_word ''false'' (JBool False) s
          else if c = CHR ''n'' then lex_word ''null'' JNull s
          else map_option (\<lambda>(t, r). (Atom (JNum t), r)) (lex_number s))"

lemma lex_token_shorter: "lex_token s = Some (t, r) \<Longrightarrow> length r < length s"
  by (auto simp: lex_token_def lex_word_def split: list.splits if_splits
      dest: lex_string_shorter lex_number_shorter)

definition json_space :: "char \<Rightarrow> bool" where
  "json_space c \<longleftrightarrow> c \<in> {CHR 0x20, CHR 0x09, CHR 0x0D, CHR 0x0A}"

function json_lex :: "bytes \<Rightarrow> json_token list option" where
  "json_lex [] = Some []"
| "json_lex (c # s) =
     (if json_space c then json_lex s
      else case lex_token (c # s) of
             None \<Rightarrow> None
           | Some (t, r) \<Rightarrow> map_option (Cons t) (json_lex r))"
  by pat_completeness auto
termination by (relation "measure length") (auto dest: lex_token_shorter)

declare json_lex.simps(2) [simp del]

text \<open>
  An open container: the items read so far, or the members read so far and the key whose value is
  read, the last one first. The mode says what may come next: a value; after an opening bracket or
  brace, the first item or key or the end; a key; a colon; or, when a value is complete, what may
  follow it.
\<close>

datatype json_frame =
    InArr "json list"
  | InObj "(string \<times> json) list" string

datatype json_mode =
    Value
  | FirstItem
  | FirstKey
  | NextKey "(string \<times> json) list"
  | AfterKey "(string \<times> json) list" string
  | Complete json

definition maxNestingDepth :: nat where "maxNestingDepth = 10000"

definition begin_value :: "json_frame list \<Rightarrow> json_token \<Rightarrow> (json_mode \<times> json_frame list) option" where
  "begin_value st t =
     (case t of
        Atom v \<Rightarrow> Some (Complete v, st)
      | BeginArr \<Rightarrow> if length st < maxNestingDepth then Some (FirstItem, st) else None
      | BeginObj \<Rightarrow> if length st < maxNestingDepth then Some (FirstKey, st) else None
      | _ \<Rightarrow> None)"

definition read_key ::
    "(string \<times> json) list \<Rightarrow> json_frame list \<Rightarrow> json_token \<Rightarrow> (json_mode \<times> json_frame list) option" where
  "read_key ms st t = (case t of Atom (JStr k) \<Rightarrow> Some (AfterKey ms k, st) | _ \<Rightarrow> None)"

definition after_value ::
    "json \<Rightarrow> json_frame list \<Rightarrow> json_token \<Rightarrow> (json_mode \<times> json_frame list) option" where
  "after_value v st t =
     (case st of
        [] \<Rightarrow> None
      | InArr vs # st' \<Rightarrow>
          (if t = Comma then Some (Value, InArr (v # vs) # st')
           else if t = EndArr then Some (Complete (JArr (rev (v # vs))), st')
           else None)
      | InObj ms k # st' \<Rightarrow>
          (if t = Comma then Some (NextKey ((k, v) # ms), st')
           else if t = EndObj then Some (Complete (JObj (rev ((k, v) # ms))), st')
           else None))"

primrec json_step ::
    "json_mode \<Rightarrow> json_frame list \<Rightarrow> json_token \<Rightarrow> (json_mode \<times> json_frame list) option" where
  "json_step Value st t = begin_value st t"
| "json_step FirstItem st t =
     (if t = EndArr then Some (Complete (JArr []), st) else begin_value (InArr [] # st) t)"
| "json_step FirstKey st t =
     (if t = EndObj then Some (Complete (JObj []), st) else read_key [] st t)"
| "json_step (NextKey ms) st t = read_key ms st t"
| "json_step (AfterKey ms k) st t = (if t = Colon then Some (Value, InObj ms k # st) else None)"
| "json_step (Complete v) st t = after_value v st t"

fun json_run :: "json_mode \<Rightarrow> json_frame list \<Rightarrow> json_token list \<Rightarrow> json option" where
  "json_run m st [] = (case (m, st) of (Complete v, []) \<Rightarrow> Some v | _ \<Rightarrow> None)"
| "json_run m st (t # ts) =
     (case json_step m st t of None \<Rightarrow> None | Some (m', st') \<Rightarrow> json_run m' st' ts)"

definition json_parse :: "bytes \<Rightarrow> json option" where
  "json_parse s = (case json_lex s of None \<Rightarrow> None | Some ts \<Rightarrow> json_run Value [] ts)"

section \<open>Unmarshal\<close>

text \<open>
  A number is read as a \<open>float64\<close>. The text \<open>-?i.fe\<close> stands for the digits of \<open>i\<close> and \<open>f\<close> times a power
  of ten; from half a unit above the largest finite value on, the conversion is out of range.
\<close>

definition digits_value :: "bytes \<Rightarrow> nat" where
  "digits_value ds = foldl (\<lambda>n d. 10 * n + (of_char d - 48)) 0 ds"

definition exponent_value :: "bytes \<Rightarrow> int" where
  "exponent_value e =
     (case e of
        [] \<Rightarrow> 0
      | c # r \<Rightarrow>
          if has_prefix r ''-'' then - int (digits_value (drop 1 r))
          else if has_prefix r ''+'' then int (digits_value (drop 1 r))
          else int (digits_value r))"

definition float_overflows :: "string \<Rightarrow> bool" where
  "float_overflows n =
     (let s = (if has_prefix n ''-'' then drop 1 n else n);
          i = takeWhile is_digit s;
          r = drop (length i) s;
          f = (if has_prefix r ''.'' then takeWhile is_digit (drop 1 r) else []);
          r' = (if has_prefix r ''.'' then drop (Suc (length f)) r else r);
          m = digits_value (i @ f);
          e = exponent_value r' - int (length f);
          limit = 2 ^ 1024 - 2 ^ 970
      in if 0 \<le> e then limit \<le> m * 10 ^ nat e else limit * 10 ^ nat (- e) \<le> m)"

fun json_floats_fit :: "json \<Rightarrow> bool" where
  "json_floats_fit (JNum n) = (\<not> float_overflows n)"
| "json_floats_fit (JArr vs) = list_all json_floats_fit vs"
| "json_floats_fit (JObj ms) = list_all (\<lambda>(k, v). json_floats_fit v) ms"
| "json_floats_fit j = True"

text \<open>\<open>json.Unmarshal\<close> into a \<open>map[string]interface{}\<close>: null leaves the map nil, any other non-object fails.\<close>

definition unmarshal_map :: "json \<Rightarrow> (string \<rightharpoonup> json) option" where
  "unmarshal_map j =
     (case j of
        JObj ms \<Rightarrow> if json_floats_fit j then Some (map_of (rev ms)) else None
      | JNull \<Rightarrow> Some Map.empty
      | _ \<Rightarrow> None)"

text \<open>
  \<open>json.Unmarshal\<close> into a \<open>map[string]string\<close>: each member is a string, or null, which stores
  the empty string; any other member makes the call return an error.
\<close>

fun json_string :: "json \<Rightarrow> string option" where
  "json_string (JStr s) = Some s"
| "json_string JNull = Some []"
| "json_string j = None"

definition unmarshal_string_map :: "json \<Rightarrow> (string \<rightharpoonup> string) option" where
  "unmarshal_string_map j =
     (case j of
        JObj ms \<Rightarrow>
          (if list_all (\<lambda>(k, v). json_string v \<noteq> None) ms
           then Some (map_of (rev (map (\<lambda>(k, v). (k, the (json_string v))) ms)))
           else None)
      | JNull \<Rightarrow> Some Map.empty
      | _ \<Rightarrow> None)"

section \<open>Printing with \<open>%s\<close>\<close>

text \<open>
  The verb \<open>%s\<close> on a decoded value. A map is printed in the order of its keys; a null can only be
  met inside a container here. How a \<open>float64\<close> is printed is the argument.
\<close>

definition spaces :: "string list \<Rightarrow> string" where
  "spaces xs = (case xs of [] \<Rightarrow> [] | y # ys \<Rightarrow> y @ concat (map (Cons (CHR '' '')) ys))"

fun fmt_s :: "(string \<Rightarrow> string) \<Rightarrow> json \<Rightarrow> string" where
  "fmt_s float JNull = ''<nil>''"
| "fmt_s float (JBool b) = ''%!s(bool='' @ (if b then ''true'' else ''false'') @ '')''"
| "fmt_s float (JNum n) = ''%!s(float64='' @ float n @ '')''"
| "fmt_s float (JStr s) = s"
| "fmt_s float (JArr vs) = ''['' @ spaces (map (fmt_s float) vs) @ '']''"
| "fmt_s float (JObj ms) =
     (let texts = map (\<lambda>(k, v). (k, fmt_s float v)) ms
      in ''map['' @ spaces (map (\<lambda>k. k @ '':'' @ the (map_of (rev texts) k)) (sort (remdups (map fst texts)))) @ '']'')"

end
