(* ===== verification/GoPem.thy ===== *)
theory GoPem
  imports GoCrypto GoJson
begin

text \<open>
  PEM blocks and the writer of \<open>encoding/pem\<close>. The reader \<open>pem.Decode\<close> stays an argument of the
  model, as what it makes of text that is not quite PEM is not documented; \<open>plain_block\<close> says of
  which blocks it is documented to read back what the writer wrote, and \<open>strict_decode\<close> is a reader
  that does.
\<close>

text \<open>The headers are a map: an association list without duplicates, in no order.\<close>

record pem_block =
  pb_Type :: string
  pb_Headers :: "(string \<times> string) list"
  pb_Bytes :: bytes

definition pem_nl :: char where "pem_nl = CHR 0x0A"

text \<open>The line breaker: 64 characters to a line, every line ended, the last one too.\<close>

function break_lines :: "string \<Rightarrow> string" where
  "break_lines s = (if s = [] then [] else take 64 s @ [pem_nl] @ break_lines (drop 64 s))"
  by pat_completeness auto
termination by (relation "measure length") auto

declare break_lines.simps [simp del]

definition write_header :: "string \<times> string \<Rightarrow> string" where
  "write_header h = fst h @ '': '' @ snd h @ [pem_nl]"

text \<open>\<open>Proc-Type\<close> comes first, the other headers are sorted, an empty line follows.\<close>

definition write_headers :: "(string \<times> string) list \<Rightarrow> string" where
  "write_headers hs =
     (if hs = [] then []
      else concat (map write_header
             (filter (\<lambda>h. fst h = ''Proc-Type'') hs @
              sort_key fst (filter (\<lambda>h. fst h \<noteq> ''Proc-Type'') hs))) @ [pem_nl])"

definition pem_text :: "pem_block \<Rightarrow> bytes" where
  "pem_text b =
     ''-----BEGIN '' @ pb_Type b @ ''-----'' @ [pem_nl] @
     write_headers (pb_Headers b) @
     break_lines (base64_encode (pb_Bytes b)) @
     ''-----END '' @ pb_Type b @ ''-----'' @ [pem_nl]"

text \<open>\<open>EncodeToMemory\<close>; None is the nil slice.\<close>

definition pem_EncodeToMemory :: "pem_block \<Rightarrow> bytes option" where
  "pem_EncodeToMemory b =
     (if \<exists>h \<in> set (pb_Headers b). CHR '':'' \<in> set (fst h) then None else Some (pem_text b))"

section \<open>Reading back\<close>

definition plain_block :: "pem_block \<Rightarrow> bool" where
  "plain_block b \<longleftrightarrow> pb_Headers b = [] \<and>
     (\<forall>c \<in> set (pb_Type b). 32 \<le> (of_char c :: nat) \<and> (of_char c :: nat) < 127 \<and>
        c \<noteq> CHR ''-'' \<and> c \<noteq> CHR '':'')"

definition strict_decode :: "bytes \<Rightarrow> (pem_block \<times> nat) option" where
  "strict_decode data =
     (if \<not> has_prefix data ''-----BEGIN '' then None
      else
        let r = drop 11 data;
            ty = takeWhile (\<lambda>c. c \<noteq> CHR ''-'') r;
            body = takeWhile (\<lambda>c. c \<noteq> CHR ''-'') (drop (length ty + 6) r);
            b = \<lparr>pb_Type = ty, pb_Headers = [],
                 pb_Bytes = base64_decode (filter (\<lambda>c. c \<noteq> pem_nl) body)\<rparr>
        in if has_prefix data (pem_text b) then Some (b, length (pem_text b) - 1) else None)"

lemma break_lines_step:
  "break_lines [] = []"
  "s \<noteq> [] \<Longrightarrow> break_lines s = take 64 s @ [pem_nl] @ break_lines (drop 64 s)"
  by (simp_all add: break_lines.simps [of "[]"] break_lines.simps [of s])

lemma set_break_lines: "set (break_lines s) \<subseteq> insert pem_nl (set s)"
proof (induction s rule: break_lines.induct)
  case (1 s)
  show ?case
  proof (cases "s = []")
    case False
    from 1 [OF False] show ?thesis
      unfolding break_lines_step(2) [OF False] using set_take_subset [of 64 s] set_drop_subset [of 64 s] by auto
  qed (simp add: break_lines_step)
qed

lemma unbreak_lines: "pem_nl \<notin> set s \<Longrightarrow> filter (\<lambda>c. c \<noteq> pem_nl) (break_lines s) = s"
proof (induction s rule: break_lines.induct)
  case (1 s)
  show ?case
  proof (cases "s = []")
    case False
    have "pem_nl \<notin> set (drop 64 s)" "filter (\<lambda>c. c \<noteq> pem_nl) (take 64 s) = take 64 s"
      using "1.prems" by (auto simp: filter_id_conv dest: in_set_dropD in_set_takeD)
    with 1(1) [OF False] show ?thesis unfolding break_lines_step(2) [OF False] by simp
  qed (simp add: break_lines_step)
qed

lemma takeWhile_then: "\<forall>x \<in> set xs. P x \<Longrightarrow> \<not> P y \<Longrightarrow> takeWhile P (xs @ y # ys) = xs"
  by (induction xs) auto

lemma encoded_chars: "c \<in> set (base64_encode s) \<Longrightarrow> c \<noteq> CHR ''-'' \<and> c \<noteq> pem_nl"
  using base64_encode_chars [of s] by (auto simp: b64_alphabet_def pem_nl_def)

lemma body_chars: "c \<in> set (break_lines (base64_encode s)) \<Longrightarrow> c \<noteq> CHR ''-''"
  using set_break_lines encoded_chars by (fastforce simp: pem_nl_def)

lemma strict_decode_text:
  assumes "plain_block b"
  shows "strict_decode (pem_text b @ rest) = Some (b, length (pem_text b) - 1)"
proof -
  have h: "pb_Headers b = []" and ty: "\<forall>c \<in> set (pb_Type b). c \<noteq> CHR ''-''"
    using assms by (auto simp: plain_block_def)
  define body where "body = break_lines (base64_encode (pb_Bytes b))"
  define ending where "ending = ''----END '' @ pb_Type b @ ''-----'' @ [pem_nl] @ rest"
  have full: "pem_text b @ rest =
      ''-----BEGIN '' @ pb_Type b @ CHR ''-'' # ''----'' @ [pem_nl] @ body @ CHR ''-'' # ending"
    by (simp add: pem_text_def h write_headers_def body_def ending_def)
  have bytes: "base64_decode (filter (\<lambda>c. c \<noteq> pem_nl) body) = pb_Bytes b"
    unfolding body_def using encoded_chars
    by (subst unbreak_lines) (blast, rule base64_decode_encode)
  have "takeWhile (\<lambda>c. c \<noteq> CHR ''-'') (pb_Type b @ CHR ''-'' # ''----'' @ [pem_nl] @ body @ CHR ''-'' # ending) = pb_Type b"
    using ty by (intro takeWhile_then) auto
  moreover have "takeWhile (\<lambda>c. c \<noteq> CHR ''-'') (body @ CHR ''-'' # ending) = body"
    using body_chars by (intro takeWhile_then) (auto simp: body_def)
  moreover have "b = \<lparr>pb_Type = pb_Type b, pb_Headers = [], pb_Bytes = pb_Bytes b\<rparr>"
    using h by (cases b) simp
  moreover have "has_prefix (pem_text b @ rest) (pem_text b)" by simp
  note this [unfolded full]
  ultimately show ?thesis
    unfolding full by (simp add: strict_decode_def Let_def bytes)
qed

text \<open>The text is ASCII, so it survives the way through a JSON string.\<close>

lemma encoded_ascii: "c \<in> set (base64_encode s) \<Longrightarrow> of_char c < (128 :: nat)"
  using base64_encode_chars [of s] by (auto simp: b64_alphabet_def)

lemma ascii_append [simp]: "ascii (s @ t) \<longleftrightarrow> ascii s \<and> ascii t"
  by (simp add: ascii_def)

lemma pem_text_ascii:
  assumes "plain_block b"
  shows "ascii (pem_text b)"
proof -
  have "of_char c < (128 :: nat)" if "c \<in> set (break_lines (base64_encode (pb_Bytes b)))" for c
    using that set_break_lines [of "base64_encode (pb_Bytes b)"] encoded_ascii by (auto simp: pem_nl_def)
  then have body: "ascii (break_lines (base64_encode (pb_Bytes b)))" by (simp add: ascii_def list_all_iff)
  have "of_char c < (128 :: nat)" if "c \<in> set (pb_Type b)" for c
    using assms that by (fastforce simp: plain_block_def)
  then have ty: "ascii (pb_Type b)" by (simp add: ascii_def list_all_iff)
  have lines: "ascii ''-----BEGIN ''" "ascii ''-----END ''" "ascii ''-----''" "ascii [pem_nl]"
    by (simp_all add: ascii_def pem_nl_def)
  from assms have "write_headers (pb_Headers b) = []" by (simp add: plain_block_def write_headers_def)
  with body ty lines show ?thesis unfolding pem_text_def by (simp only: ascii_append append_Nil simp_thms)
qed

end
