(* ===== verification/GoUrl.thy ===== *)
theory GoUrl
  imports GoJson
begin

text \<open>
  \<open>url.Parse\<close> of \<open>net/url\<close>, as far as the program reads its result: the error, or the field \<open>Path\<close>.
  Whether the authority (user, host and port) is acceptable differs between releases of Go, so
  that check is an argument, and so is \<open>strconv.Quote\<close>, which the error texts use.
\<close>

text \<open>\<open>strings.Cut\<close> at a character.\<close>

definition before :: "char \<Rightarrow> string \<Rightarrow> string" where
  "before c s = takeWhile (\<lambda>d. d \<noteq> c) s"

definition after :: "char \<Rightarrow> string \<Rightarrow> string" where
  "after c s = drop 1 (dropWhile (\<lambda>d. d \<noteq> c) s)"

text \<open>Percent decoding of a path or a fragment; Inl is the text of an escape that is none.\<close>

fun unescape_path :: "string \<Rightarrow> string + string" where
  "unescape_path [] = Inr []"
| "unescape_path (c # s) =
     (if c \<noteq> CHR ''%'' then map_sum id (Cons c) (unescape_path s)
      else
        case s of
          a # b # r \<Rightarrow>
            (case (hex_value a, hex_value b) of
               (Some m, Some n) \<Rightarrow> map_sum id (Cons (char_of (16 * m + n))) (unescape_path r)
             | _ \<Rightarrow> Inl (take 3 (c # s)))
        | _ \<Rightarrow> Inl (take 3 (c # s)))"

definition is_scheme_char :: "char \<Rightarrow> bool" where
  "is_scheme_char c \<longleftrightarrow>
     (let n = of_char c :: nat
      in (65 \<le> n \<and> n \<le> 90) \<or> (97 \<le> n \<and> n \<le> 122) \<or> is_digit c \<or> c \<in> {CHR ''+'', CHR ''-'', CHR ''.''})"

definition is_letter :: "char \<Rightarrow> bool" where
  "is_letter c \<longleftrightarrow> (let n = of_char c :: nat in (65 \<le> n \<and> n \<le> 90) \<or> (97 \<le> n \<and> n \<le> 122))"

definition get_scheme :: "string \<Rightarrow> go_error + string \<times> string" where
  "get_scheme u =
     (let p = takeWhile is_scheme_char u; r = drop (length p) u
      in if \<not> has_prefix r '':'' then Inr ([], u)
         else if p = [] then Inl (ErrText ''missing protocol scheme'')
         else if is_letter (hd p) then Inr (p, drop 1 r)
         else Inr ([], u))"

definition escape_error :: "(string \<Rightarrow> string) \<Rightarrow> string \<Rightarrow> go_error" where
  "escape_error quote s = ErrText (''invalid URL escape '' @ quote s)"

text \<open>The part of the URL before the fragment.\<close>

definition url_parse_main :: "(string \<Rightarrow> go_error option) \<Rightarrow> (string \<Rightarrow> string) \<Rightarrow> string \<Rightarrow> go_error + string" where
  "url_parse_main authority quote u =
     (if \<exists>c \<in> set u. (of_char c :: nat) < 32 \<or> c = CHR 0x7F
      then Inl (ErrText ''net/url: invalid control character in URL'')
      else if u = ''*'' then Inr ''*''
      else
        case get_scheme u of
          Inl err \<Rightarrow> Inl err
        | Inr (scheme, r) \<Rightarrow>
            (let rest = before (CHR ''?'') r in
             if \<not> has_prefix rest ''/'' \<and> scheme \<noteq> [] then Inr []
             else if \<not> has_prefix rest ''/'' \<and> CHR '':'' \<in> set (before (CHR ''/'') rest)
             then Inl (ErrText ''first path segment in URL cannot contain colon'')
             else
               let slashes = has_prefix rest ''//'' \<and> (scheme \<noteq> [] \<or> \<not> has_prefix rest ''///'');
                   host = before (CHR ''/'') (drop 2 rest);
                   path = (if slashes then drop (length host) (drop 2 rest) else rest)
               in case (if slashes then authority host else None) of
                    Some err \<Rightarrow> Inl err
                  | None \<Rightarrow>
                      (case unescape_path path of
                         Inl s \<Rightarrow> Inl (escape_error quote s)
                       | Inr p \<Rightarrow> Inr p)))"

definition url_error :: "(string \<Rightarrow> string) \<Rightarrow> string \<Rightarrow> go_error \<Rightarrow> go_error" where
  "url_error quote u err = ErrWrap err (''parse '' @ quote u @ '': '' @ err_text err)"

definition url_parse :: "(string \<Rightarrow> go_error option) \<Rightarrow> (string \<Rightarrow> string) \<Rightarrow> string \<Rightarrow> go_error + string" where
  "url_parse authority quote rawURL =
     (let u = before (CHR ''#'') rawURL in
      case url_parse_main authority quote u of
        Inl err \<Rightarrow> Inl (url_error quote u err)
      | Inr path \<Rightarrow>
          (case unescape_path (after (CHR ''#'') rawURL) of
             Inl s \<Rightarrow> Inl (url_error quote rawURL (escape_error quote s))
           | Inr f \<Rightarrow> Inr path))"

section \<open>Writing a path\<close>

text \<open>The characters of a path that need no escape; every other byte is written in hexadecimal.\<close>

definition plain_path_char :: "char \<Rightarrow> bool" where
  "plain_path_char c \<longleftrightarrow> is_letter c \<or> is_digit c \<or> c \<in> set ''-_.~/''"

definition escape_path :: "string \<Rightarrow> string" where
  "escape_path s = concat (map (\<lambda>c. if plain_path_char c then [c]
     else [CHR ''%'', hex_digit (of_char c div 16), hex_digit (of_char c mod 16)]) s)"

section \<open>Lemmas\<close>

lemma byte_hex: "(of_char c :: nat) div 16 < 16" "(of_char c :: nat) mod 16 < 16"
  using String.nat_of_char_less_256 [of c] by (auto intro: less_mult_imp_div_less)

lemma unescape_escape: "unescape_path (escape_path s) = Inr s"
proof (induction s)
  case Nil
  then show ?case by (simp add: escape_path_def)
next
  case (Cons c s)
  have IH: "unescape_path (concat (map (\<lambda>c. if plain_path_char c then [c]
     else [CHR ''%'', hex_digit (of_char c div 16), hex_digit (of_char c mod 16)]) s)) = Inr s"
    using Cons by (simp add: escape_path_def)
  show ?case
  proof (cases "plain_path_char c")
    case True
    then have "c \<noteq> CHR ''%''" by (auto simp: plain_path_char_def is_letter_def is_digit_def)
    with True IH show ?thesis by (simp add: escape_path_def)
  next
    case False
    have "hex_value (hex_digit (of_char c div 16)) = Some (of_char c div 16)"
      "hex_value (hex_digit (of_char c mod 16)) = Some (of_char c mod 16)"
      by (simp_all only: hex_value_digit byte_hex)
    with False IH show ?thesis by (simp add: escape_path_def)
  qed
qed

lemma hex_digit_plain: "n < 16 \<Longrightarrow> hex_digit n \<in> set ''0123456789abcdef''"
proof -
  have "list_all (\<lambda>n. hex_digit n \<in> set ''0123456789abcdef'') [0..<16]" by code_simp
  then show "n < 16 \<Longrightarrow> hex_digit n \<in> set ''0123456789abcdef''" by (simp add: list_all_iff)
qed

definition url_char :: "char \<Rightarrow> bool" where
  "url_char c \<longleftrightarrow> 32 \<le> (of_char c :: nat) \<and> c \<noteq> CHR 0x7F \<and> c \<noteq> CHR ''#''"

lemma escape_path_chars: "c \<in> set (escape_path s) \<Longrightarrow> url_char c \<and> c \<noteq> CHR ''?''"
proof -
  have hex: "url_char d \<and> d \<noteq> CHR ''?''" if "d \<in> set ''0123456789abcdef''" for d
    using that by (auto simp: url_char_def)
  have plain: "url_char d \<and> d \<noteq> CHR ''?''" if "plain_path_char d" for d
    using that by (auto simp: plain_path_char_def is_letter_def is_digit_def url_char_def Let_def)
  assume "c \<in> set (escape_path s)"
  then obtain d where "c = d \<and> plain_path_char d \<or> c = CHR ''%'' \<or>
      c = hex_digit (of_char d div 16) \<or> c = hex_digit (of_char d mod 16)"
    by (auto simp: escape_path_def split: if_splits)
  then show ?thesis
    using hex [OF hex_digit_plain [OF byte_hex(1)]] hex [OF hex_digit_plain [OF byte_hex(2)]] plain
    by (elim disjE) (auto simp: url_char_def)
qed

lemma before_append: "c \<notin> set s \<Longrightarrow> before c (s @ t) = s @ before c t"
  unfolding before_def by (intro takeWhile_append2) auto

lemma before_same [simp]: "before c (c # t) = []"
  by (simp add: before_def)

lemma before_all: "c \<notin> set s \<Longrightarrow> before c s = s"
  using before_append [of c s "[]"] by (simp add: before_def)

lemma after_none: "c \<notin> set s \<Longrightarrow> after c s = []"
  unfolding after_def by (subst dropWhile_eq_Nil_conv [THEN iffD2]) auto

definition web_scheme :: "string \<Rightarrow> bool" where
  "web_scheme s \<longleftrightarrow> s = ''http'' \<or> s = ''https''"

lemma get_scheme_web: "web_scheme s \<Longrightarrow> get_scheme (s @ CHR '':'' # r) = Inr (s, r)"
  by (auto simp: web_scheme_def get_scheme_def is_scheme_char_def is_letter_def is_digit_def)

definition url_query :: "string \<Rightarrow> bool" where
  "url_query q \<longleftrightarrow> (\<forall>c \<in> set q. url_char c) \<and> (q = [] \<or> hd q = CHR ''?'')"

lemma before_query: "url_query q \<Longrightarrow> before (CHR ''?'') q = []"
  by (cases q) (auto simp: url_query_def before_def)

text \<open>The path of a web URL, with whatever query: the bytes its escaped text stands for.\<close>

lemma url_parse_web:
  assumes "web_scheme scheme" and host: "\<forall>c \<in> set host. url_char c \<and> c \<noteq> CHR ''/'' \<and> c \<noteq> CHR ''?''"
    and "url_query q" and "authority host = None"
  shows "url_parse authority quote (scheme @ ''://'' @ host @ CHR ''/'' # escape_path p @ q) = Inr (CHR ''/'' # p)"
proof -
  define path where "path = CHR ''/'' # escape_path p"
  define u where "u = scheme @ CHR '':'' # ''//'' @ host @ path @ q"
  have path: "unescape_path path = Inr (CHR ''/'' # p)" by (simp add: path_def unescape_escape)
  have path_chars: "\<forall>c \<in> set path. url_char c \<and> c \<noteq> CHR ''?''"
    using escape_path_chars by (auto simp: path_def url_char_def)
  have "\<forall>c \<in> set scheme. url_char c" using assms(1) by (auto simp: web_scheme_def url_char_def)
  moreover have "\<forall>c \<in> set ''://''. url_char c" by (simp add: url_char_def)
  ultimately have chars: "\<forall>c \<in> set u. url_char c"
    using host path_chars assms(3) by (auto simp: u_def url_query_def)
  then have noctl: "\<not> (\<exists>c \<in> set u. (of_char c :: nat) < 32 \<or> c = CHR 0x7F)" and frag: "CHR ''#'' \<notin> set u"
    by (force simp: url_char_def)+
  have "CHR ''?'' \<notin> set (''//'' @ host @ path)" using host path_chars by auto
  from before_append [OF this] have rest: "before (CHR ''?'') (''//'' @ host @ path @ q) = ''//'' @ host @ path"
    by (simp add: before_query [OF assms(3)])
  have hostpart: "before (CHR ''/'') (host @ path) = host"
    using host by (subst before_append) (auto simp: path_def)
  have "u \<noteq> ''*''" using assms(1) by (auto simp: u_def web_scheme_def)
  moreover have "get_scheme u = Inr (scheme, ''//'' @ host @ path @ q)"
    unfolding u_def by (rule get_scheme_web [OF assms(1)])
  moreover have "scheme \<noteq> []" using assms(1) by (auto simp: web_scheme_def)
  ultimately have "url_parse_main authority quote u = Inr (CHR ''/'' # p)"
    unfolding url_parse_main_def using noctl rest hostpart path assms(4) by (simp add: Let_def)
  moreover have "before (CHR ''#'') u = u" "after (CHR ''#'') u = []"
    using frag by (simp_all add: before_all after_none)
  ultimately have "url_parse authority quote u = Inr (CHR ''/'' # p)"
    by (simp add: url_parse_def Let_def)
  then show ?thesis by (simp add: u_def path_def)
qed

end
