(* ===== verification/GoLib.thy ===== *)
theory GoLib
  imports GoPem GoUrl
begin

text \<open>
  What the signer uses of \<open>net/http\<close>, \<open>net/url\<close>, \<open>text/template\<close>, \<open>encoding/pem\<close>, \<open>crypto/x509\<close>
  and \<open>regexp\<close>.

  The data these packages work on are modelled here (requests, responses, parsed
  certificate requests), and so is the one regular expression of the program with Go's rules for
  the replacement text. JSON is read and written by \<open>GoJson\<close>; the other parsers are the fields
  of \<open>golib\<close>, an argument of the definitions that call them; nothing is assumed of them unless
  a theorem says so.
\<close>

section \<open>HTTP\<close>

record http_request =
  rq_Method :: string
  rq_URL :: string
  rq_Header :: "(string \<times> string) list"
  rq_Body :: bytes

text \<open>\<open>rs_BodyErr\<close> is the error \<open>io.ReadAll\<close> meets after the bytes of \<open>rs_Body\<close>, if any.\<close>

record http_response =
  rs_StatusCode :: int
  rs_Header :: "(string \<times> string) list"
  rs_Body :: bytes
  rs_BodyErr :: "go_error option"

definition header_get :: "(string \<times> string) list \<Rightarrow> string \<Rightarrow> string" where
  "header_get h k = (case map_of h k of None \<Rightarrow> [] | Some v \<Rightarrow> v)"

definition StatusOK :: int where "StatusOK = 200"
definition StatusAccepted :: int where "StatusAccepted = 202"
definition StatusSeeOther :: int where "StatusSeeOther = 303"

section \<open>Certificate requests and certificates\<close>

record x509_csr =
  csr_CommonName :: string
  csr_Country :: "string list"
  csr_Locality :: "string list"
  csr_Organization :: "string list"
  csr_OrganizationalUnit :: "string list"
  csr_Province :: "string list"
  csr_EmailAddresses :: "string list"

text \<open>A parsed certificate: its raw bytes and the flag \<open>IsCA\<close>.\<close>

record x509_cert =
  xc_Raw :: bytes
  xc_IsCA :: bool

text \<open>The variables a custom-field template is executed with: two maps by name.\<close>

type_synonym template_data = "(string \<times> (string \<times> string) list) list"

text \<open>
  The library functions that stay arguments: the check \<open>url.Parse\<close> makes of
  an authority, \<open>strconv.Quote\<close>,
  the error of \<open>json.Unmarshal\<close> for a text that is not JSON and for a value of the wrong shape,
  the text of a \<open>float64\<close>,
  \<open>template.New(..).Parse\<close> and \<open>Execute\<close>, \<open>pem.Decode\<close>,
  \<open>x509.ParseCertificateRequest\<close>, \<open>x509.ParseCertificate\<close>, \<open>CheckSignatureFrom\<close> and
  \<open>x509.ParsePKCS1PrivateKey\<close> (a key is opaque bytes here).

  \<open>pem.Decode\<close> returns the first block of the input and the rest of the input after it. The
  field gives the block and how many bytes it and the text before it take, less one (a block
  is at least one byte long).
\<close>

record golib =
  lib_url_authority :: "string \<Rightarrow> go_error option"
  lib_quote :: "string \<Rightarrow> string"
  lib_json_syntax_error :: "bytes \<Rightarrow> go_error"
  lib_json_type_error :: "json \<Rightarrow> go_error"
  lib_fmt_float :: "string \<Rightarrow> string"
  lib_tmpl_parse :: "string \<Rightarrow> go_error option"
  lib_tmpl_exec :: "string \<Rightarrow> template_data \<Rightarrow> go_error + string"
  lib_pem_decode :: "bytes \<Rightarrow> (pem_block \<times> nat) option"
  lib_parse_csr :: "bytes \<Rightarrow> go_error + x509_csr"
  lib_parse_cert :: "bytes \<Rightarrow> go_error + x509_cert"
  lib_check_signature_from :: "x509_cert \<Rightarrow> x509_cert \<Rightarrow> go_error option"
  lib_parse_pkcs1 :: "bytes \<Rightarrow> go_error + bytes"

definition url_path :: "golib \<Rightarrow> string \<Rightarrow> go_error + string" where
  "url_path lib = url_parse (lib_url_authority lib) (lib_quote lib)"

text \<open>A web URL: scheme, host, a path escaped in the standard way, and possibly a query.\<close>

definition web_base :: "golib \<Rightarrow> string \<Rightarrow> bool" where
  "web_base lib b \<longleftrightarrow> (\<exists>scheme host. b = scheme @ ''://'' @ host \<and> web_scheme scheme \<and>
     (\<forall>c \<in> set host. url_char c \<and> c \<noteq> CHR ''/'' \<and> c \<noteq> CHR ''?'') \<and> lib_url_authority lib host = None)"

definition web_url :: "golib \<Rightarrow> string \<Rightarrow> string \<Rightarrow> bool" where
  "web_url lib u p \<longleftrightarrow> (\<exists>b q. web_base lib b \<and> url_query q \<and> u = b @ ''/'' @ escape_path p @ q)"

lemma url_path_web:
  assumes "web_url lib u p"
  shows "url_path lib u = Inr (CHR ''/'' # p)"
proof -
  from assms obtain scheme host q where web: "web_scheme scheme"
      "\<forall>c \<in> set host. url_char c \<and> c \<noteq> CHR ''/'' \<and> c \<noteq> CHR ''?''" "url_query q"
      "lib_url_authority lib host = None"
    and u: "u = scheme @ ''://'' @ host @ CHR ''/'' # escape_path p @ q"
    unfolding web_url_def web_base_def by auto
  show ?thesis unfolding url_path_def u using web by (intro url_parse_web)
qed

definition pem_decode :: "golib \<Rightarrow> bytes \<Rightarrow> (pem_block \<times> bytes) option" where
  "pem_decode lib data =
     (if data = [] then None
      else case lib_pem_decode lib data of
             None \<Rightarrow> None
           | Some (block, n) \<Rightarrow> Some (block, drop (Suc n) data))"

text \<open>What \<open>encoding/pem\<close> documents of the two: a block written comes back, with what follows it.\<close>

definition pem_laws :: "golib \<Rightarrow> bool" where
  "pem_laws lib \<longleftrightarrow> (\<forall>b rest. plain_block b \<longrightarrow> pem_decode lib (pem_text b @ rest) = Some (b, rest))"

lemma pem_decode_strict:
  assumes "lib_pem_decode lib = strict_decode" and "plain_block b"
  shows "pem_decode lib (pem_text b @ rest) = Some (b, rest)"
proof -
  have "pem_text b \<noteq> []" by (simp add: pem_text_def)
  then show ?thesis by (simp add: pem_decode_def assms(1) strict_decode_text [OF assms(2)])
qed

lemma pem_laws_strict: "lib_pem_decode lib = strict_decode \<Longrightarrow> pem_laws lib"
  by (simp add: pem_laws_def pem_decode_strict)

lemma pem_decode_shorter: "pem_decode lib data = Some (block, rest) \<Longrightarrow> length rest < length data"
  by (auto simp: pem_decode_def split: if_splits option.splits)

section \<open>The regular expression that strips the host\<close>

text \<open>
  \<open>^http[s]?://.*?/\<close>: the shortest match from the start of the text through the first slash
  after the scheme; \<open>.\<close> does not match a newline. Some: the match and the text after it.
\<close>

definition match_host :: "string \<Rightarrow> (string \<times> string) option" where
  "match_host u =
     (if \<not> has_prefix u ''http'' then None
      else
        let r = drop 4 u;
            scheme = (if has_prefix r ''s'' then ''https'' else ''http'');
            r = drop (length scheme) u
        in if \<not> has_prefix r ''://'' then None
           else
             let r = drop 3 r;
                 host = takeWhile (\<lambda>c. c \<noteq> CHR ''/'' \<and> c \<noteq> CHR 0x0A) r;
                 r = drop (length host) r
             in if has_prefix r ''/'' then Some (scheme @ ''://'' @ host @ ''/'', drop 1 r) else None)"

text \<open>
  \<open>ReplaceAllString\<close> reads \<open>$name\<close>, \<open>${name}\<close> and \<open>$$\<close> in the replacement text. The expression
  has no groups, so \<open>$0\<close> is the match and every other name is empty. Names are the ASCII
  letters, digits and the underscore.
\<close>

definition is_name_char :: "char \<Rightarrow> bool" where
  "is_name_char c \<longleftrightarrow>
     (let n = (of_char c :: nat)
      in (48 \<le> n \<and> n \<le> 57) \<or> (65 \<le> n \<and> n \<le> 90) \<or> (97 \<le> n \<and> n \<le> 122) \<or> n = 95)"

definition extract_ref :: "string \<Rightarrow> (string \<times> string) option" where
  "extract_ref s =
     (let brace = has_prefix s ''{'';
          t = (if brace then drop 1 s else s);
          name = takeWhile is_name_char t;
          rest = drop (length name) t
      in if name = [] then None
         else if brace then (if has_prefix rest ''}'' then Some (name, drop 1 rest) else None)
         else Some (name, rest))"

lemma extract_ref_length: "extract_ref s = Some (name, rest) \<Longrightarrow> length rest \<le> length s"
  by (auto simp: extract_ref_def Let_def split: if_splits)

function expand_repl :: "string \<Rightarrow> string \<Rightarrow> string" where
  "expand_repl m [] = []"
| "expand_repl m (c # s) =
     (if c \<noteq> CHR ''$'' then c # expand_repl m s
      else if has_prefix s ''$'' then CHR ''$'' # expand_repl m (drop 1 s)
      else case extract_ref s of
             None \<Rightarrow> CHR ''$'' # expand_repl m s
           | Some (name, rest) \<Rightarrow> (if name = ''0'' then m else []) @ expand_repl m rest)"
  by pat_completeness auto
termination
  by (relation "measure (\<lambda>(m, s). length s)") (auto dest: extract_ref_length)

definition replace_host :: "string \<Rightarrow> string \<Rightarrow> string" where
  "replace_host base u =
     (case match_host u of
        None \<Rightarrow> u
      | Some (m, rest) \<Rightarrow> expand_repl m (base @ ''/'') @ rest)"

section \<open>Lemmas\<close>

lemma expand_repl_plain: "CHR ''$'' \<notin> set s \<Longrightarrow> expand_repl m s = s"
  by (induction s) auto

lemma extract_ref_last:
  assumes "extract_ref s = Some (name, rest)" and "s \<noteq> []" and "last s = CHR ''/''"
  shows "rest \<noteq> [] \<and> last rest = CHR ''/''"
proof -
  have slash: "\<not> is_name_char (CHR ''/'')" by (simp add: is_name_char_def)
  have *: "drop (length (takeWhile is_name_char t)) t \<noteq> [] \<and>
           last (drop (length (takeWhile is_name_char t)) t) = CHR ''/''"
    if "t \<noteq> []" "last t = CHR ''/''" for t
  proof -
    have "\<not> (\<forall>x \<in> set t. is_name_char x)" using that slash by (metis last_in_set)
    then have "dropWhile is_name_char t \<noteq> []" by simp
    moreover have "last (dropWhile is_name_char t) = last t"
      using calculation by (metis dropWhile_eq_drop last_drop length_greater_0_conv
            linorder_not_less drop_eq_Nil)
    ultimately show ?thesis using that by (simp add: dropWhile_eq_drop)
  qed
  show ?thesis
  proof (cases "has_prefix s ''{''")
    case True
    then obtain t where s: "s = CHR ''{'' # t" by (auto simp: has_prefix_iff)
    with assms(2,3) have "t \<noteq> []" "last t = CHR ''/''" by (auto split: if_splits)
    note t = * [OF this]
    define r where "r = drop (length (takeWhile is_name_char t)) t"
    from assms(1) s have "has_prefix r ''}''" and rest: "rest = drop 1 r"
      by (auto simp: extract_ref_def Let_def r_def split: if_splits)
    then obtain r' where "r = CHR ''}'' # r'" by (auto simp: has_prefix_iff)
    with t rest show ?thesis by (auto simp: r_def [symmetric] split: if_splits)
  next
    case False
    with assms * [OF assms(2,3)] show ?thesis
      by (auto simp: extract_ref_def Let_def split: if_splits)
  qed
qed

lemma expand_repl_slash: "s \<noteq> [] \<Longrightarrow> last s = CHR ''/'' \<Longrightarrow> expand_repl m s \<noteq> []"
proof (induction m s rule: expand_repl.induct)
  case (1 m)
  then show ?case by simp
next
  case (2 m c s)
  show ?case
  proof (cases "extract_ref s")
    case None
    then show ?thesis by simp
  next
    case (Some p)
    obtain name rest where p: "p = (name, rest)" by (cases p)
    show ?thesis
    proof (cases "c \<noteq> CHR ''$'' \<or> has_prefix s ''$''")
      case True
      then show ?thesis by auto
    next
      case False
      with "2.prems" have "s \<noteq> []" "last s = CHR ''/''" by (auto split: if_splits)
      then have "rest \<noteq> [] \<and> last rest = CHR ''/''"
        using extract_ref_last [OF Some [unfolded p]] by simp
      with "2.IH"(4) [OF _ _ Some, of name rest] False Some p show ?thesis by simp
    qed
  qed
qed

lemma replace_host_nonempty: "u \<noteq> [] \<Longrightarrow> replace_host base u \<noteq> []"
  by (auto simp: replace_host_def expand_repl_slash split: option.splits)

lemma replace_host_plain:
  "CHR ''$'' \<notin> set base \<Longrightarrow> match_host u = Some (m, rest) \<Longrightarrow>
     replace_host base u = base @ ''/'' @ rest"
  by (simp add: replace_host_def expand_repl_plain)

lemma match_host_Some: "match_host u = Some (m, rest) \<Longrightarrow> u = m @ rest"
proof -
  assume u: "match_host u = Some (m, rest)"
  have split: "a @ drop (length a) t = t" if "has_prefix t a" for a t :: string
    using that by (metis append_eq_conv_conj has_prefix_iff)
  have tw: "takeWhile P t @ drop (length (takeWhile P t)) t = t" for P and t :: string
    by (metis dropWhile_eq_drop takeWhile_dropWhile_id)
  define scheme where "scheme = (if has_prefix (drop 4 u) ''s'' then ''https'' else ''http'')"
  define r1 where "r1 = drop (length scheme) u"
  define host where "host = takeWhile (\<lambda>c. c \<noteq> CHR ''/'' \<and> c \<noteq> CHR 0x0A) (drop 3 r1)"
  define r2 where "r2 = drop (length host) (drop 3 r1)"
  have parts: "has_prefix u ''http''" "has_prefix r1 ''://''" "has_prefix r2 ''/''"
      "m = scheme @ ''://'' @ host @ ''/''" "rest = drop 1 r2"
    using u unfolding match_host_def Let_def scheme_def [symmetric] r1_def [symmetric]
      host_def [symmetric] r2_def [symmetric]
    by (auto split: if_splits)
  have "has_prefix u scheme"
    using parts(1) by (auto simp: scheme_def has_prefix_iff)
  then have "u = scheme @ r1" using split [of u scheme] by (simp add: r1_def)
  also have "r1 = ''://'' @ drop 3 r1" using split [OF parts(2)] by (simp add: numeral_3_eq_3)
  also have "drop 3 r1 = host @ r2" unfolding host_def r2_def by (rule tw [symmetric])
  also have "r2 = ''/'' @ rest" using split [OF parts(3)] parts(5) by simp
  finally show "u = m @ rest" using parts(4) by simp
qed

lemma match_host_of_url:
  assumes "scheme = ''http'' \<or> scheme = ''https''"
    and "CHR ''/'' \<notin> set host" and "CHR 0x0A \<notin> set host"
  shows "match_host (scheme @ ''://'' @ host @ ''/'' @ path) = Some (scheme @ ''://'' @ host @ ''/'', path)"
proof -
  have *: "takeWhile (\<lambda>c. c \<noteq> CHR ''/'' \<and> c \<noteq> CHR 0x0A) (host @ CHR ''/'' # path) = host"
    using assms(2,3) by (induction host) auto
  from assms(1) show ?thesis by (elim disjE) (simp_all add: match_host_def *)
qed

end
