(* ===== verification/Signer.thy ===== *)
theory Signer
  imports GoLib GoCrypto ApiTypes
begin

text \<open>
  \<open>internal/issuer/signer/signer.go\<close> and \<open>x509util.go\<close>: the client of the remote service. The
  state of the remote service and the network between it and the program is a type \<open>'w\<close> of which
  the model knows nothing; every exchange takes it and returns the next one. The environment
  \<open>'w net\<close> holds the HTTP transport, the OAuth token endpoint of \<open>golang.org/x/oauth2\<close> and the
  clock. Logging is left out.
\<close>

record oauth_request =
  oa_ClientID :: string
  oa_ClientSecret :: string
  oa_TokenURL :: string
  oa_RefreshToken :: string

record 'w net =
  net_do :: "http_request \<Rightarrow> 'w \<Rightarrow> (go_error + http_response) \<times> 'w"
  net_oauth :: "oauth_request \<Rightarrow> 'w \<Rightarrow> (go_error + string) \<times> 'w"
  net_unix :: "'w \<Rightarrow> int"

record essendixc_signer =
  es_issuer :: issuer_spec
  es_clientID :: string
  es_clientSecret :: string
  es_token :: string
  es_realm :: string
  es_signatureKey :: string

text \<open>The error type the file declares; nothing in the program makes or reads one.\<close>

record EssendiXCIssuingError =
  ie_Definitive :: bool
  ie_Msg :: string

definition EssendiXCIssuingError_Error :: "EssendiXCIssuingError \<Rightarrow> string" where
  "EssendiXCIssuingError_Error e = ie_Msg e"

definition EssendiXCIssuingError_IsDefinitive :: "EssendiXCIssuingError \<Rightarrow> bool" where
  "EssendiXCIssuingError_IsDefinitive e = ie_Definitive e"

text \<open>The Go interface \<open>Signer\<close>: a value with these four methods.\<close>

record 'w signer =
  sg_SubmitCertificateRequest :: "string \<Rightarrow> bytes \<Rightarrow> 'w \<Rightarrow> string go_result \<times> 'w"
  sg_GetRefreshToken :: "'w \<Rightarrow> string go_result \<times> 'w"
  sg_RequestTaskStatus :: "string \<Rightarrow> string \<Rightarrow> 'w \<Rightarrow> (string \<times> string) go_result \<times> 'w"
  sg_FetchCertificate :: "string \<Rightarrow> string \<Rightarrow> 'w \<Rightarrow> bytes go_result \<times> 'w"

section \<open>Building the signer from the issuer and its secret\<close>

definition not_in_secret :: "string \<Rightarrow> go_error" where
  "not_in_secret k = ErrText (k @ '' not found in secret'')"

definition EssendiSignerFromIssuerAndSecretData ::
    "issuer_spec \<Rightarrow> string \<Rightarrow> (string \<rightharpoonup> bytes) \<Rightarrow> go_error + essendixc_signer" where
  "EssendiSignerFromIssuerAndSecretData issuer authRealm secret =
     (case secret ''client-id'' of None \<Rightarrow> Inl (not_in_secret ''client-id'')
      | Some clientID \<Rightarrow>
     (case secret ''client-secret'' of None \<Rightarrow> Inl (not_in_secret ''client-secret'')
      | Some clientSecret \<Rightarrow>
     (case secret ''token'' of None \<Rightarrow> Inl (not_in_secret ''token'')
      | Some token \<Rightarrow>
     (case secret ''signature-key'' of None \<Rightarrow> Inl (not_in_secret ''signature-key'')
      | Some signatureKey \<Rightarrow>
          Inr \<lparr>es_issuer = issuer, es_clientID = clientID, es_clientSecret = clientSecret,
               es_token = token, es_realm = authRealm, es_signatureKey = signatureKey\<rparr>))))"

text \<open>The health checker looks at neither argument and its check always succeeds.\<close>

definition EssendiHealthCheckerFromIssuerAndSecretData ::
    "issuer_spec \<Rightarrow> (string \<rightharpoonup> bytes) \<Rightarrow> go_error + unit" where
  "EssendiHealthCheckerFromIssuerAndSecretData issuer secret = Inr ()"

definition Check :: "unit \<Rightarrow> go_error option" where
  "Check checker = None"

section \<open>Signing API requests\<close>

definition newline :: string where "newline = [CHR 0x0A]"

definition request_text :: "string \<Rightarrow> string \<Rightarrow> string \<Rightarrow> int \<Rightarrow> string \<Rightarrow> string \<Rightarrow> string" where
  "request_text clientId method contentType timestamp urlpath data =
     clientId @ newline @ method @ newline @ contentType @ newline @ show_int timestamp
     @ newline @ urlpath @ newline @ ''--'' @ newline @ data @ newline @ ''--''"

definition generateXSignature :: "string \<Rightarrow> string \<Rightarrow> string" where
  "generateXSignature request signatureKey = base64_encode (hmac_sha256 signatureKey request)"

definition signEssendiApiRequest ::
    "string \<Rightarrow> string \<Rightarrow> string \<Rightarrow> int \<Rightarrow> string \<Rightarrow> string \<Rightarrow> string \<Rightarrow> string" where
  "signEssendiApiRequest clientId method contentType timestamp urlpath data signatureKey =
     generateXSignature (request_text clientId method contentType timestamp urlpath data) signatureKey"

text \<open>The four headers of every API request.\<close>

definition api_headers :: "string \<Rightarrow> int \<Rightarrow> string \<Rightarrow> (string \<times> string) list" where
  "api_headers token timestamp xsignature =
     [(''Content-Type'', ''application/json''),
      (''Authorization'', ''Bearer '' @ token),
      (''X-Timestamp'', show_int timestamp),
      (''X-Signature'', xsignature)]"

section \<open>GetRefreshToken\<close>

definition GetRefreshToken :: "'w net \<Rightarrow> essendixc_signer \<Rightarrow> 'w \<Rightarrow> string go_result \<times> 'w" where
  "GetRefreshToken net o1 w =
     (let req = \<lparr>oa_ClientID = es_clientID o1, oa_ClientSecret = es_clientSecret o1,
                 oa_TokenURL = is_URL (es_issuer o1) @ ''/auth/realms/'' @ es_realm o1
                               @ ''/protocol/openid-connect/token'',
                 oa_RefreshToken = es_token o1\<rparr>
      in case net_oauth net req w of
           (Inl err, w') \<Rightarrow> (Fail err, w')
         | (Inr accessToken, w') \<Rightarrow> (Ok accessToken, w'))"

section \<open>SubmitCertificateRequest\<close>

text \<open>\<open>x509util.go\<close>: the first PEM block must have the type asked for.\<close>

definition parse_pem_block :: "golib \<Rightarrow> string \<Rightarrow> bytes \<Rightarrow> go_error + bytes" where
  "parse_pem_block lib ty pemBytes =
     (case pem_decode lib pemBytes of
        None \<Rightarrow> Inl (ErrText (''PEM block type must be '' @ ty))
      | Some (block, rest) \<Rightarrow>
          if pb_Type block \<noteq> ty then Inl (ErrText (''PEM block type must be '' @ ty))
          else Inr (pb_Bytes block))"

definition parseCSR :: "golib \<Rightarrow> bytes \<Rightarrow> go_error + x509_csr" where
  "parseCSR lib pemBytes =
     (case parse_pem_block lib ''CERTIFICATE REQUEST'' pemBytes of
        Inl e \<Rightarrow> Inl e
      | Inr der \<Rightarrow> lib_parse_csr lib der)"

definition parseCert :: "golib \<Rightarrow> bytes \<Rightarrow> go_error + x509_cert" where
  "parseCert lib pemBytes =
     (case parse_pem_block lib ''CERTIFICATE'' pemBytes of
        Inl e \<Rightarrow> Inl e
      | Inr der \<Rightarrow> lib_parse_cert lib der)"

definition parseKey :: "golib \<Rightarrow> bytes \<Rightarrow> go_error + bytes" where
  "parseKey lib pemBytes =
     (case parse_pem_block lib ''RSA PRIVATE KEY'' pemBytes of
        Inl e \<Rightarrow> Inl e
      | Inr der \<Rightarrow> lib_parse_pkcs1 lib der)"

definition first_or_empty :: "string list \<Rightarrow> string" where
  "first_or_empty xs = (case xs of [] \<Rightarrow> [] | x # _ \<Rightarrow> x)"

definition gotemplateVariables :: "issuer_spec \<Rightarrow> x509_csr \<Rightarrow> template_data" where
  "gotemplateVariables spec csr =
     [(''Csr'',
       [(''CommonName'', csr_CommonName csr),
        (''Country'', first_or_empty (csr_Country csr)),
        (''Locality'', first_or_empty (csr_Locality csr)),
        (''Organization'', first_or_empty (csr_Organization csr)),
        (''OrganizationalUnit'', first_or_empty (csr_OrganizationalUnit csr)),
        (''Email'', first_or_empty (csr_EmailAddresses csr)),
        (''State'', first_or_empty (csr_Province csr))]),
      (''Issuer'',
       [(''ProfileName'', is_ProfileName spec),
        (''SubscriberName'', is_SubscriberName spec)])]"

text \<open>A Go map built by assignments, as its list of entries: an assignment to a present key replaces it.\<close>

fun map_assign :: "'k \<Rightarrow> 'v \<Rightarrow> ('k \<times> 'v) list \<Rightarrow> ('k \<times> 'v) list" where
  "map_assign k v [] = [(k, v)]"
| "map_assign k v ((k', v') # m) = (if k' = k then (k, v) # m else (k', v') # map_assign k v m)"

text \<open>The loop over the custom fields; the first field whose template fails ends the call.\<close>

fun render_fields :: "golib \<Rightarrow> template_data \<Rightarrow> issuer_custom_field list \<Rightarrow>
    (string \<times> string) list \<Rightarrow> go_error + (string \<times> string) list" where
  "render_fields lib vars [] m = Inr m"
| "render_fields lib vars (field # rest) m =
     (case lib_tmpl_parse lib (cf_Value field) of
        Some errTemplate \<Rightarrow> Inl errTemplate
      | None \<Rightarrow>
          (case lib_tmpl_exec lib (cf_Value field) vars of
             Inl errReplacer \<Rightarrow> Inl errReplacer
           | Inr value \<Rightarrow> render_fields lib vars rest (map_assign (cf_Name field) value m)))"

definition submit_data :: "issuer_spec \<Rightarrow> bytes \<Rightarrow> (string \<times> string) list \<Rightarrow> json" where
  "submit_data spec csrBytes customFields =
     JObj [(''csr'', JStr csrBytes),
           (''profileName'', JStr (is_ProfileName spec)),
           (''attributes'', JObj [(''subject'', JObj []), (''subjectAlternativeNames'', JArr [])]),
           (''subscriber'', JStr (is_SubscriberName spec)),
           (''customFields'', JObj (map (\<lambda>(k, v). (k, JStr v)) customFields))]"

text \<open>\<open>response["description"]\<close> of an error body: present and not null, when the body is a JSON object.\<close>

definition description_of :: "bytes \<Rightarrow> json option" where
  "description_of body =
     (case json_parse body of
        None \<Rightarrow> None
      | Some j \<Rightarrow>
          (case unmarshal_map j of
             None \<Rightarrow> None
           | Some response \<Rightarrow>
               (case response ''description'' of
                  None \<Rightarrow> None
                | Some v \<Rightarrow> if v = JNull then None else Some v)))"

definition apiUrl :: string where "apiUrl = ''/api/v2/csr-process/request''"

definition submit_request ::
    "essendixc_signer \<Rightarrow> string \<Rightarrow> int \<Rightarrow> bytes \<Rightarrow> http_request" where
  "submit_request o1 token timestamp jsonData =
     \<lparr>rq_Method = ''POST'', rq_URL = is_URL (es_issuer o1) @ apiUrl,
      rq_Header = api_headers token timestamp
        (signEssendiApiRequest (es_clientID o1) ''POST'' ''application/json'' timestamp apiUrl
           jsonData (es_signatureKey o1)),
      rq_Body = jsonData\<rparr>"

text \<open>The end of the call, after the response has come.\<close>

definition submit_response :: "golib \<Rightarrow> issuer_spec \<Rightarrow> http_response \<Rightarrow> string go_result" where
  "submit_response lib spec resp =
     (if rs_StatusCode resp \<noteq> StatusAccepted then
        (case description_of (rs_Body resp) of
           Some d \<Rightarrow> Fail (ErrText (fmt_s (lib_fmt_float lib) d @ '' ('' @ show_int (rs_StatusCode resp) @ '')''))
         | None \<Rightarrow> Fail (ErrText (''unexpected status code: '' @ show_int (rs_StatusCode resp)
                            @ '' ('' @ rs_Body resp @ '')'')))
      else
        let statusEndpointUrl = header_get (rs_Header resp) ''Location''
        in if statusEndpointUrl = [] then Fail (ErrText ''status endpoint URL not found'')
           else Ok (if is_IgnoreHostInApiResponse spec
                    then replace_host (is_URL spec) statusEndpointUrl else statusEndpointUrl))"

definition SubmitCertificateRequest ::
    "golib \<Rightarrow> 'w net \<Rightarrow> essendixc_signer \<Rightarrow> string \<Rightarrow> bytes \<Rightarrow> 'w \<Rightarrow> string go_result \<times> 'w" where
  "SubmitCertificateRequest lib net o1 token csrBytes w =
     (case parseCSR lib csrBytes of
        Inl err \<Rightarrow> (Fail err, w)
      | Inr csrRequest \<Rightarrow>
     (let timestamp = net_unix net w in
      case render_fields lib (gotemplateVariables (es_issuer o1) csrRequest)
             (is_CustomFields (es_issuer o1)) [] of
        Inl err \<Rightarrow> (Fail err, w)
      | Inr customFieldsMap \<Rightarrow>
     (let jsonData = json_marshal (submit_data (es_issuer o1) csrBytes customFieldsMap) in
      case url_path lib (is_URL (es_issuer o1) @ apiUrl) of
        Inl err \<Rightarrow> (Fail err, w)
      | Inr path \<Rightarrow>
     (case net_do net (submit_request o1 token timestamp jsonData) w of
        (Inl err, w') \<Rightarrow> (Fail err, w')
      | (Inr resp, w') \<Rightarrow> (submit_response lib (es_issuer o1) resp, w')))))"

section \<open>RequestTaskStatus\<close>

definition get_request :: "essendixc_signer \<Rightarrow> string \<Rightarrow> int \<Rightarrow> string \<Rightarrow> string \<Rightarrow> http_request" where
  "get_request o1 token timestamp url path =
     \<lparr>rq_Method = ''GET'', rq_URL = url,
      rq_Header = api_headers token timestamp
        (signEssendiApiRequest (es_clientID o1) ''GET'' ''application/json'' timestamp path
           [] (es_signatureKey o1)),
      rq_Body = []\<rparr>"

text \<open>\<open>response["status"]\<close> when the body is a JSON object with string members only, else the empty string.\<close>

definition task_status :: "bytes \<Rightarrow> string" where
  "task_status body =
     (case json_parse body of
        None \<Rightarrow> []
      | Some j \<Rightarrow>
          (case unmarshal_string_map j of
             None \<Rightarrow> []
           | Some response \<Rightarrow> (case response ''status'' of None \<Rightarrow> [] | Some s \<Rightarrow> s)))"

definition status_response :: "issuer_spec \<Rightarrow> http_response \<Rightarrow> string \<times> string" where
  "status_response spec resp =
     (let requestStatus = task_status (rs_Body resp) in
      if rs_StatusCode resp \<noteq> StatusSeeOther then ([], requestStatus)
      else
        let resourceEndpoint = header_get (rs_Header resp) ''Location'' in
        if resourceEndpoint \<noteq> [] then
          (if is_IgnoreHostInApiResponse spec then replace_host (is_URL spec) resourceEndpoint
           else resourceEndpoint, requestStatus)
        else ([], []))"

text \<open>A transport error is logged and reported as success with two empty strings.\<close>

definition RequestTaskStatus ::
    "golib \<Rightarrow> 'w net \<Rightarrow> essendixc_signer \<Rightarrow> string \<Rightarrow> string \<Rightarrow> 'w \<Rightarrow> (string \<times> string) go_result \<times> 'w"
  where
  "RequestTaskStatus lib net o1 token statusEndpoint w =
     (case url_path lib statusEndpoint of
        Inl err \<Rightarrow> (Fail err, w)
      | Inr path \<Rightarrow>
          (case net_do net (get_request o1 token (net_unix net w) statusEndpoint path) w of
             (Inl err, w') \<Rightarrow> (Ok ([], []), w')
           | (Inr resp, w') \<Rightarrow> (Ok (status_response (es_issuer o1) resp), w')))"

section \<open>FetchCertificate\<close>

definition fetch_error :: "golib \<Rightarrow> http_response \<Rightarrow> go_error" where
  "fetch_error lib resp =
     (if rs_BodyErr resp \<noteq> None then ErrText ''unable to read error body''
      else ErrText (''unexpected status code: '' @ show_int (rs_StatusCode resp) @ '' (''
             @ (case description_of (rs_Body resp) of
                  Some d \<Rightarrow> fmt_s (lib_fmt_float lib) d | None \<Rightarrow> rs_Body resp) @ '')''))"

text \<open>The type assertion \<open>response["data"].(string)\<close> panics when the member is absent or not a string.\<close>

definition fetch_response :: "golib \<Rightarrow> http_response \<Rightarrow> bytes go_result" where
  "fetch_response lib resp =
     (if rs_StatusCode resp \<noteq> StatusOK then Fail (fetch_error lib resp)
      else
        case rs_BodyErr resp of
          Some err \<Rightarrow> Fail err
        | None \<Rightarrow>
            (case json_parse (rs_Body resp) of
               None \<Rightarrow> Fail (lib_json_syntax_error lib (rs_Body resp))
             | Some j \<Rightarrow>
                 (case unmarshal_map j of
                    None \<Rightarrow> Fail (lib_json_type_error lib j)
                  | Some response \<Rightarrow>
                      (case response ''data'' of
                         Some (JStr certificate) \<Rightarrow>
                           if certificate = [] then Fail (ErrText ''certificate not found'')
                           else Ok certificate
                       | _ \<Rightarrow> Panic))))"

text \<open>
  The error of \<open>url.Parse\<close> is dropped here: for a URL that does not parse the result is a nil
  pointer, whose field \<open>Path\<close> is then read.
\<close>

definition FetchCertificate ::
    "golib \<Rightarrow> 'w net \<Rightarrow> essendixc_signer \<Rightarrow> string \<Rightarrow> string \<Rightarrow> 'w \<Rightarrow> bytes go_result \<times> 'w" where
  "FetchCertificate lib net o1 token resourceUrl w =
     (case url_path lib resourceUrl of
        Inl err \<Rightarrow> (Panic, w)
      | Inr path \<Rightarrow>
          (case net_do net (get_request o1 token (net_unix net w) resourceUrl path) w of
             (Inl err, w') \<Rightarrow> (Fail err, w')
           | (Inr resp, w') \<Rightarrow> (fetch_response lib resp, w')))"

text \<open>The method table of \<open>*essendixcSigner\<close>, and the builder the manager is set up with.\<close>

definition essendi_signer :: "golib \<Rightarrow> 'w net \<Rightarrow> essendixc_signer \<Rightarrow> 'w signer" where
  "essendi_signer lib net o1 =
     \<lparr>sg_SubmitCertificateRequest = SubmitCertificateRequest lib net o1,
      sg_GetRefreshToken = GetRefreshToken net o1,
      sg_RequestTaskStatus = RequestTaskStatus lib net o1,
      sg_FetchCertificate = FetchCertificate lib net o1\<rparr>"

type_synonym 'w signer_builder = "issuer_spec \<Rightarrow> string \<Rightarrow> (string \<rightharpoonup> bytes) \<Rightarrow> go_error + 'w signer"

definition essendi_builder :: "golib \<Rightarrow> 'w net \<Rightarrow> 'w signer_builder" where
  "essendi_builder lib net issuer authRealm secret =
     (case EssendiSignerFromIssuerAndSecretData issuer authRealm secret of
        Inl err \<Rightarrow> Inl err
      | Inr o1 \<Rightarrow> Inr (essendi_signer lib net o1))"

end
