(* ===== verification/IssuerController.thy ===== *)
theory IssuerController
  imports Kube IssuerUtil Signer
begin

text \<open>
  \<open>internal/controllers/issuer_controller.go\<close>: the controller that keeps the Ready condition of
  an Issuer or a ClusterIssuer. The reconciler's health checker is any type \<open>'h\<close> with a builder
  and a check.
\<close>

definition defaultHealthCheckInterval :: duration where
  "defaultHealthCheckInterval = time_Minute"
definition defaultTaskCheckInterval :: duration where
  "defaultTaskCheckInterval = time_Second * 15"

definition errGetAuthSecret :: go_error where
  "errGetAuthSecret = Sentinel ''failed to get Secret containing Issuer credentials''"
definition errHealthCheckerBuilder :: go_error where
  "errHealthCheckerBuilder = Sentinel ''failed to build the healthchecker''"
definition errHealthCheckerCheck :: go_error where
  "errHealthCheckerCheck = Sentinel ''healthcheck failed''"

declare errGetAuthSecret_def [sentinels] errHealthCheckerBuilder_def [sentinels] errHealthCheckerCheck_def [sentinels]

record 'h issuer_reconciler =
  ir_Kind :: string
  ir_ClusterResourceNamespace :: string
  ir_HealthCheckerBuilder :: "issuer_spec \<Rightarrow> (string \<rightharpoonup> bytes) \<Rightarrow> go_error + 'h"
  ir_Check :: "'h \<Rightarrow> go_error option"

text \<open>The type assertion in \<open>newIssuer\<close> panics for a registered type that is no \<open>client.Object\<close>.\<close>

definition newIssuer :: "'h issuer_reconciler \<Rightarrow> kube \<Rightarrow> runtime_object go_result" where
  "newIssuer r k =
     (case k_scheme_new k (ir_Kind r) of
        Inl err \<Rightarrow> Fail err
      | Inr (RtNotClientObject ty) \<Rightarrow> Panic
      | Inr ro \<Rightarrow> Ok ro)"

text \<open>The state a reconciliation works on: the object in memory and the events recorded.\<close>

record issuer_run =
  irn_obj :: client_object
  irn_events :: "event list"

definition issuer_report ::
    "kube \<Rightarrow> string \<Rightarrow> string \<Rightarrow> go_error option \<Rightarrow> issuer_run \<Rightarrow> issuer_run" where
  "issuer_report k conditionStatus message err run =
     (let message = report_message message err in
      run\<lparr>irn_events := irn_events run @
            [\<lparr>ev_type = report_type err, ev_reason = EventReasonIssuerReconciler,
              ev_message = message\<rparr>],
          irn_obj :=
            (case GetSpecAndStatus (irn_obj run) of
               Inl e \<Rightarrow> irn_obj run
             | Inr (spec, st) \<Rightarrow> put_status (irn_obj run)
                 (SetReadyCondition (k_now k) conditionStatus EventReasonIssuerReconciler
                    message st))\<rparr>)"

definition secret_error :: "kube \<Rightarrow> go_error \<Rightarrow> namespaced_name \<Rightarrow> get_error \<Rightarrow> go_error" where
  "secret_error k sentinel name err =
     ErrWrap sentinel (err_text sentinel @ '', secret name: '' @ k_nn_string k name
                         @ '', reason: '' @ get_error_text err)"

text \<open>The function body after the deferred update is set up: \<open>RequeueAfter\<close>, the error, the state.\<close>

definition issuer_body ::
    "'h issuer_reconciler \<Rightarrow> kube \<Rightarrow> namespaced_name \<Rightarrow> issuer_spec \<Rightarrow> issuer_status \<Rightarrow> issuer_run \<Rightarrow>
       (duration \<times> go_error option) \<times> issuer_run" where
  "issuer_body r k req issuerSpec issuerStatus run =
     (if GetReadyCondition issuerStatus = None
      then ((0, None), issuer_report k ConditionUnknown ''First seen'' None run)
      else
        case (case irn_obj run of
                ObjIssuer t \<Rightarrow> Some (fst req)
              | ObjClusterIssuer t \<Rightarrow> Some (ir_ClusterResourceNamespace r)
              | ObjOther t \<Rightarrow> None) of
          None \<Rightarrow> ((0, None), run)
        | Some secretNamespace \<Rightarrow>
            (let secretName = (secretNamespace, is_AuthSecretName issuerSpec) in
             case k_get_Secret k secretName of
               Inl err \<Rightarrow> ((0, Some (secret_error k errGetAuthSecret secretName err)), run)
             | Inr secret \<Rightarrow>
                 (case ir_HealthCheckerBuilder r issuerSpec secret of
                    Inl err \<Rightarrow> ((0, Some (wrap_colon errHealthCheckerBuilder (err_text err))), run)
                  | Inr checker \<Rightarrow>
                      (case ir_Check r checker of
                         Some err \<Rightarrow> ((0, Some (wrap_colon errHealthCheckerCheck (err_text err))), run)
                       | None \<Rightarrow> ((defaultHealthCheckInterval, None),
                                 issuer_report k ConditionTrue ''Success'' None run)))))"

text \<open>The deferred function.\<close>

definition issuer_deferred ::
    "kube \<Rightarrow> (duration \<times> go_error option) \<times> issuer_run \<Rightarrow> client_object outcome" where
  "issuer_deferred k br =
     (case br of ((requeue, err), run) \<Rightarrow>
      let run = (case err of
                   None \<Rightarrow> run
                 | Some e \<Rightarrow> issuer_report k ConditionFalse ''Temporary error. Retrying'' (Some e) run)
      in (case k_update_issuer k (irn_obj run) of
           None \<Rightarrow> \<lparr>oc_RequeueAfter = requeue, oc_error = map_option Single err, oc_panic = False,
                    oc_update = Some (irn_obj run), oc_stored = True, oc_events = irn_events run\<rparr>
         | Some updateErr \<Rightarrow>
             \<lparr>oc_RequeueAfter = 0, oc_error = Some (Aggregate err updateErr), oc_panic = False,
              oc_update = Some (irn_obj run), oc_stored = False, oc_events = irn_events run\<rparr>))"

definition IssuerReconcile ::
    "'h issuer_reconciler \<Rightarrow> kube \<Rightarrow> namespaced_name \<Rightarrow> client_object outcome" where
  "IssuerReconcile r k req =
     (case newIssuer r k of
        Panic \<Rightarrow> early_panic
      | Fail err \<Rightarrow> early_return None
      | Ok ro \<Rightarrow>
          (case get_object k ro req of
             Inl (GetOther err) \<Rightarrow>
               early_return (Some (ErrText (''unexpected get error: '' @ err_text err)))
           | Inl (GetNotFound err) \<Rightarrow> early_return None
           | Inr issuer \<Rightarrow>
               (case GetSpecAndStatus issuer of
                  Inl err \<Rightarrow> early_return None
                | Inr (issuerSpec, issuerStatus) \<Rightarrow>
                    issuer_deferred k
                      (issuer_body r k req issuerSpec issuerStatus
                         \<lparr>irn_obj = issuer, irn_events = []\<rparr>))))"

text \<open>The Ready condition of an issuer object.\<close>

definition ready_of :: "client_object \<Rightarrow> issuer_condition option" where
  "ready_of obj = (case GetSpecAndStatus obj of Inl e \<Rightarrow> None | Inr (spec, st) \<Rightarrow> GetReadyCondition st)"

end
