(* ===== verification/CrUtil.thy ===== *)
theory CrUtil
  imports CertManager
begin

text \<open>
  Package \<open>internal/issuer/util\<close>, the half on certificate requests: the progress of a request
  at the remote service is kept in the text of its conditions, and these functions read it
  back. They look at the conditions of every type, in order, and stop at the first match.
\<close>

definition submitted_msg :: "cr_condition \<Rightarrow> bool" where
  "submitted_msg c \<longleftrightarrow>
     has_prefix (cc_Message c) IssuerConditionStatusSubmitted \<or>
     has_prefix (cc_Message c) IssuerConditionStatusApproved \<or>
     has_prefix (cc_Message c) IssuerConditionStatusProcessing"

definition GetSubmittedCondition :: "cr_condition list \<Rightarrow> cr_condition option" where
  "GetSubmittedCondition cs = find submitted_msg cs"

definition signed_msg :: "cr_condition \<Rightarrow> bool" where
  "signed_msg c \<longleftrightarrow> has_prefix (cc_Message c) IssuerConditionStatusSigned"

definition GetSignedCondition :: "cr_condition list \<Rightarrow> cr_condition option" where
  "GetSignedCondition cs = find signed_msg cs"

definition IsSubmitted :: "cr_condition list \<Rightarrow> bool" where
  "IsSubmitted cs = (case GetSubmittedCondition cs of Some c \<Rightarrow> True | None \<Rightarrow> False)"

definition IsApproved :: "cr_condition list \<Rightarrow> bool" where
  "IsApproved cs = (case GetSubmittedCondition cs of
     Some c \<Rightarrow> has_prefix (cc_Message c) IssuerConditionStatusApproved | None \<Rightarrow> False)"

definition IsProcessing :: "cr_condition list \<Rightarrow> bool" where
  "IsProcessing cs = (case GetSubmittedCondition cs of
     Some c \<Rightarrow> has_prefix (cc_Message c) IssuerConditionStatusProcessing | None \<Rightarrow> False)"

definition IsSigned :: "cr_condition list \<Rightarrow> bool" where
  "IsSigned cs = (case GetSignedCondition cs of Some c \<Rightarrow> True | None \<Rightarrow> False)"

text \<open>
  The URL the controller reads back out of a message:
  \<open>strings.TrimSpace(strings.SplitN(message, ":", 2)[1])\<close>, where the index panics (\<open>None\<close>) when
  the message has no colon.
\<close>

definition message_url :: "cr_condition \<Rightarrow> string option" where
  "message_url c = map_option trim_space (after_colon (cc_Message c))"

text \<open>The layouts of the messages the controller writes: \<open>prefix, status: url\<close> and \<open>prefix, resource: url\<close>.\<close>

definition status_message :: "string \<Rightarrow> string \<Rightarrow> string" where
  "status_message p u = p @ '', status: '' @ u"

definition resource_message :: "string \<Rightarrow> string \<Rightarrow> string" where
  "resource_message p u = p @ '', resource: '' @ u"

section \<open>Lemmas\<close>

lemma submitted_signed_exclusive: "submitted_msg c \<Longrightarrow> \<not> signed_msg c"
  by (auto simp: submitted_msg_def signed_msg_def has_prefix_iff [of "cc_Message c"]
        phase_messages)

lemma IsApproved_IsSubmitted: "IsApproved cs \<Longrightarrow> IsSubmitted cs"
  by (auto simp: IsApproved_def IsSubmitted_def split: option.splits)

lemma IsProcessing_IsSubmitted: "IsProcessing cs \<Longrightarrow> IsSubmitted cs"
  by (auto simp: IsProcessing_def IsSubmitted_def split: option.splits)

lemma approved_processing_exclusive: "\<not> (IsApproved cs \<and> IsProcessing cs)"
proof -
  have "\<not> (has_prefix m IssuerConditionStatusApproved \<and>
           has_prefix m IssuerConditionStatusProcessing)" for m
    by (auto simp: has_prefix_iff phase_messages)
  then show ?thesis
    by (auto simp: IsApproved_def IsProcessing_def split: option.splits)
qed

lemma GetSubmittedCondition_Some:
  "GetSubmittedCondition cs = Some c \<Longrightarrow> c \<in> set cs \<and> submitted_msg c"
  by (auto simp: GetSubmittedCondition_def find_Some_iff)

lemma GetSignedCondition_Some: "GetSignedCondition cs = Some c \<Longrightarrow> c \<in> set cs \<and> signed_msg c"
  by (auto simp: GetSignedCondition_def find_Some_iff)

lemma find_upsert: "\<forall>c \<in> set cs. \<not> P c \<Longrightarrow> P x \<Longrightarrow> find P (upsert x cs) = Some x"
  by (induction cs) auto

text \<open>
  In both layouts the text after the first colon is a space and the URL, so a trimmed URL comes
  back as it was written.
\<close>

lemma after_colon_status:
  "CHR '':'' \<notin> set p \<Longrightarrow> after_colon (status_message p u) = Some (CHR '' '' # u)"
  using after_colon_append [of "p @ '', status''" "CHR '' '' # u"] by (simp add: status_message_def)

lemma after_colon_resource:
  "CHR '':'' \<notin> set p \<Longrightarrow> after_colon (resource_message p u) = Some (CHR '' '' # u)"
  using after_colon_append [of "p @ '', resource''" "CHR '' '' # u"] by (simp add: resource_message_def)

lemma has_prefix_message [simp]:
  "has_prefix (status_message p u) p" "has_prefix (resource_message p u) p"
  by (simp_all add: status_message_def resource_message_def)

text \<open>
  The functions above search the whole list. When the conditions of other types carry no
  message of this program, the Ready condition decides.
\<close>

definition foreign_quiet :: "cr_condition list \<Rightarrow> bool" where
  "foreign_quiet cs \<longleftrightarrow> (\<forall>c \<in> set cs. cc_Type c \<noteq> cm_Ready \<longrightarrow> \<not> submitted_msg c \<and> \<not> signed_msg c)"

lemma find_ready:
  assumes "\<forall>c \<in> set cs. cc_Type c \<noteq> cm_Ready \<longrightarrow> \<not> P c" and "distinct (map cc_Type cs)"
  shows "find P cs = (case cond_of cm_Ready cs of
           None \<Rightarrow> None | Some c \<Rightarrow> if P c then Some c else None)"
  using assms
proof (induction cs)
  case Nil
  then show ?case by simp
next
  case (Cons c cs)
  show ?case
  proof (cases "cc_Type c = cm_Ready")
    case True
    with Cons.prems(2) have "cond_of cm_Ready cs = None"
      using distinct_types_Cons [of c cs] by (simp add: cond_of_None_iff)
    with True Cons show ?thesis by auto
  next
    case False
    with Cons show ?thesis by auto
  qed
qed

lemma GetSubmittedCondition_ready:
  "foreign_quiet cs \<Longrightarrow> distinct (map cc_Type cs) \<Longrightarrow>
     GetSubmittedCondition cs = (case cond_of cm_Ready cs of
       None \<Rightarrow> None | Some c \<Rightarrow> if submitted_msg c then Some c else None)"
  unfolding GetSubmittedCondition_def foreign_quiet_def by (rule find_ready) auto

lemma GetSignedCondition_ready:
  "foreign_quiet cs \<Longrightarrow> distinct (map cc_Type cs) \<Longrightarrow>
     GetSignedCondition cs = (case cond_of cm_Ready cs of
       None \<Rightarrow> None | Some c \<Rightarrow> if signed_msg c then Some c else None)"
  unfolding GetSignedCondition_def foreign_quiet_def by (rule find_ready) auto

lemma foreign_quiet_filter:
  assumes "filter (\<lambda>c. cc_Type c \<noteq> cm_Ready) cs' = filter (\<lambda>c. cc_Type c \<noteq> cm_Ready) cs"
  shows "foreign_quiet cs' = foreign_quiet cs"
proof -
  have "foreign_quiet xs \<longleftrightarrow> (\<forall>c \<in> set (filter (\<lambda>c. cc_Type c \<noteq> cm_Ready) xs). \<not> submitted_msg c \<and> \<not> signed_msg c)" for xs
    by (auto simp: foreign_quiet_def)
  then show ?thesis using assms by (simp only:)
qed

end
