(* ===== verification/PemChain.thy ===== *)
theory PemChain
  imports GoLib "HOL-Library.While_Combinator"
begin

text \<open>
  \<open>internal/controllers/pem_chain.go\<close>: the search for the root certificate in a PEM bundle. The
  loop stops because every block leaves a shorter rest. It is written twice, as the loop it is in
  the source and as a recursion, and the two are shown to agree.
\<close>

text \<open>The condition of the loop body on one block: a certificate that is a CA and signed by itself.\<close>

definition is_root_block :: "golib \<Rightarrow> pem_block \<Rightarrow> bool" where
  "is_root_block lib block \<longleftrightarrow>
     pb_Type block = ''CERTIFICATE'' \<and>
     (case lib_parse_cert lib (pb_Bytes block) of
        Inl err \<Rightarrow> False
      | Inr cert \<Rightarrow> xc_IsCA cert \<and> lib_check_signature_from lib cert cert = None)"

function extractCAFromPEMBundle :: "golib \<Rightarrow> bytes \<Rightarrow> bytes option" where
  "extractCAFromPEMBundle lib bundle =
     (case pem_decode lib bundle of
        None \<Rightarrow> None
      | Some (block, rest) \<Rightarrow>
          if pb_Type block \<noteq> ''CERTIFICATE'' then extractCAFromPEMBundle lib rest
          else
            (case lib_parse_cert lib (pb_Bytes block) of
               Inl err \<Rightarrow> extractCAFromPEMBundle lib rest
             | Inr cert \<Rightarrow>
                 if xc_IsCA cert \<and> lib_check_signature_from lib cert cert = None
                 then pem_EncodeToMemory block
                 else extractCAFromPEMBundle lib rest))"
  by pat_completeness auto
termination
  by (relation "measure (\<lambda>(lib, bundle). length bundle)") (auto dest: pem_decode_shorter)

declare extractCAFromPEMBundle.simps [simp del]

text \<open>
  The \<open>for\<close> statement itself. Its state is the pair last decoded and the value returned from
  inside the loop, if any; the statement ends when there is no block or a value was returned.
\<close>

type_synonym ca_loop_state = "(pem_block \<times> bytes) option \<times> bytes option option"

definition ca_loop_cond :: "ca_loop_state \<Rightarrow> bool" where
  "ca_loop_cond st \<longleftrightarrow> fst st \<noteq> None \<and> snd st = None"

definition ca_loop_body :: "golib \<Rightarrow> ca_loop_state \<Rightarrow> ca_loop_state" where
  "ca_loop_body lib st =
     (case fst st of
        None \<Rightarrow> st
      | Some (block, rest) \<Rightarrow>
          if is_root_block lib block then (fst st, Some (pem_EncodeToMemory block))
          else (pem_decode lib rest, None))"

definition ca_loop :: "golib \<Rightarrow> bytes \<Rightarrow> ca_loop_state option" where
  "ca_loop lib bundle =
     while_option ca_loop_cond (ca_loop_body lib) (pem_decode lib bundle, None)"

text \<open>What the function returns when the loop has ended: \<open>return nil\<close> follows it.\<close>

definition ca_returned :: "ca_loop_state \<Rightarrow> bytes option" where
  "ca_returned st = (case snd st of None \<Rightarrow> None | Some ca \<Rightarrow> ca)"

text \<open>All blocks of a bundle, in order.\<close>

function pem_blocks :: "golib \<Rightarrow> bytes \<Rightarrow> pem_block list" where
  "pem_blocks lib bundle =
     (case pem_decode lib bundle of
        None \<Rightarrow> []
      | Some (block, rest) \<Rightarrow> block # pem_blocks lib rest)"
  by pat_completeness auto
termination
  by (relation "measure (\<lambda>(lib, bundle). length bundle)") (auto dest: pem_decode_shorter)

declare pem_blocks.simps [simp del]

lemma pem_blocks_step:
  "pem_decode lib bundle = None \<Longrightarrow> pem_blocks lib bundle = []"
  "pem_decode lib bundle = Some (block, rest) \<Longrightarrow>
     pem_blocks lib bundle = block # pem_blocks lib rest"
  by (simp_all add: pem_blocks.simps [of lib "bundle"])

lemma extract_step:
  "pem_decode lib bundle = None \<Longrightarrow> extractCAFromPEMBundle lib bundle = None"
  "pem_decode lib bundle = Some (block, rest) \<Longrightarrow> is_root_block lib block \<Longrightarrow>
     extractCAFromPEMBundle lib bundle = pem_EncodeToMemory block"
  "pem_decode lib bundle = Some (block, rest) \<Longrightarrow> \<not> is_root_block lib block \<Longrightarrow>
     extractCAFromPEMBundle lib bundle = extractCAFromPEMBundle lib rest"
  by (auto simp: extractCAFromPEMBundle.simps [of lib "bundle"] is_root_block_def split: sum.splits)

lemma extract_is_find:
  "extractCAFromPEMBundle lib bundle =
     Option.bind (find (is_root_block lib) (pem_blocks lib bundle)) pem_EncodeToMemory"
proof (induction lib "bundle" rule: pem_blocks.induct)
  case (1 lib data)
  show ?case
  proof (cases "pem_decode lib data")
    case None
    then show ?thesis by (simp add: extract_step pem_blocks_step)
  next
    case (Some p)
    obtain block rest where p: "p = (block, rest)" by (cases p)
    with "1.IH" [OF Some] have IH: "extractCAFromPEMBundle lib rest =
        Option.bind (find (is_root_block lib) (pem_blocks lib rest)) pem_EncodeToMemory"
      by simp
    show ?thesis
      using Some p IH
      by (cases "is_root_block lib block") (simp_all add: extract_step pem_blocks_step)
  qed
qed

text \<open>There are no more blocks than bytes.\<close>

lemma pem_blocks_length: "length (pem_blocks lib bundle) \<le> length bundle"
proof (induction lib "bundle" rule: pem_blocks.induct)
  case (1 lib data)
  show ?case
  proof (cases "pem_decode lib data")
    case None
    then show ?thesis by (simp add: pem_blocks_step)
  next
    case (Some p)
    obtain block rest where p: "p = (block, rest)" by (cases p)
    with "1.IH" [OF Some] pem_decode_shorter Some show ?thesis
      by (fastforce simp: pem_blocks_step)
  qed
qed

text \<open>
  The measure of a loop state: the bytes left after the block last decoded. A state in which a
  value was returned is below all others.
\<close>

definition ca_loop_measure :: "ca_loop_state \<Rightarrow> nat" where
  "ca_loop_measure st =
     (if snd st \<noteq> None then 0
      else case fst st of None \<Rightarrow> 0 | Some (block, rest) \<Rightarrow> Suc (length rest))"

lemma ca_loop_body_less: "ca_loop_cond st \<Longrightarrow> ca_loop_measure (ca_loop_body lib st) < ca_loop_measure st"
  by (auto simp: ca_loop_cond_def ca_loop_body_def ca_loop_measure_def
      split: option.splits dest: pem_decode_shorter)

text \<open>What the recursion finds from a loop state on; the loop body keeps it.\<close>

definition ca_loop_result :: "golib \<Rightarrow> ca_loop_state \<Rightarrow> bytes option" where
  "ca_loop_result lib st =
     (case snd st of
        Some ca \<Rightarrow> ca
      | None \<Rightarrow>
          (case fst st of
             None \<Rightarrow> None
           | Some (block, rest) \<Rightarrow>
               if is_root_block lib block then pem_EncodeToMemory block
               else extractCAFromPEMBundle lib rest))"

lemma ca_loop_result_decode:
  "ca_loop_result lib (pem_decode lib data, None) = extractCAFromPEMBundle lib data"
  by (cases "pem_decode lib data") (auto simp: ca_loop_result_def extract_step)

lemma ca_loop_result_body:
  "ca_loop_cond st \<Longrightarrow> ca_loop_result lib (ca_loop_body lib st) = ca_loop_result lib st"
  by (auto simp: ca_loop_cond_def ca_loop_body_def ca_loop_result_decode)
     (auto simp: ca_loop_result_def)

lemma ca_loop_result_end: "\<not> ca_loop_cond st \<Longrightarrow> ca_loop_result lib st = ca_returned st"
  by (auto simp: ca_loop_cond_def ca_returned_def ca_loop_result_def split: option.splits)

text \<open>A loop whose body lowers a measure ends after at most as many steps as the measure says.\<close>

lemma while_option_steps:
  assumes less: "\<And>st. b st \<Longrightarrow> m (c st) < (m st :: nat)"
  shows "\<exists>k \<le> m s. while_option b c s = Some ((c ^^ k) s)"
proof (induction "m s" arbitrary: s rule: less_induct)
  case less_induct: less
  show ?case
  proof (cases "b s")
    case False
    then show ?thesis by (intro exI [of _ 0]) (simp add: while_option_unfold)
  next
    case True
    from less_induct [OF less [OF True]] obtain k
      where k: "k \<le> m (c s)" "while_option b c (c s) = Some ((c ^^ k) (c s))" by blast
    from k(1) less [OF True] have "Suc k \<le> m s" by simp
    moreover from True k(2) have "while_option b c s = Some ((c ^^ Suc k) s)"
      by (simp add: while_option_unfold [of b c s] funpow_swap1)
    ultimately show ?thesis by blast
  qed
qed

lemma ca_loop_measure_start: "ca_loop_measure (pem_decode lib data, None) \<le> length data"
  by (auto simp: ca_loop_measure_def split: option.splits dest: pem_decode_shorter)

lemma ca_loop_steps:
  "\<exists>k \<le> length bundle. ca_loop lib bundle = Some ((ca_loop_body lib ^^ k) (pem_decode lib bundle, None))"
  using while_option_steps [of ca_loop_cond ca_loop_measure "ca_loop_body lib" "(pem_decode lib bundle, None)",
      OF ca_loop_body_less] ca_loop_measure_start [of lib "bundle"]
  unfolding ca_loop_def by (meson order_trans)

lemma ca_loop_value:
  assumes "ca_loop lib bundle = Some st"
  shows "ca_returned st = extractCAFromPEMBundle lib bundle"
proof -
  have "ca_loop_result lib st = extractCAFromPEMBundle lib bundle \<and> \<not> ca_loop_cond st"
    using while_option_rule [where P = "\<lambda>st. ca_loop_result lib st = extractCAFromPEMBundle lib bundle",
        OF _ assms [unfolded ca_loop_def]]
      while_option_stop [OF assms [unfolded ca_loop_def]]
    by (auto simp: ca_loop_result_body ca_loop_result_decode)
  then show ?thesis by (auto simp: ca_loop_result_end)
qed

text \<open>A bundle of blocks written one after the other is read back as these blocks.\<close>

lemma pem_blocks_concat:
  "pem_laws lib \<Longrightarrow> \<forall>b \<in> set bs. plain_block b \<Longrightarrow> pem_blocks lib (concat (map pem_text bs)) = bs"
proof (induction bs)
  case Nil
  have "pem_decode lib [] = None" by (simp add: pem_decode_def)
  then show ?case by (simp add: pem_blocks_step)
next
  case (Cons b bs)
  then have "pem_decode lib (pem_text b @ concat (map pem_text bs)) = Some (b, concat (map pem_text bs))"
    by (simp add: pem_laws_def)
  with Cons show ?case by (simp add: pem_blocks_step)
qed

lemma pem_EncodeToMemory_plain: "plain_block b \<Longrightarrow> pem_EncodeToMemory b = Some (pem_text b)"
  by (simp add: pem_EncodeToMemory_def plain_block_def)

end
