(* ===== verification/CrController.thy ===== *)
theory CrController
  imports Kube IssuerController CrUtil PemChain
begin

text \<open>
  \<open>internal/controllers/certificaterequest_controller.go\<close>: the controller that carries a
  certificate request through the remote service. The helpers of cert-manager are the argument
  \<open>cm\<close>, the cluster is \<open>k\<close>, and the remote service behind the signer has the state \<open>'w\<close>.

  The handler mutates the request it has read, records events and calls the signer: \<open>cr_run\<close>
  is that state, with the list of the signer calls made. Early returns, the deferred update
  and panics are explicit.
\<close>

definition errIssuerRef :: go_error where
  "errIssuerRef = Sentinel ''error interpreting issuerRef''"
definition errGetIssuer :: go_error where
  "errGetIssuer = Sentinel ''error getting issuer''"
definition errIssuerNotReady :: go_error where
  "errIssuerNotReady = Sentinel ''issuer is not ready''"
definition errSignerBuilder :: go_error where
  "errSignerBuilder = Sentinel ''failed to build the signer''"
definition errSignerSign :: go_error where
  "errSignerSign = Sentinel ''failed to sign''"
definition errSignerRefused :: go_error where
  "errSignerRefused = Sentinel ''signing refused''"

declare errIssuerRef_def [sentinels] errGetIssuer_def [sentinels] errIssuerNotReady_def [sentinels]
declare errSignerBuilder_def [sentinels] errSignerSign_def [sentinels] errSignerRefused_def [sentinels]

record 'w cr_reconciler =
  rc_SignerBuilder :: "'w signer_builder"
  rc_ClusterResourceNamespace :: string
  rc_AuthRealm :: string
  rc_CheckApprovedCondition :: bool

text \<open>A method that does nothing, and that nothing calls.\<close>

definition Watchdog :: "'w cr_reconciler \<Rightarrow> go_error option" where
  "Watchdog r = None"

datatype signer_call =
    CallToken
  | CallSubmit string bytes
  | CallStatus string string
  | CallFetch string string

record 'w cr_run =
  run_cr :: certificate_request
  run_events :: "event list"
  run_calls :: "signer_call list"
  run_world :: 'w

text \<open>How the body ends: a return, with \<open>RequeueAfter\<close> and the error, or a panic.\<close>

datatype body_exit = Return duration "go_error option" | Unwind

record 'w cr_outcome = "certificate_request outcome" +
  oc_calls :: "signer_call list"
  oc_world :: 'w

section \<open>Guards and reporting\<close>

text \<open>The early exits, in order: a foreign issuer group, a final Ready condition, no approval.\<close>

definition cr_ignored :: "cmutil \<Rightarrow> 'w cr_reconciler \<Rightarrow> certificate_request \<Rightarrow> bool" where
  "cr_ignored cm r cr \<longleftrightarrow>
     (if cr_IssuerGroup cr \<noteq> GroupVersion_Group then True
      else if cm_HasCondition cm cr cm_Ready cm_True [] then True
      else if cm_HasCondition cm cr cm_Ready cm_False cm_Failed then True
      else if cm_HasCondition cm cr cm_Ready cm_False cm_Denied then True
      else rc_CheckApprovedCondition r \<and> \<not> cm_IsApproved cm cr)"

definition report ::
    "cmutil \<Rightarrow> string \<Rightarrow> string \<Rightarrow> bool \<Rightarrow> go_error option \<Rightarrow> 'w cr_run \<Rightarrow> 'w cr_run" where
  "report cm reason message failed err run =
     (let status = (if reason = cm_Issued then cm_True else cm_False);
          message = report_message message err;
          event = \<lparr>ev_type = report_type err,
                   ev_reason = EventReasonCertificateRequestReconciler, ev_message = message\<rparr>
      in run\<lparr>run_events := run_events run @ [event],
             run_cr := cm_SetCondition cm (run_cr run) (if failed then cm_Failed else cm_Ready)
                         status reason message\<rparr>)"

section \<open>Talking to the signer\<close>

definition after_call :: "signer_call \<Rightarrow> 'w \<Rightarrow> 'w cr_run \<Rightarrow> 'w cr_run" where
  "after_call c w run = run\<lparr>run_calls := run_calls run @ [c], run_world := w\<rparr>"

definition signer_failed :: "go_error \<Rightarrow> body_exit" where
  "signer_failed err = Return 0 (Some (wrap_colon errSignerBuilder (err_text err)))"

definition submit_phase ::
    "cmutil \<Rightarrow> 'w signer \<Rightarrow> string \<Rightarrow> 'w cr_run \<Rightarrow> body_exit \<times> 'w cr_run" where
  "submit_phase cm S token run =
     (case sg_SubmitCertificateRequest S token (cr_Request (run_cr run)) (run_world run) of (res, w) \<Rightarrow>
      let run = after_call (CallSubmit token (cr_Request (run_cr run))) w run in
      (case res of
         Panic \<Rightarrow> (Unwind, run)
       | Fail err \<Rightarrow> (signer_failed err, run)
       | Ok statusEndpointUrl \<Rightarrow>
           (Return defaultTaskCheckInterval None,
            report cm cm_Pending (status_message IssuerConditionStatusSubmitted statusEndpointUrl)
              False None run)))"

definition poll_phase ::
    "cmutil \<Rightarrow> 'w signer \<Rightarrow> string \<Rightarrow> string \<Rightarrow> 'w cr_run \<Rightarrow> body_exit \<times> 'w cr_run" where
  "poll_phase cm S token statusEndpointUrl run =
     (case sg_RequestTaskStatus S token statusEndpointUrl (run_world run) of (res, w) \<Rightarrow>
      let run = after_call (CallStatus token statusEndpointUrl) w run;
          conds = cr_Conditions (run_cr run)
      in (case res of
        Panic \<Rightarrow> (Unwind, run)
      | Fail err \<Rightarrow> (signer_failed err, run)
      | Ok (resourceUrl, taskStatus) \<Rightarrow>
          if resourceUrl = [] then
            (if taskStatus = TaskStatusProcessing \<and> \<not> IsProcessing conds then
               (Return defaultTaskCheckInterval None,
                report cm cm_Pending (resource_message IssuerConditionStatusProcessing statusEndpointUrl)
                  False None run)
             else if taskStatus = TaskStatusApproved \<and> \<not> IsApproved conds then
               (Return defaultTaskCheckInterval None,
                report cm cm_Pending (resource_message IssuerConditionStatusApproved statusEndpointUrl)
                  False None run)
             else if taskStatus = TaskStatusDeclined then
               (Return 0 None, report cm cm_Failed ''Request declined'' False None run)
             else if taskStatus = TaskStatusCanceled then
               (Return 0 None, report cm cm_Failed ''Request cancelled'' False None run)
             else if taskStatus = TaskStatusFailed then
               (Return 0 None, report cm cm_Failed ''Failed in review'' False None run)
             else (Return defaultTaskCheckInterval None, run))
          else
            (Return 0 None,
             report cm cm_Pending (resource_message IssuerConditionStatusSigned resourceUrl)
               False None run)))"

definition fetch_phase ::
    "cmutil \<Rightarrow> golib \<Rightarrow> 'w signer \<Rightarrow> string \<Rightarrow> string \<Rightarrow> 'w cr_run \<Rightarrow> body_exit \<times> 'w cr_run" where
  "fetch_phase cm lib S token resourceUrl run =
     (case sg_FetchCertificate S token resourceUrl (run_world run) of (res, w) \<Rightarrow>
      let run = after_call (CallFetch token resourceUrl) w run in
      (case res of
        Panic \<Rightarrow> (Unwind, run)
      | Fail err \<Rightarrow> (signer_failed err, run)
      | Ok signedCert \<Rightarrow>
          (let cr = (run_cr run)\<lparr>cr_Certificate := signedCert\<rparr>;
               cr = (case extractCAFromPEMBundle lib signedCert of
                       None \<Rightarrow> cr | Some ca \<Rightarrow> cr\<lparr>cr_CA := ca\<rparr>)
           in (Return 0 None, report cm cm_Issued ''Signed'' False None (run\<lparr>run_cr := cr\<rparr>)))))"

text \<open>
  Which call is made is read off the conditions of the request. \<open>None\<close> of \<open>message_url\<close> is the
  index out of range on a message without a colon.
\<close>

definition sign_phase ::
    "cmutil \<Rightarrow> golib \<Rightarrow> 'w signer \<Rightarrow> string \<Rightarrow> 'w cr_run \<Rightarrow> body_exit \<times> 'w cr_run" where
  "sign_phase cm lib S token run =
     (let conds = cr_Conditions (run_cr run) in
      if IsSigned conds then
        (case Option.bind (GetSignedCondition conds) message_url of
           None \<Rightarrow> (Unwind, run)
         | Some resourceUrl \<Rightarrow> fetch_phase cm lib S token resourceUrl run)
      else if IsSubmitted conds then
        (case Option.bind (GetSubmittedCondition conds) message_url of
           None \<Rightarrow> (Unwind, run)
         | Some statusEndpointUrl \<Rightarrow> poll_phase cm S token statusEndpointUrl run)
      else submit_phase cm S token run)"

section \<open>The body of Reconcile\<close>

text \<open>From the issuer object on: its readiness, its secret, the signer and a token.\<close>

definition issuer_phase ::
    "cmutil \<Rightarrow> golib \<Rightarrow> 'w cr_reconciler \<Rightarrow> kube \<Rightarrow> string \<Rightarrow> client_object \<Rightarrow> 'w cr_run \<Rightarrow>
       body_exit \<times> 'w cr_run" where
  "issuer_phase cm lib r k secretNamespace issuer run =
     (case GetSpecAndStatus issuer of
        Inl err \<Rightarrow>
          (Return 0 None,
           report cm cm_Failed ''Unable to get the IssuerStatus. Ignoring'' False (Some err) run)
      | Inr (issuerSpec, issuerStatus) \<Rightarrow>
          if \<not> IsReady issuerStatus then (Return 0 (Some errIssuerNotReady), run)
          else
            let secretName = (secretNamespace, is_AuthSecretName issuerSpec) in
            (case k_get_Secret k secretName of
              Inl err \<Rightarrow> (Return 0 (Some (secret_error k errGetAuthSecret secretName err)), run)
            | Inr secret \<Rightarrow>
                (case rc_SignerBuilder r issuerSpec (rc_AuthRealm r) secret of
                   Inl err \<Rightarrow> (signer_failed err, run)
                 | Inr S \<Rightarrow>
                     (case sg_GetRefreshToken S (run_world run) of (res, w) \<Rightarrow>
                      let run = after_call CallToken w run in
                      (case res of
                        Panic \<Rightarrow> (Unwind, run)
                      | Fail err \<Rightarrow> (signer_failed err, run)
                      | Ok token \<Rightarrow> sign_phase cm lib S token run)))))"

definition cr_body ::
    "cmutil \<Rightarrow> golib \<Rightarrow> 'w cr_reconciler \<Rightarrow> kube \<Rightarrow> 'w cr_run \<Rightarrow> body_exit \<times> 'w cr_run" where
  "cr_body cm lib r k run =
     (let cr = run_cr run in
      if cm_IsDenied cm cr then
        (let cr = (if cr_FailureTime cr = None then cr\<lparr>cr_FailureTime := Some (k_now k)\<rparr> else cr)
         in (Return 0 None,
             report cm cm_Denied ''The CertificateRequest was denied by an approval controller''
               False None (run\<lparr>run_cr := cr\<rparr>)))
      else if cm_GetCondition cm cr cm_Ready = None then
        (Return 0 None, report cm cm_Pending ''Initialising Ready condition'' False None run)
      else
        case k_scheme_new k (cr_IssuerKind cr) of
          Inl err \<Rightarrow>
            (Return 0 None,
             report cm cm_Failed ''Unrecognised kind. Ignoring'' False
               (Some (wrap_colon errIssuerRef ''false'')) run)
        | Inr issuerRO \<Rightarrow>
            (case (case issuerRO of
                     RtIssuer \<Rightarrow> Inr (cr_Namespace cr, cr_Namespace cr)
                   | RtClusterIssuer \<Rightarrow> Inr ([], rc_ClusterResourceNamespace r)
                   | RtClientObject t \<Rightarrow>
                       Inl (Return 0 None,
                            report cm cm_Failed
                              ''The issuerRef referred to a registered Kind which is not yet handled. Ignoring''
                              False (Some (ErrText (''unexpected issuer type: '' @ t))) run)
                   | RtNotClientObject t \<Rightarrow> Inl (Unwind, run)) of
               Inl done \<Rightarrow> done
             | Inr (issuerNamespace, secretNamespace) \<Rightarrow>
                 (case get_object k issuerRO (issuerNamespace, cr_IssuerName cr) of
                    Inl err \<Rightarrow>
                      (Return 0 (Some (wrap_colon errGetIssuer (get_error_text err))), run)
                  | Inr issuer \<Rightarrow> issuer_phase cm lib r k secretNamespace issuer run)))"

section \<open>The deferred update and Reconcile\<close>

text \<open>
  The deferred function also runs while a panic unwinds; the named result \<open>err\<close> is nil at every
  point of the body that can panic.
\<close>

definition cr_deferred :: "cmutil \<Rightarrow> kube \<Rightarrow> body_exit \<times> 'w cr_run \<Rightarrow> 'w cr_outcome" where
  "cr_deferred cm k br =
     (case br of (ex, run) \<Rightarrow>
      let err = (case ex of Return requeue err \<Rightarrow> err | Unwind \<Rightarrow> None);
          requeue = (case ex of Return requeue err \<Rightarrow> requeue | Unwind \<Rightarrow> 0);
          run = (case err of
                   None \<Rightarrow> run
                 | Some e \<Rightarrow>
                     if str_contains (err_text e) (err_text errSignerRefused)
                     then report cm cm_Pending ''Temporary error. Retrying'' False (Some e) run
                     else run)
      in (case k_update_cr k (run_cr run) of
           None \<Rightarrow>
             \<lparr>oc_RequeueAfter = requeue, oc_error = map_option Single err, oc_panic = (ex = Unwind),
              oc_update = Some (run_cr run), oc_stored = True, oc_events = run_events run,
              oc_calls = run_calls run, oc_world = run_world run\<rparr>
         | Some updateErr \<Rightarrow>
             \<lparr>oc_RequeueAfter = 0, oc_error = Some (Aggregate err updateErr), oc_panic = (ex = Unwind),
              oc_update = Some (run_cr run), oc_stored = False, oc_events = run_events run,
              oc_calls = run_calls run, oc_world = run_world run\<rparr>))"

definition quiet_return :: "go_error option \<Rightarrow> 'w \<Rightarrow> 'w cr_outcome" where
  "quiet_return err w =
     \<lparr>oc_RequeueAfter = 0, oc_error = map_option Single err, oc_panic = False,
      oc_update = None, oc_stored = False, oc_events = [], oc_calls = [], oc_world = w\<rparr>"

definition CrReconcile ::
    "cmutil \<Rightarrow> golib \<Rightarrow> 'w cr_reconciler \<Rightarrow> kube \<Rightarrow> namespaced_name \<Rightarrow> 'w \<Rightarrow> 'w cr_outcome" where
  "CrReconcile cm lib r k req w =
     (case k_get_CertificateRequest k req of
        Inl (GetOther err) \<Rightarrow>
          quiet_return (Some (ErrText (''unexpected get error: '' @ err_text err))) w
      | Inl (GetNotFound err) \<Rightarrow> quiet_return None w
      | Inr cr \<Rightarrow>
          if cr_ignored cm r cr then quiet_return None w
          else cr_deferred cm k
                 (cr_body cm lib r k
                    \<lparr>run_cr = cr, run_events = [], run_calls = [], run_world = w\<rparr>))"

end
