(* ===== verification/IssuerProps.thy ===== *)
theory IssuerProps
  imports IssuerController
begin

text \<open>
  What the issuer controller promises. A reconciliation of an existing issuer comes to one of
  three verdicts, and \<open>IssuerReconcile_found\<close> says that the whole call is: write the Ready
  condition of the verdict, record one event, and return what the verdict asks for. The
  properties follow from that equation and from the contract of the Ready condition in
  \<open>IssuerUtil\<close>.
\<close>

section \<open>The contract of a condition store\<close>

text \<open>
  A status that keeps one condition: setting it makes it readable with the given status,
  reason and message, and touches nothing the store calls other.
\<close>

locale condition_store =
  fixes put :: "'t \<Rightarrow> string \<Rightarrow> string \<Rightarrow> string \<Rightarrow> 'st \<Rightarrow> 'st"
    and get :: "'st \<Rightarrow> 'c option"
    and status :: "'c \<Rightarrow> string"
    and reason :: "'c \<Rightarrow> string"
    and message :: "'c \<Rightarrow> string"
    and others :: "'st \<Rightarrow> 'c list"
  assumes get_put: "\<exists>c. get (put t s r m st) = Some c \<and> status c = s \<and> reason c = r \<and> message c = m"
    and others_put: "others (put t s r m st) = others st"
begin

definition shows_as :: "string \<Rightarrow> 'st \<Rightarrow> bool" where
  "shows_as s st \<longleftrightarrow> (\<exists>c. get st = Some c \<and> status c = s)"

lemma shows_as_put [simp]: "shows_as s' (put t s r m st) \<longleftrightarrow> s' = s"
  using get_put [of t s r m st] by (auto simp: shows_as_def)

lemma get_put_put:
  "\<exists>c. get (put t s r m (put t' s' r' m' st)) = Some c \<and> status c = s \<and> message c = m"
  using get_put [of t s r m "put t' s' r' m' st"] by blast

lemma others_put_put: "others (put t s r m (put t' s' r' m' st)) = others st"
  by (simp add: others_put)

end

interpretation ready: condition_store SetReadyCondition GetReadyCondition ic_Status ic_Reason ic_Message
  "\<lambda>st. filter (\<lambda>c. \<not> is_ready_cond c) (is_Conditions st)"
  by unfold_locales
     (auto simp: GetReadyCondition_SetReadyCondition ready_after_def SetReadyCondition_others)

lemma IsReady_shows: "IsReady st = ready.shows_as ConditionTrue st"
  by (auto simp: IsReady_def ready.shows_as_def split: option.splits)

section \<open>Verdicts\<close>

datatype verdict = FirstSeen | Retry go_error | Healthy

primrec verdict_status :: "verdict \<Rightarrow> string" where
  "verdict_status FirstSeen = ConditionUnknown"
| "verdict_status (Retry e) = ConditionFalse"
| "verdict_status Healthy = ConditionTrue"

primrec verdict_error :: "verdict \<Rightarrow> go_error option" where
  "verdict_error FirstSeen = None"
| "verdict_error (Retry e) = Some e"
| "verdict_error Healthy = None"

primrec verdict_message :: "verdict \<Rightarrow> string" where
  "verdict_message FirstSeen = ''First seen''"
| "verdict_message (Retry e) = ''Temporary error. Retrying: '' @ err_text e"
| "verdict_message Healthy = ''Success''"

primrec verdict_requeue :: "verdict \<Rightarrow> duration" where
  "verdict_requeue FirstSeen = 0"
| "verdict_requeue (Retry e) = 0"
| "verdict_requeue Healthy = defaultHealthCheckInterval"

text \<open>Where the secret of an issuer object is looked up.\<close>

definition secret_namespace :: "'h issuer_reconciler \<Rightarrow> namespaced_name \<Rightarrow> client_object \<Rightarrow> string" where
  "secret_namespace r req obj =
     (case obj of ObjIssuer t \<Rightarrow> fst req | _ \<Rightarrow> ir_ClusterResourceNamespace r)"

definition issuer_verdict ::
    "'h issuer_reconciler \<Rightarrow> kube \<Rightarrow> namespaced_name \<Rightarrow> client_object \<Rightarrow> issuer_spec \<Rightarrow> verdict" where
  "issuer_verdict r k req obj spec =
     (if ready_of obj = None then FirstSeen
      else
        let name = (secret_namespace r req obj, is_AuthSecretName spec) in
        case k_get_Secret k name of
          Inl e \<Rightarrow> Retry (secret_error k errGetAuthSecret name e)
        | Inr secret \<Rightarrow>
            (case ir_HealthCheckerBuilder r spec secret of
               Inl e \<Rightarrow> Retry (wrap_colon errHealthCheckerBuilder (err_text e))
             | Inr checker \<Rightarrow>
                 (case ir_Check r checker of
                    Some e \<Rightarrow> Retry (wrap_colon errHealthCheckerCheck (err_text e))
                  | None \<Rightarrow> Healthy)))"

definition verdict_object :: "kube \<Rightarrow> verdict \<Rightarrow> client_object \<Rightarrow> issuer_status \<Rightarrow> client_object" where
  "verdict_object k v obj st =
     put_status obj (SetReadyCondition (k_now k) (verdict_status v) EventReasonIssuerReconciler
       (verdict_message v) st)"

definition verdict_event :: "verdict \<Rightarrow> event" where
  "verdict_event v = \<lparr>ev_type = report_type (verdict_error v),
     ev_reason = EventReasonIssuerReconciler, ev_message = verdict_message v\<rparr>"

lemma GetSpecAndStatus_put [simp]:
  "GetSpecAndStatus obj = Inr (spec, st) \<Longrightarrow> GetSpecAndStatus (put_status obj st') = Inr (spec, st')"
  by (cases obj) (auto simp: GetSpecAndStatus_def put_status_def)

lemma put_status_put [simp]: "put_status (put_status obj st) st' = put_status obj st'"
  by (cases obj) (auto simp: put_status_def)

lemma GetSpecAndStatus_not_other: "GetSpecAndStatus obj = Inr p \<Longrightarrow> obj \<noteq> ObjOther t"
  by (auto simp: GetSpecAndStatus_def)

lemma ready_of_status [simp]:
  "GetSpecAndStatus obj = Inr (spec, st) \<Longrightarrow> ready_of obj = GetReadyCondition st"
  by (simp add: ready_of_def)

lemma report_is_verdict:
  assumes "GetSpecAndStatus obj = Inr (spec, st)"
  shows "issuer_report k (verdict_status v)
      (case v of FirstSeen \<Rightarrow> ''First seen'' | Retry e \<Rightarrow> ''Temporary error. Retrying'' | Healthy \<Rightarrow> ''Success'')
      (verdict_error v) \<lparr>irn_obj = obj, irn_events = []\<rparr>
    = \<lparr>irn_obj = verdict_object k v obj st, irn_events = [verdict_event v]\<rparr>"
  using assms
  by (cases v) (simp_all add: issuer_report_def verdict_object_def verdict_event_def report_message_def Let_def)

definition verdict_outcome :: "kube \<Rightarrow> verdict \<Rightarrow> client_object \<Rightarrow> client_object outcome" where
  "verdict_outcome k v obj' =
     (case k_update_issuer k obj' of
        None \<Rightarrow> \<lparr>oc_RequeueAfter = verdict_requeue v, oc_error = map_option Single (verdict_error v),
                 oc_panic = False, oc_update = Some obj', oc_stored = True,
                 oc_events = [verdict_event v]\<rparr>
      | Some u \<Rightarrow> \<lparr>oc_RequeueAfter = 0, oc_error = Some (Aggregate (verdict_error v) u),
                 oc_panic = False, oc_update = Some obj', oc_stored = False,
                 oc_events = [verdict_event v]\<rparr>)"

lemma body_is_verdict:
  assumes obj: "GetSpecAndStatus obj = Inr (spec, st)"
  shows "issuer_deferred k (issuer_body r k req spec st \<lparr>irn_obj = obj, irn_events = []\<rparr>)
    = verdict_outcome k (issuer_verdict r k req obj spec)
        (verdict_object k (issuer_verdict r k req obj spec) obj st)"
proof (cases "GetReadyCondition st = None")
  case True
  then show ?thesis
    using report_is_verdict [OF obj, of k FirstSeen] obj
    by (simp add: issuer_body_def issuer_deferred_def issuer_verdict_def verdict_outcome_def
          split: option.splits)
next
  case False
  define ns where "ns = secret_namespace r req obj"
  have ns: "(case obj of ObjIssuer t \<Rightarrow> Some (fst req)
              | ObjClusterIssuer t \<Rightarrow> Some (ir_ClusterResourceNamespace r) | ObjOther t \<Rightarrow> None) = Some ns"
    using obj by (cases obj) (auto simp: ns_def secret_namespace_def GetSpecAndStatus_def)
  note retry = report_is_verdict [OF obj, of k "Retry e" for e, simplified]
  note healthy = report_is_verdict [OF obj, of k Healthy, simplified]
  from False obtain c where "GetReadyCondition st = Some c" by auto
  with obj show ?thesis
    by (simp add: issuer_body_def ns issuer_deferred_def issuer_verdict_def ns_def [symmetric]
          verdict_outcome_def retry healthy Let_def split: option.splits sum.splits)
qed

text \<open>The equation all properties of the controller rest on.\<close>

lemma IssuerReconcile_found:
  assumes "newIssuer r k = Ok ro" and "get_object k ro req = Inr obj"
    and "GetSpecAndStatus obj = Inr (spec, st)"
  shows "IssuerReconcile r k req =
    verdict_outcome k (issuer_verdict r k req obj spec)
      (verdict_object k (issuer_verdict r k req obj spec) obj st)"
  using assms by (simp add: IssuerReconcile_def body_is_verdict)

text \<open>When the call reaches the status update, the object was found.\<close>

lemma IssuerReconcile_update:
  assumes "oc_update (IssuerReconcile r k req) = Some obj'"
  obtains ro obj spec st where "newIssuer r k = Ok ro" and "get_object k ro req = Inr obj"
    and "GetSpecAndStatus obj = Inr (spec, st)"
    and "obj' = verdict_object k (issuer_verdict r k req obj spec) obj st"
    and "IssuerReconcile r k req = verdict_outcome k (issuer_verdict r k req obj spec) obj'"
proof -
  from assms obtain ro obj spec st where
    found: "newIssuer r k = Ok ro" "get_object k ro req = Inr obj"
      "GetSpecAndStatus obj = Inr (spec, st)"
    unfolding IssuerReconcile_def
    by (auto split: go_result.splits sum.splits get_error.splits)
  note eq = IssuerReconcile_found [OF found]
  with assms have "obj' = verdict_object k (issuer_verdict r k req obj spec) obj st"
    by (simp add: verdict_outcome_def split: option.splits)
  with found eq that show ?thesis by blast
qed

lemma verdict_object_ready:
  "GetSpecAndStatus obj = Inr (spec, st) \<Longrightarrow>
     ready_of (verdict_object k v obj st) =
       Some (ready_after (k_now k) (verdict_status v) EventReasonIssuerReconciler
         (verdict_message v) (ready_of obj))"
  by (simp add: verdict_object_def ready_of_def GetReadyCondition_SetReadyCondition)

lemma verdict_status_False: "verdict_status v = ConditionFalse \<longleftrightarrow> verdict_error v \<noteq> None"
  by (cases v) (simp_all add: condition_constants)

end
