(* ===== verification/CrLemmas.thy ===== *)
theory CrLemmas
  imports CrController IssuerProps
begin

text \<open>
  The lemma layer of the certificate-request controller. A call of \<open>Reconcile\<close> that reaches the
  status update either hands the request back as it was read and records no event, or sets the
  Ready condition once and records one event. \<open>writes\<close> lists every way it does the latter,
  one rule for each \<open>report\<close> of the source, and \<open>CrReconcile_writes\<close> shows the list complete.
\<close>

section \<open>What the signers of a reconciler can answer\<close>

definition built :: "'w cr_reconciler \<Rightarrow> 'w signer \<Rightarrow> bool" where
  "built r S \<longleftrightarrow> (\<exists>spec secret. rc_SignerBuilder r spec (rc_AuthRealm r) secret = Inr S)"

definition submits :: "'w cr_reconciler \<Rightarrow> bytes \<Rightarrow> string \<Rightarrow> bool" where
  "submits r csr u \<longleftrightarrow> (\<exists>S t w w'. built r S \<and> sg_SubmitCertificateRequest S t csr w = (Ok u, w'))"

definition answers :: "'w cr_reconciler \<Rightarrow> string \<Rightarrow> string \<Rightarrow> string \<Rightarrow> bool" where
  "answers r u resource status \<longleftrightarrow>
     (\<exists>S t w w'. built r S \<and> sg_RequestTaskStatus S t u w = (Ok (resource, status), w'))"

definition fetches :: "'w cr_reconciler \<Rightarrow> string \<Rightarrow> bytes \<Rightarrow> bool" where
  "fetches r u cert \<longleftrightarrow> (\<exists>S t w w'. built r S \<and> sg_FetchCertificate S t u w = (Ok cert, w'))"

section \<open>The writes of a reconciliation\<close>

definition with_certificate :: "golib \<Rightarrow> certificate_request \<Rightarrow> bytes \<Rightarrow> certificate_request" where
  "with_certificate lib cr cert =
     (case extractCAFromPEMBundle lib cert of
        None \<Rightarrow> cr\<lparr>cr_Certificate := cert\<rparr>
      | Some ca \<Rightarrow> cr\<lparr>cr_Certificate := cert, cr_CA := ca\<rparr>)"

definition with_failure_time :: "go_time \<Rightarrow> certificate_request \<Rightarrow> certificate_request" where
  "with_failure_time now cr =
     (if cr_FailureTime cr = None then cr\<lparr>cr_FailureTime := Some now\<rparr> else cr)"

definition poll_url :: "certificate_request \<Rightarrow> string \<Rightarrow> bool" where
  "poll_url cr u \<longleftrightarrow> \<not> IsSigned (cr_Conditions cr) \<and> IsSubmitted (cr_Conditions cr) \<and>
     Option.bind (GetSubmittedCondition (cr_Conditions cr)) message_url = Some u"

definition fetch_url :: "certificate_request \<Rightarrow> string \<Rightarrow> bool" where
  "fetch_url cr u \<longleftrightarrow> IsSigned (cr_Conditions cr) \<and>
     Option.bind (GetSignedCondition (cr_Conditions cr)) message_url = Some u"

inductive writes ::
    "cmutil \<Rightarrow> golib \<Rightarrow> 'w cr_reconciler \<Rightarrow> kube \<Rightarrow> certificate_request \<Rightarrow>
       certificate_request \<Rightarrow> string \<Rightarrow> string \<Rightarrow> go_error option \<Rightarrow> bool"
  for cm lib r k cr where
  denied: "cm_IsDenied cm cr \<Longrightarrow>
    writes cm lib r k cr (with_failure_time (k_now k) cr) cm_Denied
      ''The CertificateRequest was denied by an approval controller'' None"
| init: "\<not> cm_IsDenied cm cr \<Longrightarrow> cm_GetCondition cm cr cm_Ready = None \<Longrightarrow>
    writes cm lib r k cr cr cm_Pending ''Initialising Ready condition'' None"
| unknown_kind: "cm_GetCondition cm cr cm_Ready \<noteq> None \<Longrightarrow> k_scheme_new k (cr_IssuerKind cr) = Inl e \<Longrightarrow>
    writes cm lib r k cr cr cm_Failed ''Unrecognised kind. Ignoring''
      (Some (wrap_colon errIssuerRef ''false''))"
| other_kind: "cm_GetCondition cm cr cm_Ready \<noteq> None \<Longrightarrow>
    k_scheme_new k (cr_IssuerKind cr) = Inr (RtClientObject t) \<Longrightarrow>
    writes cm lib r k cr cr cm_Failed
      ''The issuerRef referred to a registered Kind which is not yet handled. Ignoring''
      (Some (ErrText (''unexpected issuer type: '' @ t)))"
| submitted: "cm_GetCondition cm cr cm_Ready \<noteq> None \<Longrightarrow> \<not> IsSigned (cr_Conditions cr) \<Longrightarrow>
    \<not> IsSubmitted (cr_Conditions cr) \<Longrightarrow> submits r (cr_Request cr) u \<Longrightarrow>
    writes cm lib r k cr cr cm_Pending (status_message IssuerConditionStatusSubmitted u) None"
| processing: "cm_GetCondition cm cr cm_Ready \<noteq> None \<Longrightarrow> poll_url cr u \<Longrightarrow>
    answers r u [] TaskStatusProcessing \<Longrightarrow> \<not> IsProcessing (cr_Conditions cr) \<Longrightarrow>
    writes cm lib r k cr cr cm_Pending (resource_message IssuerConditionStatusProcessing u) None"
| approved: "cm_GetCondition cm cr cm_Ready \<noteq> None \<Longrightarrow> poll_url cr u \<Longrightarrow>
    answers r u [] TaskStatusApproved \<Longrightarrow> \<not> IsApproved (cr_Conditions cr) \<Longrightarrow>
    writes cm lib r k cr cr cm_Pending (resource_message IssuerConditionStatusApproved u) None"
| declined: "cm_GetCondition cm cr cm_Ready \<noteq> None \<Longrightarrow> poll_url cr u \<Longrightarrow>
    answers r u [] TaskStatusDeclined \<Longrightarrow>
    writes cm lib r k cr cr cm_Failed ''Request declined'' None"
| canceled: "cm_GetCondition cm cr cm_Ready \<noteq> None \<Longrightarrow> poll_url cr u \<Longrightarrow>
    answers r u [] TaskStatusCanceled \<Longrightarrow>
    writes cm lib r k cr cr cm_Failed ''Request cancelled'' None"
| failed: "cm_GetCondition cm cr cm_Ready \<noteq> None \<Longrightarrow> poll_url cr u \<Longrightarrow>
    answers r u [] TaskStatusFailed \<Longrightarrow>
    writes cm lib r k cr cr cm_Failed ''Failed in review'' None"
| signed_by_ca: "cm_GetCondition cm cr cm_Ready \<noteq> None \<Longrightarrow> poll_url cr u \<Longrightarrow>
    answers r u v s \<Longrightarrow> v \<noteq> [] \<Longrightarrow>
    writes cm lib r k cr cr cm_Pending (resource_message IssuerConditionStatusSigned v) None"
| issued: "cm_GetCondition cm cr cm_Ready \<noteq> None \<Longrightarrow> fetch_url cr u \<Longrightarrow> fetches r u cert \<Longrightarrow>
    writes cm lib r k cr (with_certificate lib cr cert) cm_Issued ''Signed'' None"
| refused: "cm_GetCondition cm cr cm_Ready \<noteq> None \<Longrightarrow>
    str_contains (err_text e) (err_text errSignerRefused) \<Longrightarrow>
    writes cm lib r k cr cr cm_Pending ''Temporary error. Retrying'' (Some e)"

definition ready_status :: "string \<Rightarrow> string" where
  "ready_status reason = (if reason = cm_Issued then cm_True else cm_False)"

definition cr_event :: "string \<Rightarrow> go_error option \<Rightarrow> event" where
  "cr_event message err = \<lparr>ev_type = report_type err,
     ev_reason = EventReasonCertificateRequestReconciler, ev_message = report_message message err\<rparr>"

definition silent :: "'w cr_run \<Rightarrow> 'w cr_run \<Rightarrow> bool" where
  "silent run run' \<longleftrightarrow> run_cr run' = run_cr run \<and> run_events run' = run_events run"

definition reported ::
    "cmutil \<Rightarrow> certificate_request \<Rightarrow> string \<Rightarrow> string \<Rightarrow> go_error option \<Rightarrow> 'w cr_run \<Rightarrow> 'w cr_run \<Rightarrow> bool" where
  "reported cm base reason message err run run' \<longleftrightarrow>
     run_cr run' = cm_SetCondition cm base cm_Ready (ready_status reason) reason (report_message message err) \<and>
     run_events run' = run_events run @ [cr_event message err]"

text \<open>The body writes once and then returns no error, or is silent.\<close>

definition body_writes ::
    "cmutil \<Rightarrow> golib \<Rightarrow> 'w cr_reconciler \<Rightarrow> kube \<Rightarrow> 'w cr_run \<Rightarrow> body_exit \<times> 'w cr_run \<Rightarrow> bool" where
  "body_writes cm lib r k run res \<longleftrightarrow>
     silent run (snd res) \<or>
     (\<exists>base reason message err requeue. fst res = Return requeue None \<and>
        writes cm lib r k (run_cr run) base reason message err \<and>
        reported cm base reason message err run (snd res))"

lemma reported_report:
  "reported cm base reason message err run (report cm reason message False err (run\<lparr>run_cr := base\<rparr>))"
  "run_cr run = base \<Longrightarrow> reported cm base reason message err run (report cm reason message False err run)"
  by (simp_all add: reported_def report_def cr_event_def ready_status_def Let_def)

lemma after_call_simps [simp]:
  "run_cr (after_call c w run) = run_cr run" "run_events (after_call c w run) = run_events run"
  "run_calls (after_call c w run) = run_calls run @ [c]" "run_world (after_call c w run) = w"
  by (simp_all add: after_call_def)

lemma report_simps [simp]:
  "run_calls (report cm reason message f err run) = run_calls run"
  "run_world (report cm reason message f err run) = run_world run"
  by (simp_all add: report_def Let_def)

lemma silent_refl [simp]: "silent run run"
  by (simp add: silent_def)

lemma silent_after_call [simp]: "silent run (after_call c w run') = silent run run'"
  by (simp add: silent_def)

lemma reported_after_call [simp]:
  "reported cm base reason message err (after_call c w run) run' =
   reported cm base reason message err run run'"
  by (simp add: reported_def)

lemma body_writes_silent: "silent run run' \<Longrightarrow> body_writes cm lib r k run (ex, run')"
  by (simp add: body_writes_def)

lemma body_writes_report:
  "writes cm lib r k (run_cr run) base reason message err \<Longrightarrow>
   reported cm base reason message err run run' \<Longrightarrow>
   body_writes cm lib r k run (Return requeue None, run')"
  by (auto simp: body_writes_def)

lemma body_writes_after_call:
  "body_writes cm lib r k (after_call c w run) res = body_writes cm lib r k run res"
  by (simp add: body_writes_def silent_def)


section \<open>The phases write only what is listed\<close>

lemma submit_phase_writes:
  assumes "built r S" and "cm_GetCondition cm (run_cr run) cm_Ready \<noteq> None"
    and "\<not> IsSigned (cr_Conditions (run_cr run))" and "\<not> IsSubmitted (cr_Conditions (run_cr run))"
  shows "body_writes cm lib r k run (submit_phase cm S token run)"
proof -
  obtain res w where call:
      "sg_SubmitCertificateRequest S token (cr_Request (run_cr run)) (run_world run) = (res, w)"
    by (cases "sg_SubmitCertificateRequest S token (cr_Request (run_cr run)) (run_world run)")
  show ?thesis
  proof (cases res)
    case (Ok u)
    with call assms(1) have "submits r (cr_Request (run_cr run)) u"
      unfolding submits_def by blast
    with assms have "writes cm lib r k (run_cr run) (run_cr run) cm_Pending
        (status_message IssuerConditionStatusSubmitted u) None"
      by (intro writes.submitted)
    with call Ok show ?thesis
      by (simp add: submit_phase_def Let_def)
         (erule body_writes_report,
          simp add: reported_def report_def cr_event_def ready_status_def Let_def after_call_def)
  qed (simp_all add: submit_phase_def call Let_def signer_failed_def body_writes_silent)
qed

text \<open>A poll that comes back with a resource URL and a status, as an equation.\<close>

lemma poll_phase_Ok:
  assumes "sg_RequestTaskStatus S token u (run_world run) = (Ok (v, s), w)"
    and "run1 = after_call (CallStatus token u) w run"
  shows "poll_phase cm S token u run =
      (if v = [] then
        (if s = TaskStatusProcessing \<and> \<not> IsProcessing (cr_Conditions (run_cr run1)) then
           (Return defaultTaskCheckInterval None,
            report cm cm_Pending (resource_message IssuerConditionStatusProcessing u) False None run1)
         else if s = TaskStatusApproved \<and> \<not> IsApproved (cr_Conditions (run_cr run1)) then
           (Return defaultTaskCheckInterval None,
            report cm cm_Pending (resource_message IssuerConditionStatusApproved u) False None run1)
         else if s = TaskStatusDeclined then
           (Return 0 None, report cm cm_Failed ''Request declined'' False None run1)
         else if s = TaskStatusCanceled then
           (Return 0 None, report cm cm_Failed ''Request cancelled'' False None run1)
         else if s = TaskStatusFailed then
           (Return 0 None, report cm cm_Failed ''Failed in review'' False None run1)
         else (Return defaultTaskCheckInterval None, run1))
       else (Return 0 None,
             report cm cm_Pending (resource_message IssuerConditionStatusSigned v) False None run1))"
  unfolding poll_phase_def assms Let_def prod.case go_result.case ..

lemma poll_phase_writes:
  assumes "built r S" and "cm_GetCondition cm (run_cr run) cm_Ready \<noteq> None"
    and "poll_url (run_cr run) u"
  shows "body_writes cm lib r k run (poll_phase cm S token u run)"
proof -
  obtain res w where call: "sg_RequestTaskStatus S token u (run_world run) = (res, w)"
    by (cases "sg_RequestTaskStatus S token u (run_world run)")
  show ?thesis
  proof (cases res)
    case (Ok p)
    obtain v s where p: "p = (v, s)" by (cases p)
    define run1 where "run1 = after_call (CallStatus token u) w run"
    have ans: "answers r u v s"
      using call Ok p assms(1) unfolding answers_def by blast
    have wr: "body_writes cm lib r k run (Return q None, report cm reason m False None run1)"
      if "writes cm lib r k (run_cr run) (run_cr run) reason m None" for q reason m
      using body_writes_report [OF that, of "report cm reason m False None run1" q]
        reported_report(2) [of run1 "run_cr run"] by (simp add: run1_def)
    have quiet: "body_writes cm lib r k run (ex, run1)" for ex
      by (simp add: body_writes_silent run1_def)
    have branch: "body_writes cm lib r k run (if P then a else b)"
      if "P \<Longrightarrow> body_writes cm lib r k run a" and "\<not> P \<Longrightarrow> body_writes cm lib r k run b" for P a b
      using that by simp
    have conds: "cr_Conditions (run_cr run1) = cr_Conditions (run_cr run)" by (simp add: run1_def)
    note eq = poll_phase_Ok [OF call [unfolded Ok p] run1_def]
    show ?thesis
      unfolding eq
      by (intro branch wr quiet; (elim conjE)?)
         (insert ans assms(2,3) conds,
          auto intro: writes.processing writes.approved writes.declined writes.canceled writes.failed
            writes.signed_by_ca simp del: cm_distinct)
  qed (simp_all add: poll_phase_def call Let_def signer_failed_def body_writes_silent)
qed

lemma fetch_phase_writes:
  assumes "built r S" and "cm_GetCondition cm (run_cr run) cm_Ready \<noteq> None"
    and "fetch_url (run_cr run) u"
  shows "body_writes cm lib r k run (fetch_phase cm lib S token u run)"
proof -
  obtain res w where call: "sg_FetchCertificate S token u (run_world run) = (res, w)"
    by (cases "sg_FetchCertificate S token u (run_world run)")
  show ?thesis
  proof (cases res)
    case (Ok cert)
    with call assms(1) have "fetches r u cert" unfolding fetches_def by blast
    with assms have "writes cm lib r k (run_cr run) (with_certificate lib (run_cr run) cert)
        cm_Issued ''Signed'' None"
      by (intro writes.issued)
    then show ?thesis
      by (simp add: fetch_phase_def call Ok Let_def)
         (erule body_writes_report,
          simp add: reported_def report_def cr_event_def ready_status_def Let_def after_call_def
            with_certificate_def split: option.splits)
  qed (simp_all add: fetch_phase_def call Let_def signer_failed_def body_writes_silent)
qed

lemma sign_phase_writes:
  assumes "built r S" and "cm_GetCondition cm (run_cr run) cm_Ready \<noteq> None"
  shows "body_writes cm lib r k run (sign_phase cm lib S token run)"
  unfolding sign_phase_def Let_def
  using fetch_phase_writes [OF assms] poll_phase_writes [OF assms] submit_phase_writes [OF assms]
  by (auto simp: fetch_url_def poll_url_def body_writes_silent split: option.splits)

lemma issuer_phase_writes:
  assumes "cm_GetCondition cm (run_cr run) cm_Ready \<noteq> None" and "\<And>t. issuer \<noteq> ObjOther t"
  shows "body_writes cm lib r k run (issuer_phase cm lib r k ns issuer run)"
proof -
  obtain spec st where obj: "GetSpecAndStatus issuer = Inr (spec, st)"
    using assms(2) by (cases issuer) (auto simp: GetSpecAndStatus_def)
  have sign: "body_writes cm lib r k run (sign_phase cm lib S token (after_call c w run))"
    if "built r S" for S token c w
    using sign_phase_writes [OF that, of cm "after_call c w run" lib k token] assms(1)
    by (simp add: body_writes_after_call)
  have "built r S" if "rc_SignerBuilder r spec (rc_AuthRealm r) secret = Inr S" for S secret
    using that unfolding built_def by blast
  with sign show ?thesis
    by (auto simp: issuer_phase_def obj Let_def body_writes_silent signer_failed_def
        split: sum.splits prod.splits go_result.splits)
qed

lemma get_object_not_other:
  "get_object k RtIssuer n = Inr obj \<Longrightarrow> obj \<noteq> ObjOther t"
  "get_object k RtClusterIssuer n = Inr obj \<Longrightarrow> obj \<noteq> ObjOther t"
  by (auto simp: get_object_def map_sum_def split: sum.splits)

lemma cr_body_writes: "body_writes cm lib r k run (cr_body cm lib r k run)"
proof (cases "cm_IsDenied cm (run_cr run)")
  case True
  have "body_writes cm lib r k run (Return 0 None,
      report cm cm_Denied ''The CertificateRequest was denied by an approval controller'' False None
        (run\<lparr>run_cr := with_failure_time (k_now k) (run_cr run)\<rparr>))"
    by (rule body_writes_report [OF writes.denied [OF True] reported_report(1)])
  with True show ?thesis by (simp add: cr_body_def Let_def with_failure_time_def)
next
  case nd: False
  show ?thesis
  proof (cases "cm_GetCondition cm (run_cr run) cm_Ready = None")
    case True
    have "body_writes cm lib r k run (Return 0 None,
        report cm cm_Pending ''Initialising Ready condition'' False None run)"
      by (rule body_writes_report [OF writes.init [OF nd True] reported_report(2)]) simp
    with nd True show ?thesis by (simp add: cr_body_def Let_def)
  next
    case False
    note unknown = body_writes_report [OF writes.unknown_kind [OF False] reported_report(2)]
    note other = body_writes_report [OF writes.other_kind [OF False] reported_report(2)]
    note phase = issuer_phase_writes [OF False]
    from False obtain c where ready: "cm_GetCondition cm (run_cr run) cm_Ready = Some c" by auto
    show ?thesis
    proof (cases "k_scheme_new k (cr_IssuerKind (run_cr run))")
      case (Inl e)
      with nd ready unknown [OF Inl refl] show ?thesis by (simp add: cr_body_def Let_def)
    next
      case (Inr ro)
      show ?thesis
      proof (cases ro)
        case RtIssuer
        with nd ready Inr show ?thesis
          by (auto simp: cr_body_def Let_def body_writes_silent split: sum.splits
              intro!: phase get_object_not_other(1))
      next
        case RtClusterIssuer
        with nd ready Inr show ?thesis
          by (auto simp: cr_body_def Let_def body_writes_silent split: sum.splits
              intro!: phase get_object_not_other(2))
      next
        case (RtClientObject t)
        with nd ready Inr other [OF Inr [unfolded RtClientObject] refl] show ?thesis
          by (simp add: cr_body_def Let_def)
      next
        case (RtNotClientObject t)
        with nd ready Inr show ?thesis by (simp add: cr_body_def Let_def body_writes_silent)
      qed
    qed
  qed
qed


lemma cr_body_error:
  assumes "fst (cr_body cm lib r k run) = Return q (Some e)"
  shows "cm_GetCondition cm (run_cr run) cm_Ready \<noteq> None"
proof
  assume "cm_GetCondition cm (run_cr run) cm_Ready = None"
  with assms show False by (auto simp: cr_body_def Let_def split: if_splits)
qed

section \<open>The outcome of a reconciliation\<close>

text \<open>What one reconciliation of the request \<open>cr\<close> hands to the status update, and the events it records.\<close>

definition outcome_writes ::
    "cmutil \<Rightarrow> golib \<Rightarrow> 'w cr_reconciler \<Rightarrow> kube \<Rightarrow> certificate_request \<Rightarrow>
       certificate_request \<Rightarrow> event list \<Rightarrow> bool" where
  "outcome_writes cm lib r k cr cr' evs \<longleftrightarrow>
     (cr' = cr \<and> evs = []) \<or>
     (\<exists>base reason message err. writes cm lib r k cr base reason message err \<and>
        cr' = cm_SetCondition cm base cm_Ready (ready_status reason) reason (report_message message err) \<and>
        evs = [cr_event message err])"

text \<open>The run the deferred function hands to the status update.\<close>

definition deferred_run :: "cmutil \<Rightarrow> body_exit \<times> 'w cr_run \<Rightarrow> 'w cr_run" where
  "deferred_run cm br =
     (case fst br of
        Return q (Some e) \<Rightarrow>
          (if str_contains (err_text e) (err_text errSignerRefused)
           then report cm cm_Pending ''Temporary error. Retrying'' False (Some e) (snd br)
           else snd br)
      | _ \<Rightarrow> snd br)"

lemma cr_deferred_simps:
  "oc_update (cr_deferred cm k br) = Some (run_cr (deferred_run cm br))"
  "oc_events (cr_deferred cm k br) = run_events (deferred_run cm br)"
  "oc_calls (cr_deferred cm k br) = run_calls (snd br)"
  "oc_world (cr_deferred cm k br) = run_world (snd br)"
  "oc_panic (cr_deferred cm k br) \<longleftrightarrow> fst br = Unwind"
  "oc_stored (cr_deferred cm k br) \<longleftrightarrow> k_update_cr k (run_cr (deferred_run cm br)) = None"
  by (auto simp: cr_deferred_def deferred_run_def Let_def
      split: prod.splits body_exit.splits option.splits)

lemma deferred_run_writes:
  assumes "run_events run = []"
  shows "outcome_writes cm lib r k (run_cr run)
    (run_cr (deferred_run cm (cr_body cm lib r k run)))
    (run_events (deferred_run cm (cr_body cm lib r k run)))"
proof -
  obtain ex run' where body: "cr_body cm lib r k run = (ex, run')" by (cases "cr_body cm lib r k run")
  have bw: "body_writes cm lib r k run (ex, run')" using cr_body_writes [of cm lib r k run] body by simp
  show ?thesis
  proof (cases "\<exists>q e. ex = Return q (Some e) \<and> str_contains (err_text e) (err_text errSignerRefused)")
    case True
    then obtain q e where ex: "ex = Return q (Some e)"
      and ref: "str_contains (err_text e) (err_text errSignerRefused)" by blast
    have "cm_GetCondition cm (run_cr run) cm_Ready \<noteq> None"
      by (rule cr_body_error [of cm lib r k run q e]) (simp add: body ex)
    then have "writes cm lib r k (run_cr run) (run_cr run) cm_Pending ''Temporary error. Retrying'' (Some e)"
      using ref by (rule writes.refused)
    moreover have "silent run run'" using bw ex by (auto simp: body_writes_def)
    ultimately show ?thesis
      using ref assms unfolding outcome_writes_def
      by (intro disjI2 exI [of _ "run_cr run"] exI [of _ cm_Pending]
            exI [of _ "''Temporary error. Retrying''"] exI [of _ "Some e"])
         (simp add: body ex deferred_run_def silent_def report_def cr_event_def ready_status_def Let_def)
  next
    case False
    then have "deferred_run cm (ex, run') = run'"
      by (auto simp: deferred_run_def split: body_exit.splits option.splits)
    with bw assms show ?thesis
      by (auto simp: body outcome_writes_def body_writes_def silent_def reported_def)
  qed
qed

lemma quiet_return_simps [simp]:
  "oc_update (quiet_return err w) = None" "oc_events (quiet_return err w) = []"
  "oc_calls (quiet_return err w) = []" "oc_world (quiet_return err w) = w"
  "oc_panic (quiet_return err w) = False" "oc_stored (quiet_return err w) = False"
  "oc_error (quiet_return err w) = map_option Single err" "oc_RequeueAfter (quiet_return err w) = 0"
  by (simp_all add: quiet_return_def)

lemma CrReconcile_update:
  assumes "oc_update (CrReconcile cm lib r k req w) = Some cr'"
  obtains cr where "k_get_CertificateRequest k req = Inr cr" and "\<not> cr_ignored cm r cr"
    and "CrReconcile cm lib r k req w = cr_deferred cm k
           (cr_body cm lib r k \<lparr>run_cr = cr, run_events = [], run_calls = [], run_world = w\<rparr>)"
  using assms
  by (auto simp: CrReconcile_def split: sum.splits get_error.splits if_splits)

lemma CrReconcile_writes:
  assumes "oc_update (CrReconcile cm lib r k req w) = Some cr'"
    and "k_get_CertificateRequest k req = Inr cr"
  shows "outcome_writes cm lib r k cr cr' (oc_events (CrReconcile cm lib r k req w))"
proof -
  define run where "run = \<lparr>run_cr = cr, run_events = [], run_calls = [], run_world = w\<rparr>"
  obtain cr0 where "k_get_CertificateRequest k req = Inr cr0"
    and "CrReconcile cm lib r k req w = cr_deferred cm k
           (cr_body cm lib r k \<lparr>run_cr = cr0, run_events = [], run_calls = [], run_world = w\<rparr>)"
    using CrReconcile_update [OF assms(1)] by blast
  with assms(2) have eq: "CrReconcile cm lib r k req w = cr_deferred cm k (cr_body cm lib r k run)"
    by (simp add: run_def)
  with assms(1) have "cr' = run_cr (deferred_run cm (cr_body cm lib r k run))"
    by (simp add: cr_deferred_simps)
  then show ?thesis
    using deferred_run_writes [of run cm lib r k] eq by (simp add: cr_deferred_simps run_def)
qed

end
