(* ===== verification/CrCalls.thy ===== *)
theory CrCalls
  imports CrLemmas
begin

text \<open>
  Which calls a reconciliation makes to the remote service, and what has to hold before it
  makes any.
\<close>

section \<open>Which signer calls are made\<close>

definition next_call :: "string \<Rightarrow> certificate_request \<Rightarrow> signer_call option" where
  "next_call token cr =
     (let conds = cr_Conditions cr in
      if IsSigned conds then
        map_option (CallFetch token) (Option.bind (GetSignedCondition conds) message_url)
      else if IsSubmitted conds then
        map_option (CallStatus token) (Option.bind (GetSubmittedCondition conds) message_url)
      else Some (CallSubmit token (cr_Request cr)))"

lemma submit_phase_calls:
  "run_calls (snd (submit_phase cm S token run)) = run_calls run @ [CallSubmit token (cr_Request (run_cr run))]"
  by (simp add: submit_phase_def Let_def split: prod.splits go_result.splits)

lemma poll_phase_calls:
  "run_calls (snd (poll_phase cm S token u run)) = run_calls run @ [CallStatus token u]"
  by (simp add: poll_phase_def Let_def split: prod.splits go_result.splits)

lemma fetch_phase_calls:
  "run_calls (snd (fetch_phase cm lib S token u run)) = run_calls run @ [CallFetch token u]"
  by (simp add: fetch_phase_def Let_def split: prod.splits go_result.splits)

lemma sign_phase_calls:
  "run_calls (snd (sign_phase cm lib S token run)) =
     run_calls run @ (case next_call token (run_cr run) of None \<Rightarrow> [] | Some c \<Rightarrow> [c])"
  by (simp add: sign_phase_def next_call_def Let_def submit_phase_calls poll_phase_calls
      fetch_phase_calls split: option.splits)

text \<open>
  The gate in front of the remote service: a request that is not denied and has a Ready
  condition, a ready issuer of a kind that is handled, its secret, and a signer built from it.
\<close>

definition issuer_serves :: "'w cr_reconciler \<Rightarrow> kube \<Rightarrow> certificate_request \<Rightarrow> 'w signer \<Rightarrow> bool" where
  "issuer_serves r k cr S \<longleftrightarrow>
     (\<exists>ro ns sns issuer spec st secret.
        k_scheme_new k (cr_IssuerKind cr) = Inr ro \<and>
        ((ro = RtIssuer \<and> ns = cr_Namespace cr \<and> sns = cr_Namespace cr) \<or>
         (ro = RtClusterIssuer \<and> ns = [] \<and> sns = rc_ClusterResourceNamespace r)) \<and>
        get_object k ro (ns, cr_IssuerName cr) = Inr issuer \<and>
        GetSpecAndStatus issuer = Inr (spec, st) \<and> IsReady st \<and>
        k_get_Secret k (sns, is_AuthSecretName spec) = Inr secret \<and>
        rc_SignerBuilder r spec (rc_AuthRealm r) secret = Inr S)"

definition may_sign ::
    "cmutil \<Rightarrow> 'w cr_reconciler \<Rightarrow> kube \<Rightarrow> certificate_request \<Rightarrow> 'w signer \<Rightarrow> bool" where
  "may_sign cm r k cr S \<longleftrightarrow>
     \<not> cm_IsDenied cm cr \<and> cm_GetCondition cm cr cm_Ready \<noteq> None \<and> issuer_serves r k cr S"

text \<open>
  The requests the controller looks at, guard by guard: of its group, with a Ready condition that
  is neither True nor False with reason Failed or Denied, and approved where that is asked for.
\<close>

definition eligible :: "cmutil \<Rightarrow> 'w cr_reconciler \<Rightarrow> certificate_request \<Rightarrow> bool" where
  "eligible cm r cr \<longleftrightarrow> cr_IssuerGroup cr = GroupVersion_Group \<and>
     \<not> cm_HasCondition cm cr cm_Ready cm_True [] \<and> \<not> cm_HasCondition cm cr cm_Ready cm_False cm_Failed \<and>
     \<not> cm_HasCondition cm cr cm_Ready cm_False cm_Denied \<and> (rc_CheckApprovedCondition r \<longrightarrow> cm_IsApproved cm cr)"

lemma eligible_iff: "eligible cm r cr \<longleftrightarrow> \<not> cr_ignored cm r cr"
  by (auto simp: eligible_def cr_ignored_def)

definition token_phase ::
    "cmutil \<Rightarrow> golib \<Rightarrow> 'w signer \<Rightarrow> 'w cr_run \<Rightarrow> body_exit \<times> 'w cr_run" where
  "token_phase cm lib S run =
     (case sg_GetRefreshToken S (run_world run) of (res, w) \<Rightarrow>
      let run = after_call CallToken w run in
      (case res of
         Panic \<Rightarrow> (Unwind, run)
       | Fail err \<Rightarrow> (signer_failed err, run)
       | Ok token \<Rightarrow> sign_phase cm lib S token run))"

lemma cr_body_may_sign:
  assumes "may_sign cm r k (run_cr run) S"
  shows "cr_body cm lib r k run = token_phase cm lib S run"
proof -
  from assms have nd: "\<not> cm_IsDenied cm (run_cr run)"
    and rd: "cm_GetCondition cm (run_cr run) cm_Ready \<noteq> None"
    by (auto simp: may_sign_def)
  from assms show ?thesis
    unfolding may_sign_def issuer_serves_def cr_body_def Let_def if_not_P [OF nd] if_not_P [OF rd]
    by (auto simp: issuer_phase_def token_phase_def Let_def)
qed

lemma issuer_phase_stops:
  assumes "\<And>spec st secret S. GetSpecAndStatus issuer = Inr (spec, st) \<Longrightarrow> IsReady st \<Longrightarrow>
      k_get_Secret k (sns, is_AuthSecretName spec) = Inr secret \<Longrightarrow>
      rc_SignerBuilder r spec (rc_AuthRealm r) secret \<noteq> Inr S"
  shows "run_calls (snd (issuer_phase cm lib r k sns issuer run)) = run_calls run \<and>
         run_world (snd (issuer_phase cm lib r k sns issuer run)) = run_world run"
  using assms
  by (auto simp: issuer_phase_def Let_def split: sum.splits prod.splits)

lemma cr_body_no_sign:
  assumes "\<nexists>S. may_sign cm r k (run_cr run) S"
  shows "run_calls (snd (cr_body cm lib r k run)) = run_calls run \<and>
         run_world (snd (cr_body cm lib r k run)) = run_world run"
proof (cases "cm_IsDenied cm (run_cr run) \<or> cm_GetCondition cm (run_cr run) cm_Ready = None")
  case True
  then show ?thesis by (auto simp: cr_body_def Let_def)
next
  case False
  then have nd: "\<not> cm_IsDenied cm (run_cr run)"
    and rd: "cm_GetCondition cm (run_cr run) cm_Ready \<noteq> None"
    by auto
  have stop: "run_calls (snd (issuer_phase cm lib r k sns issuer run)) = run_calls run \<and>
         run_world (snd (issuer_phase cm lib r k sns issuer run)) = run_world run"
    if "k_scheme_new k (cr_IssuerKind (run_cr run)) = Inr ro"
      and "get_object k ro (ns, cr_IssuerName (run_cr run)) = Inr issuer"
      and "(ro = RtIssuer \<and> ns = cr_Namespace (run_cr run) \<and> sns = cr_Namespace (run_cr run)) \<or>
           (ro = RtClusterIssuer \<and> ns = [] \<and> sns = rc_ClusterResourceNamespace r)"
    for ro ns sns issuer
    by (rule issuer_phase_stops) (use that assms nd rd in \<open>unfold may_sign_def issuer_serves_def, blast\<close>)
  show ?thesis
    unfolding cr_body_def Let_def if_not_P [OF nd] if_not_P [OF rd]
    by (auto split: sum.splits runtime_object.splits dest: stop)
qed

lemma token_phase_calls:
  "run_calls (snd (token_phase cm lib S run)) = run_calls run @ CallToken #
     (case fst (sg_GetRefreshToken S (run_world run)) of
        Ok token \<Rightarrow> (case next_call token (run_cr run) of None \<Rightarrow> [] | Some c \<Rightarrow> [c])
      | _ \<Rightarrow> [])"
  by (simp add: token_phase_def Let_def sign_phase_calls split: prod.splits go_result.splits)

text \<open>The calls of a whole reconciliation.\<close>

lemma CrReconcile_calls:
  assumes "oc_calls (CrReconcile cm lib r k req w) \<noteq> []"
  obtains cr S where "k_get_CertificateRequest k req = Inr cr" and "\<not> cr_ignored cm r cr"
    and "may_sign cm r k cr S"
    and "oc_calls (CrReconcile cm lib r k req w) = CallToken #
          (case fst (sg_GetRefreshToken S w) of
             Ok token \<Rightarrow> (case next_call token cr of None \<Rightarrow> [] | Some c \<Rightarrow> [c]) | _ \<Rightarrow> [])"
proof -
  from assms obtain cr where get: "k_get_CertificateRequest k req = Inr cr"
    and ni: "\<not> cr_ignored cm r cr"
    by (auto simp: CrReconcile_def split: sum.splits get_error.splits if_splits)
  define run where "run = \<lparr>run_cr = cr, run_events = [], run_calls = [], run_world = w\<rparr>"
  have run_simps: "run_cr run = cr" "run_calls run = []" "run_world run = w"
    by (simp_all add: run_def)
  have eq: "CrReconcile cm lib r k req w = cr_deferred cm k (cr_body cm lib r k run)"
    using get ni by (simp add: CrReconcile_def run_def)
  show thesis
  proof (cases "\<exists>S. may_sign cm r k (run_cr run) S")
    case True
    then obtain S where S: "may_sign cm r k (run_cr run) S" by blast
    then have "may_sign cm r k cr S" by (simp add: run_def)
    moreover have "oc_calls (CrReconcile cm lib r k req w) = CallToken #
          (case fst (sg_GetRefreshToken S w) of
             Ok token \<Rightarrow> (case next_call token cr of None \<Rightarrow> [] | Some c \<Rightarrow> [c]) | _ \<Rightarrow> [])"
      unfolding eq cr_deferred_simps cr_body_may_sign [OF S] token_phase_calls run_simps by simp
    ultimately show thesis using get ni that by blast
  next
    case False
    with cr_body_no_sign [of cm r k run lib] have "run_calls (snd (cr_body cm lib r k run)) = []"
      by (simp add: run_def)
    with assms show thesis by (simp add: eq cr_deferred_simps)
  qed
qed

lemma CrReconcile_world:
  assumes "oc_calls (CrReconcile cm lib r k req w) = []"
  shows "oc_world (CrReconcile cm lib r k req w) = w"
proof (cases "k_get_CertificateRequest k req")
  case (Inl e)
  then show ?thesis by (auto simp: CrReconcile_def split: get_error.splits)
next
  case (Inr cr)
  define run where "run = \<lparr>run_cr = cr, run_events = [], run_calls = [], run_world = w\<rparr>"
  show ?thesis
  proof (cases "cr_ignored cm r cr")
    case True
    with Inr show ?thesis by (simp add: CrReconcile_def)
  next
    case False
    then have eq: "CrReconcile cm lib r k req w = cr_deferred cm k (cr_body cm lib r k run)"
      using Inr by (simp add: CrReconcile_def run_def)
    show ?thesis
    proof (cases "\<exists>S. may_sign cm r k (run_cr run) S")
      case True
      then obtain S where S: "may_sign cm r k (run_cr run) S" by blast
      with assms show ?thesis
        by (simp add: eq cr_deferred_simps cr_body_may_sign [OF S] token_phase_calls)
    next
      case False
      with cr_body_no_sign [of cm r k run lib] show ?thesis
        by (simp add: eq cr_deferred_simps run_def)
    qed
  qed
qed

end
