(* ===== verification/GoJsonProps.thy ===== *)
theory GoJsonProps
  imports GoJson "HOL-Library.Multiset"
begin

text \<open>
  What \<open>Marshal\<close> writes is read back: strings up to the replacement of bytes that are not UTF-8,
  and values without numbers whose nesting is within the parser's limit.
\<close>

section \<open>Strings\<close>

lemma prepend_prepend [simp]: "prepend a (prepend b x) = prepend (a @ b) x"
  by (cases x) (auto simp: prepend_def)

lemma prepend_result [simp]: "prepend a (Some (b, r)) = Some (a @ b, r)"
  by (simp add: prepend_def)

lemma prepend_Nil [simp]: "prepend [] x = x"
  by (cases x) (auto simp: prepend_def)

lemma hex_recompose:
  assumes "u < 65536"
  shows "(u div 4096 mod 16) * 4096 + (u div 256 mod 16) * 256 + (u div 16 mod 16) * 16 + u mod 16 = (u :: nat)"
proof -
  have d: "u div 256 = u div 16 div 16" "u div 4096 = u div 16 div 16 div 16"
    by (simp_all add: div_mult2_eq [symmetric])
  have "u div 16 div 16 div 16 mod 16 = u div 16 div 16 div 16"
    using assms by (simp add: div_mult2_eq [symmetric])
  then show ?thesis
    unfolding d using mult_div_mod_eq [of 16 u] mult_div_mod_eq [of 16 "u div 16"]
      mult_div_mod_eq [of 16 "u div 16 div 16"] by linarith
qed

lemma hex4_digits:
  "u < 65536 \<Longrightarrow> hex4 (map (\<lambda>d. hex_digit (u div d mod 16)) [4096, 256, 16, 1] @ t) = Some (u, t)"
  using hex_recompose [of u] by (simp add: hex_value_digit)

lemma lex_string_escape_u:
  assumes "u < 65536" and "u < 0xD800 \<or> 0xDFFF < u"
  shows "lex_string (escape_u u @ t) = prepend (utf8_encode u) (lex_string t)"
proof -
  have "unescape_u (map (\<lambda>d. hex_digit (u div d mod 16)) [4096, 256, 16, 1] @ t) = Some (utf8_encode u, t)"
    using assms(2) unfolding unescape_u_def hex4_digits [OF assms(1)] by simp
  then show ?thesis by (simp add: escape_u_def unescape_def)
qed

lemma utf8_encode_ascii: "of_char c < (128 :: nat) \<Longrightarrow> utf8_encode (of_char c) = [c]"
  by (simp add: utf8_encode_def)

lemma char_nat: "of_char c = (n :: nat) \<Longrightarrow> c = char_of n"
  by auto

lemma lex_string_escape_ascii:
  assumes "of_char c < (128 :: nat)"
  shows "lex_string (escape_ascii c @ t) = prepend [c] (lex_string t)"
proof -
  define n :: nat where "n = of_char c"
  have c: "c = char_of n" by (simp add: n_def)
  consider "c = CHR 0x22 \<or> c = CHR 0x5C" | "n \<in> {8, 12, 10, 13, 9}"
    | "c \<noteq> CHR 0x22" "c \<noteq> CHR 0x5C" "n \<notin> {8, 12, 10, 13, 9}" "n < 32 \<or> c \<in> {CHR ''<'', CHR ''>'', CHR ''&''}"
    | "c \<noteq> CHR 0x22" "c \<noteq> CHR 0x5C" "\<not> n < 32" "c \<notin> {CHR ''<'', CHR ''>'', CHR ''&''}"
    by blast
  then show ?thesis
  proof cases
    case 1
    then show ?thesis by (auto simp: escape_ascii_def unescape_def)
  next
    case 2
    then have "c \<in> {CHR 0x08, CHR 0x0C, CHR 0x0A, CHR 0x0D, CHR 0x09}"
      unfolding c by (auto simp: char_of_eq_iff)
    then show ?thesis by (auto simp: escape_ascii_def unescape_def)
  next
    case 3
    then have "escape_ascii c = escape_u n" by (simp add: escape_ascii_def n_def [symmetric] Let_def)
    then show ?thesis using lex_string_escape_u [of n t] assms utf8_encode_ascii [OF assms] by (simp add: n_def)
  next
    case 4
    then have "escape_ascii c = [c]" by (simp add: escape_ascii_def n_def [symmetric] Let_def)
    then show ?thesis using 4 rune_rest_ascii [OF assms, of t] by (simp add: n_def)
  qed
qed

lemma separators_encode:
  "utf8_encode 0x2028 = line_separator" "utf8_encode 0x2029 = paragraph_separator"
  by (simp_all add: utf8_encode_def line_separator_def paragraph_separator_def char_of_eq_iff)

lemma lex_string_rune:
  assumes "rune_rest c s = Some n" and "0 < n"
  shows "lex_string (escape_rune (c # take n s) @ t) = prepend (c # take n s) (lex_string t)"
proof -
  have big: "\<not> of_char c < (128 :: nat)"
    using assms rune_rest_ascii [of c s] by auto
  then have c: "c \<noteq> CHR 0x22" "c \<noteq> CHR 0x5C" "\<not> of_char c < (32 :: nat)" by auto
  have len: "length (take n s) = n" using rune_rest_le [OF assms(1)] by simp
  consider "c # take n s = line_separator" | "c # take n s = paragraph_separator"
    | "c # take n s \<noteq> line_separator" "c # take n s \<noteq> paragraph_separator" by blast
  then show ?thesis
  proof cases
    case 1
    then show ?thesis by (simp add: escape_rune_def lex_string_escape_u separators_encode)
  next
    case 2
    then show ?thesis
      by (simp add: escape_rune_def lex_string_escape_u separators_encode)
  next
    case 3
    then have "escape_rune (c # take n s) = c # take n s" by (simp add: escape_rune_def)
    then show ?thesis using c rune_rest_own [OF assms(1), of t] len by simp
  qed
qed

lemma lex_string_escape:
  "lex_string (json_escape s @ CHR 0x22 # t) = Some (to_valid_utf8 s, t)"
proof (induction s rule: json_escape.induct)
  case 1
  then show ?case by simp
next
  case (2 c s)
  show ?case
  proof (cases "rune_rest c s")
    case None
    then show ?thesis
      using "2.IH"(1) [OF None] lex_string_escape_u [of "0xFFFD" "json_escape s @ CHR 0x22 # t"]
      by (simp add: replacement_encode)
  next
    case (Some n)
    show ?thesis
    proof (cases "n = 0")
      case True
      with Some have "of_char c < (128 :: nat)" by (simp add: rune_rest_0_iff)
      with Some True "2.IH"(2) [OF Some] show ?thesis by (simp add: lex_string_escape_ascii)
    next
      case False
      with Some "2.IH"(2) [OF Some] show ?thesis by (simp add: lex_string_rune)
    qed
  qed
qed

section \<open>Values\<close>

text \<open>No numbers, whose text the lexer would join with digits that follow.\<close>

fun json_plain :: "json \<Rightarrow> bool" where
  "json_plain (JNum n) = False"
| "json_plain (JArr vs) = list_all json_plain vs"
| "json_plain (JObj ms) = list_all (\<lambda>(k, v). json_plain v) ms"
| "json_plain j = True"

fun json_depth :: "json \<Rightarrow> nat" where
  "json_depth (JArr vs) = Suc (Max (insert 0 (json_depth ` set vs)))"
| "json_depth (JObj ms) = Suc (Max (insert 0 ((\<lambda>(k, v). json_depth v) ` set ms)))"
| "json_depth j = 0"

text \<open>The value with the strings a reader sees.\<close>

fun json_utf8 :: "json \<Rightarrow> json" where
  "json_utf8 (JStr s) = JStr (to_valid_utf8 s)"
| "json_utf8 (JArr vs) = JArr (map json_utf8 vs)"
| "json_utf8 (JObj ms) = JObj (map (\<lambda>(k, v). (to_valid_utf8 k, json_utf8 v)) ms)"
| "json_utf8 j = j"

fun comma_tokens :: "json_token list list \<Rightarrow> json_token list" where
  "comma_tokens [] = []"
| "comma_tokens [x] = x"
| "comma_tokens (x # xs) = x @ Comma # comma_tokens xs"

fun json_tokens :: "json \<Rightarrow> json_token list" where
  "json_tokens (JStr s) = [Atom (JStr (to_valid_utf8 s))]"
| "json_tokens (JArr vs) = BeginArr # comma_tokens (map json_tokens vs) @ [EndArr]"
| "json_tokens (JObj ms) =
     BeginObj # comma_tokens (map (\<lambda>(k, v). Atom (JStr (to_valid_utf8 k)) # Colon # json_tokens v) ms) @ [EndObj]"
| "json_tokens j = [Atom j]"

lemma json_lex_punctuation [simp]:
  "json_lex (CHR ''{'' # s) = map_option (Cons BeginObj) (json_lex s)"
  "json_lex (CHR ''}'' # s) = map_option (Cons EndObj) (json_lex s)"
  "json_lex (CHR ''['' # s) = map_option (Cons BeginArr) (json_lex s)"
  "json_lex (CHR '']'' # s) = map_option (Cons EndArr) (json_lex s)"
  "json_lex (CHR '':'' # s) = map_option (Cons Colon) (json_lex s)"
  "json_lex (CHR '','' # s) = map_option (Cons Comma) (json_lex s)"
  by (simp_all add: json_lex.simps(2) json_space_def lex_token_def)

lemma json_lex_quote [simp]:
  "json_lex (json_quote s @ t) = map_option (Cons (Atom (JStr (to_valid_utf8 s)))) (json_lex t)"
  by (simp add: json_quote_def json_lex.simps(2) json_space_def lex_token_def lex_string_escape)

lemma json_lex_words [simp]:
  "json_lex (CHR ''n'' # CHR ''u'' # CHR ''l'' # CHR ''l'' # t) = map_option (Cons (Atom JNull)) (json_lex t)"
  "json_lex (CHR ''t'' # CHR ''r'' # CHR ''u'' # CHR ''e'' # t) = map_option (Cons (Atom (JBool True))) (json_lex t)"
  "json_lex (CHR ''f'' # CHR ''a'' # CHR ''l'' # CHR ''s'' # CHR ''e'' # t) =
     map_option (Cons (Atom (JBool False))) (json_lex t)"
  by (simp_all add: json_lex.simps(2) json_space_def lex_token_def lex_word_def)

lemma map_option_append: "map_option ((@) a) (map_option ((@) b) x) = map_option ((@) (a @ b)) x"
  by (cases x) auto

lemma json_lex_commas:
  assumes "\<And>x t. x \<in> set xs \<Longrightarrow> json_lex (f x @ t) = map_option ((@) (g x)) (json_lex t)"
  shows "json_lex (commas (map f xs) @ t) = map_option ((@) (comma_tokens (map g xs))) (json_lex t)"
  using assms
proof (induction xs)
  case Nil
  then show ?case by (simp add: option.map_ident)
next
  case (Cons x xs)
  then show ?case
    by (cases xs) (auto simp: option.map_comp o_def)
qed

lemma json_lex_print:
  "json_plain v \<Longrightarrow> json_lex (json_print v @ t) = map_option ((@) (json_tokens v)) (json_lex t)"
proof (induction v arbitrary: t)
  case (JArr vs)
  then have "json_lex (commas (map json_print vs) @ t) =
      map_option ((@) (comma_tokens (map json_tokens vs))) (json_lex t)" for t
    by (intro json_lex_commas) (simp add: list_all_iff)
  then show ?case by (simp add: option.map_comp o_def)
next
  case (JObj ms)
  have "json_lex (json_print v @ t) = map_option ((@) (json_tokens v)) (json_lex t)"
    if "(k, v) \<in> set ms" for k v t
    using JObj.IH [OF that, of v t] JObj.prems that by (auto simp: list_all_iff)
  then have "json_lex (commas (map (\<lambda>(k, v). json_quote k @ CHR '':'' # json_print v) ms) @ t) =
      map_option ((@) (comma_tokens (map (\<lambda>(k, v). Atom (JStr (to_valid_utf8 k)) # Colon # json_tokens v) ms)))
        (json_lex t)" for t
    by (intro json_lex_commas) (auto simp: option.map_comp o_def intro!: option.map_cong)
  then show ?case by (simp add: option.map_comp o_def)
qed (auto simp: option.map_comp o_def intro!: option.map_cong)

text \<open>The tokens of a value, read where a value may begin, complete it.\<close>

lemma json_tokens_first:
  "\<exists>t ts. json_tokens v = t # ts \<and> t \<noteq> EndArr \<and> t \<noteq> EndObj"
  by (cases v) auto

lemma json_run_first_item:
  "json_run FirstItem st (json_tokens v @ ts) = json_run Value (InArr [] # st) (json_tokens v @ ts)"
  using json_tokens_first [of v] by auto

lemma json_run_items:
  assumes "\<And>v st ts. v \<in> set vs \<Longrightarrow> length st + json_depth v \<le> maxNestingDepth \<Longrightarrow>
      json_run Value st (json_tokens v @ ts) = json_run (Complete (json_utf8 v)) st ts"
    and "\<And>v. v \<in> set vs \<Longrightarrow> Suc (length st) + json_depth v \<le> maxNestingDepth" and "vs \<noteq> []"
  shows "json_run Value (InArr acc # st) (comma_tokens (map json_tokens vs) @ EndArr # ts) =
    json_run (Complete (JArr (rev acc @ map json_utf8 vs))) st ts"
  using assms
proof (induction vs arbitrary: acc)
  case Nil
  then show ?case by simp
next
  case (Cons v vs)
  have v: "json_run Value (InArr acc # st) (json_tokens v @ ts') =
      json_run (Complete (json_utf8 v)) (InArr acc # st) ts'" for ts'
    using Cons.prems(1) [of v "InArr acc # st" ts'] Cons.prems(2) [of v] by simp
  show ?case
  proof (cases vs)
    case Nil
    then show ?thesis using v by (simp add: after_value_def)
  next
    case (Cons w ws)
    then show ?thesis
      using v Cons.IH [of "json_utf8 v # acc"] Cons.prems(1,2) by (simp add: after_value_def)
  qed
qed

lemma json_run_members:
  assumes "\<And>k v st ts. (k, v) \<in> set ms \<Longrightarrow> length st + json_depth v \<le> maxNestingDepth \<Longrightarrow>
      json_run Value st (json_tokens v @ ts) = json_run (Complete (json_utf8 v)) st ts"
    and "\<And>k v. (k, v) \<in> set ms \<Longrightarrow> Suc (length st) + json_depth v \<le> maxNestingDepth" and "ms \<noteq> []"
  shows "json_run (NextKey acc) st (comma_tokens (map (\<lambda>(k, v). Atom (JStr (to_valid_utf8 k)) # Colon # json_tokens v) ms)
      @ EndObj # ts) =
    json_run (Complete (JObj (rev acc @ map (\<lambda>(k, v). (to_valid_utf8 k, json_utf8 v)) ms))) st ts"
  using assms
proof (induction ms arbitrary: acc)
  case Nil
  then show ?case by simp
next
  case (Cons m ms)
  obtain k v where m: "m = (k, v)" by (cases m)
  have v: "json_run Value (InObj acc k' # st) (json_tokens v @ ts') =
      json_run (Complete (json_utf8 v)) (InObj acc k' # st) ts'" for k' ts'
    using Cons.prems(1) [of k v "InObj acc k' # st" ts'] Cons.prems(2) [of k v] by (simp add: m)
  show ?case
  proof (cases ms)
    case Nil
    then show ?thesis using v by (simp add: after_value_def read_key_def m)
  next
    case (Cons w ws)
    have "json_run (NextKey ((to_valid_utf8 k, json_utf8 v) # acc)) st
        (comma_tokens (map (\<lambda>(k, v). Atom (JStr (to_valid_utf8 k)) # Colon # json_tokens v) ms) @ EndObj # ts) =
      json_run (Complete (JObj (rev ((to_valid_utf8 k, json_utf8 v) # acc) @
        map (\<lambda>(k, v). (to_valid_utf8 k, json_utf8 v)) ms))) st ts"
    proof (rule Cons.IH)
      show "json_run Value st (json_tokens v' @ ts) = json_run (Complete (json_utf8 v')) st ts"
        if "(k', v') \<in> set ms" "length st + json_depth v' \<le> maxNestingDepth" for k' v' st ts
        by (rule Cons.prems(1) [of k']) (use that in auto)
      show "Suc (length st) + json_depth v' \<le> maxNestingDepth" if "(k', v') \<in> set ms" for k' v'
        by (rule Cons.prems(2) [of k']) (use that in auto)
    qed (simp add: Cons)
    then show ?thesis using v by (simp add: after_value_def read_key_def m Cons)
  qed
qed

lemma json_run_value:
  "json_plain v \<Longrightarrow> length st + json_depth v \<le> maxNestingDepth \<Longrightarrow>
     json_run Value st (json_tokens v @ ts) = json_run (Complete (json_utf8 v)) st ts"
proof (induction v arbitrary: st ts)
  case (JArr vs)
  have depth: "Suc (length st) + json_depth v \<le> maxNestingDepth" if "v \<in> set vs" for v
  proof -
    have "json_depth v \<le> Max (insert 0 (json_depth ` set vs))" using that by (intro Max_ge) auto
    with JArr.prems(2) show ?thesis by simp
  qed
  have open_arr: "length st < maxNestingDepth" using JArr.prems(2) by simp
  show ?case
  proof (cases vs)
    case Nil
    then show ?thesis using open_arr by (simp add: begin_value_def)
  next
    case (Cons w ws)
    have "json_run FirstItem st (comma_tokens (map json_tokens vs) @ EndArr # ts) =
        json_run Value (InArr [] # st) (comma_tokens (map json_tokens vs) @ EndArr # ts)"
      unfolding Cons using json_run_first_item [of st w] by (cases ws) auto
    also have "\<dots> = json_run (Complete (JArr (rev [] @ map json_utf8 vs))) st ts"
    proof (rule json_run_items)
      show "json_run Value st (json_tokens v @ ts) = json_run (Complete (json_utf8 v)) st ts"
        if "v \<in> set vs" "length st + json_depth v \<le> maxNestingDepth" for v st ts
        by (rule JArr.IH) (use that JArr.prems(1) in \<open>auto simp: list_all_iff\<close>)
    qed (use depth Cons in auto)
    finally show ?thesis using open_arr by (simp add: begin_value_def)
  qed
next
  case (JObj ms)
  have depth: "Suc (length st) + json_depth v \<le> maxNestingDepth" if "(k, v) \<in> set ms" for k v
  proof -
    have "json_depth v \<le> Max (insert 0 ((\<lambda>(k, v). json_depth v) ` set ms))"
      using that by (intro Max_ge) force+
    with JObj.prems(2) show ?thesis by simp
  qed
  have open_obj: "length st < maxNestingDepth" using JObj.prems(2) by simp
  show ?case
  proof (cases ms)
    case Nil
    then show ?thesis using open_obj by (simp add: begin_value_def)
  next
    case (Cons w ws)
    let ?toks = "comma_tokens (map (\<lambda>(k, v). Atom (JStr (to_valid_utf8 k)) # Colon # json_tokens v) ms)"
    have "json_run FirstKey st (?toks @ EndObj # ts) = json_run (NextKey []) st (?toks @ EndObj # ts)"
      unfolding Cons by (cases w; cases ws) (auto simp: read_key_def)
    also have "\<dots> = json_run (Complete (JObj (rev [] @ map (\<lambda>(k, v). (to_valid_utf8 k, json_utf8 v)) ms))) st ts"
    proof (rule json_run_members)
      show "json_run Value st (json_tokens v @ ts) = json_run (Complete (json_utf8 v)) st ts"
        if "(k, v) \<in> set ms" "length st + json_depth v \<le> maxNestingDepth" for k v st ts
        by (rule JObj.IH [OF that(1)]) (use that JObj.prems(1) in \<open>auto simp: list_all_iff\<close>)
    qed (use depth Cons in auto)
    finally show ?thesis using open_obj by (simp add: begin_value_def)
  qed
qed (simp_all add: begin_value_def)

lemma json_parse_print:
  assumes "json_plain v" and "json_depth v \<le> maxNestingDepth"
  shows "json_parse (json_print v) = Some (json_utf8 v)"
  using json_lex_print [OF assms(1), of "[]"] json_run_value [OF assms(1), of "[]" "[]"] assms(2)
  by (simp add: json_parse_def)

section \<open>Sorted members\<close>

lemma sort_members_plain: "json_plain (sort_members v) \<longleftrightarrow> json_plain v"
proof (induction v)
  case (JObj ms)
  have "json_plain (sort_members v) \<longleftrightarrow> json_plain v" if "(k, v) \<in> set ms" for k v
    using JObj.IH [OF that, of v] by simp
  then show ?case by (auto simp: list_all_iff)
qed (auto simp: list_all_iff)

lemma sort_members_depth: "json_depth (sort_members v) = json_depth v"
proof (induction v)
  case (JArr vs)
  then have "json_depth ` sort_members ` set vs = json_depth ` set vs" by (force simp: image_image)
  then show ?case by simp
next
  case (JObj ms)
  have "json_depth (sort_members v) = json_depth v" if "(k, v) \<in> set ms" for k v
    using JObj.IH [OF that, of v] by simp
  then have "(\<lambda>(k, v). json_depth v) ` (\<lambda>(k, v). (k, sort_members v)) ` set ms = (\<lambda>(k, v). json_depth v) ` set ms"
    by (force simp: image_image)
  then show ?case by simp
qed simp_all

lemma json_parse_marshal:
  "json_plain v \<Longrightarrow> json_depth v \<le> maxNestingDepth \<Longrightarrow>
     json_parse (json_marshal v) = Some (json_utf8 (sort_members v))"
  by (simp add: json_marshal_def json_parse_print sort_members_plain sort_members_depth)

text \<open>No numbers, no number out of range.\<close>

lemma json_plain_fits: "json_plain v \<Longrightarrow> json_floats_fit v"
proof (induction v)
  case (JObj ms)
  have "json_floats_fit v" if "(k, v) \<in> set ms" for k v
    using JObj.IH [OF that, of v] JObj.prems that by (auto simp: list_all_iff)
  then show ?case by (auto simp: list_all_iff)
qed (auto simp: list_all_iff)

lemma json_utf8_plain: "json_plain (json_utf8 v) \<longleftrightarrow> json_plain v"
proof (induction v)
  case (JObj ms)
  have "json_plain (json_utf8 v) \<longleftrightarrow> json_plain v" if "(k, v) \<in> set ms" for k v
    using JObj.IH [OF that, of v] by simp
  then show ?case by (auto simp: list_all_iff)
qed (auto simp: list_all_iff)

lemma map_of_same_set:
  "distinct (map fst xs) \<Longrightarrow> distinct (map fst ys) \<Longrightarrow> set xs = set ys \<Longrightarrow> map_of xs = map_of ys"
  by (simp add: map_of_inject_set)

text \<open>An object with distinct keys that are UTF-8 comes back as the same map.\<close>

lemma unmarshal_marshal_map:
  assumes "distinct (map fst ms)" and "list_all (\<lambda>(k, v). utf8_valid k) ms"
    and "json_plain (JObj ms)" and "json_depth (JObj ms) \<le> maxNestingDepth"
  shows "\<exists>j. json_parse (json_marshal (JObj ms)) = Some j \<and>
    unmarshal_map j = Some (\<lambda>k. map_option (\<lambda>v. json_utf8 (sort_members v)) (map_of ms k))"
proof -
  define ms' where "ms' = sort_key fst (map (\<lambda>(k, v). (k, sort_members v)) ms)"
  have fst_ms: "map fst (map (\<lambda>(k, v). (k, sort_members v)) ms) = map fst ms" by auto
  have keys: "utf8_valid k" if "(k, v) \<in> set ms'" for k v
    using that assms(2) by (auto simp: ms'_def list_all_iff)
  have "mset (map fst ms') = image_mset fst (mset (map (\<lambda>(k, v). (k, sort_members v)) ms))"
    unfolding ms'_def mset_map [of fst] mset_sort ..
  also have "\<dots> = mset (map fst ms)"
    by (simp only: mset_map [symmetric] fst_ms)
  finally have "mset (map fst ms') = mset (map fst ms)" .
  then have "distinct (map fst ms')" using assms(1) mset_eq_imp_distinct_iff by blast
  then have dist: "distinct (map fst (map (\<lambda>(k, v). (k, json_utf8 v)) ms'))"
    by (simp add: case_prod_unfold o_def)
  have "map (\<lambda>(k, v). (to_valid_utf8 k, json_utf8 v)) ms' = map (\<lambda>(k, v). (k, json_utf8 v)) ms'"
    by (rule map_cong) (auto simp: to_valid_utf8_valid dest: keys)
  then have utf8: "json_utf8 (sort_members (JObj ms)) = JObj (map (\<lambda>(k, v). (k, json_utf8 v)) ms')"
    by (simp add: ms'_def)
  have "map_of (rev (map (\<lambda>(k, v). (k, json_utf8 v)) ms')) = map_of (map (\<lambda>(k, v). (k, json_utf8 (sort_members v))) ms)"
    by (rule map_of_same_set)
       (use dist assms(1) in \<open>auto simp: ms'_def rev_map [symmetric] case_prod_unfold o_def distinct_map image_image\<close>)
  moreover have "json_floats_fit (json_utf8 (sort_members (JObj ms)))"
    by (rule json_plain_fits) (simp only: json_utf8_plain sort_members_plain assms(3))
  ultimately have "unmarshal_map (json_utf8 (sort_members (JObj ms))) =
      Some (map_of (map (\<lambda>(k, v). (k, json_utf8 (sort_members v))) ms))"
    unfolding utf8 by (simp add: unmarshal_map_def)
  then show ?thesis
    using json_parse_marshal [OF assms(3,4)] by (simp add: map_of_map o_def fun_eq_iff)
qed

end
