(* ===== verification/SignerProps.thy ===== *)
theory SignerProps
  imports Signer GoJsonProps
begin

text \<open>
  What the client of the remote service promises. \<open>signer_contract\<close> is the interface the
  certificate-request controller relies on, and \<open>essendi\<close> is its interpretation on the
  program's own signer, for every library, network and issuer.
\<close>

section \<open>The contract of a signer\<close>

locale signer_contract =
  fixes build :: "'w signer_builder"
  assumes submit_nonempty: "build spec realm secret = Inr S \<Longrightarrow>
      sg_SubmitCertificateRequest S t csr w = (Ok u, w') \<Longrightarrow> u \<noteq> []"
    and fetch_nonempty: "build spec realm secret = Inr S \<Longrightarrow>
      sg_FetchCertificate S t u w = (Ok cert, w') \<Longrightarrow> cert \<noteq> []"
    and token_total: "build spec realm secret = Inr S \<Longrightarrow> fst (sg_GetRefreshToken S w) \<noteq> Panic"
    and submit_total: "build spec realm secret = Inr S \<Longrightarrow>
      fst (sg_SubmitCertificateRequest S t csr w) \<noteq> Panic"
    and status_total: "build spec realm secret = Inr S \<Longrightarrow> fst (sg_RequestTaskStatus S t u w) \<noteq> Panic"
begin

lemmas never_panic = token_total submit_total status_total

end

section \<open>Lemmas on the program's signer\<close>

lemma submit_response_nonempty: "submit_response lib spec resp = Ok u \<Longrightarrow> u \<noteq> []"
  by (auto simp: submit_response_def Let_def replace_host_nonempty split: if_splits option.splits)

lemma submit_response_no_panic: "submit_response lib spec resp \<noteq> Panic"
  by (simp add: submit_response_def Let_def split: option.splits)

text \<open>A successful submission, step by step.\<close>

lemma SubmitCertificateRequest_Ok:
  assumes "SubmitCertificateRequest lib net o1 token csr w = (Ok u, w')"
  obtains parsed fields path resp where
    "parseCSR lib csr = Inr parsed"
    "render_fields lib (gotemplateVariables (es_issuer o1) parsed) (is_CustomFields (es_issuer o1)) []
       = Inr fields"
    "url_path lib (is_URL (es_issuer o1) @ apiUrl) = Inr path"
    "net_do net (submit_request o1 token (net_unix net w) (json_marshal (submit_data (es_issuer o1) csr fields))) w = (Inr resp, w')"
    "submit_response lib (es_issuer o1) resp = Ok u"
  using assms
  by (auto simp: SubmitCertificateRequest_def Let_def split: sum.splits prod.splits)

text \<open>The body of a submission, as a JSON parser reads it back.\<close>

lemma submit_data_read_back:
  "\<exists>j m fs. json_parse (json_marshal (submit_data spec csr cfs)) = Some j \<and> unmarshal_map j = Some m \<and>
     dom m = {''csr'', ''profileName'', ''attributes'', ''subscriber'', ''customFields''} \<and>
     m ''csr'' = Some (JStr (to_valid_utf8 csr)) \<and>
     m ''profileName'' = Some (JStr (to_valid_utf8 (is_ProfileName spec))) \<and>
     m ''subscriber'' = Some (JStr (to_valid_utf8 (is_SubscriberName spec))) \<and>
     m ''attributes'' = Some (JObj [(''subject'', JObj []), (''subjectAlternativeNames'', JArr [])]) \<and>
     m ''customFields'' = Some (JObj fs) \<and>
     set fs = (\<lambda>(k, v). (to_valid_utf8 k, JStr (to_valid_utf8 v))) ` set cfs"
proof -
  define ms where "ms = [(''csr'', JStr csr), (''profileName'', JStr (is_ProfileName spec)),
    (''attributes'', JObj [(''subject'', JObj []), (''subjectAlternativeNames'', JArr [])]),
    (''subscriber'', JStr (is_SubscriberName spec)),
    (''customFields'', JObj (map (\<lambda>(k, v). (k, JStr v)) cfs))]"
  have "json_plain (JObj ms)" "json_depth (JObj ms) \<le> maxNestingDepth"
    by (auto simp: ms_def list_all_iff maxNestingDepth_def image_image case_prod_unfold)
  moreover have "distinct (map fst ms)" "list_all (\<lambda>(k, v). utf8_valid k) ms"
    by (simp_all add: ms_def)
  ultimately obtain j where j: "json_parse (json_marshal (JObj ms)) = Some j"
    "unmarshal_map j = Some (\<lambda>k. map_option (\<lambda>v. json_utf8 (sort_members v)) (map_of ms k))"
    using unmarshal_marshal_map by blast
  have attrs: "json_utf8 (sort_members (JObj [(''subject'', JObj []), (''subjectAlternativeNames'', JArr [])])) =
      JObj [(''subject'', JObj []), (''subjectAlternativeNames'', JArr [])]"
    by (simp add: to_valid_utf8_valid)
  define fs where "fs = map (\<lambda>(k, v). (to_valid_utf8 k, json_utf8 v))
    (sort_key fst (map (\<lambda>(k, v). (k, sort_members v)) (map (\<lambda>(k, v). (k, JStr v)) cfs)))"
  have "json_utf8 (sort_members (JObj (map (\<lambda>(k, v). (k, JStr v)) cfs))) = JObj fs"
    by (simp add: fs_def)
  moreover have "set fs = (\<lambda>(k, v). (to_valid_utf8 k, JStr (to_valid_utf8 v))) ` set cfs"
    by (simp add: fs_def image_image case_prod_unfold)
  moreover have "submit_data spec csr cfs = JObj ms" by (simp add: submit_data_def ms_def)
  moreover define m where "m = (\<lambda>k. map_option (\<lambda>v. json_utf8 (sort_members v)) (map_of ms k))"
  moreover have "m ''csr'' = Some (JStr (to_valid_utf8 csr))"
    "m ''profileName'' = Some (JStr (to_valid_utf8 (is_ProfileName spec)))"
    "m ''subscriber'' = Some (JStr (to_valid_utf8 (is_SubscriberName spec)))"
    by (simp_all add: m_def ms_def)
  moreover have "m ''attributes'' =
      Some (json_utf8 (sort_members (JObj [(''subject'', JObj []), (''subjectAlternativeNames'', JArr [])])))"
    "m ''customFields'' = Some (json_utf8 (sort_members (JObj (map (\<lambda>(k, v). (k, JStr v)) cfs))))"
    by (simp_all add: m_def ms_def del: sort_members.simps json_utf8.simps)
  moreover have "dom m = {''csr'', ''profileName'', ''attributes'', ''subscriber'', ''customFields''}"
    unfolding m_def ms_def by (auto simp: dom_def split: if_splits)
  ultimately show ?thesis using j attrs by metis
qed

lemma SubmitCertificateRequest_nonempty:
  "SubmitCertificateRequest lib net o1 token csr w = (Ok u, w') \<Longrightarrow> u \<noteq> []"
  by (erule SubmitCertificateRequest_Ok) (rule submit_response_nonempty)

lemma SubmitCertificateRequest_no_panic:
  "fst (SubmitCertificateRequest lib net o1 token csr w) \<noteq> Panic"
  by (simp add: SubmitCertificateRequest_def Let_def submit_response_no_panic
      split: sum.splits prod.splits)

lemma fetch_response_nonempty: "fetch_response lib resp = Ok cert \<Longrightarrow> cert \<noteq> []"
  by (auto simp: fetch_response_def split: if_splits option.splits sum.splits json.splits)

lemma FetchCertificate_nonempty: "FetchCertificate lib net o1 token u w = (Ok cert, w') \<Longrightarrow> cert \<noteq> []"
  by (auto simp: FetchCertificate_def fetch_response_nonempty split: sum.splits prod.splits)

lemma essendi_builder_Inr:
  assumes "essendi_builder lib net spec realm secret = Inr S"
  obtains o1 where "EssendiSignerFromIssuerAndSecretData spec realm secret = Inr o1"
    and "S = essendi_signer lib net o1"
  using assms by (auto simp: essendi_builder_def split: sum.splits)

interpretation essendi: signer_contract "essendi_builder lib net" for lib net
proof (unfold_locales, goal_cases)
  case (1 spec realm secret S t csr w u w')
  then show ?case
    by (auto simp: essendi_signer_def elim!: essendi_builder_Inr dest: SubmitCertificateRequest_nonempty)
next
  case (2 spec realm secret S t u w cert w')
  then show ?case
    by (auto simp: essendi_signer_def elim!: essendi_builder_Inr dest: FetchCertificate_nonempty)
next
  case (3 spec realm secret S w)
  then show ?case
    by (auto simp: essendi_signer_def GetRefreshToken_def Let_def elim!: essendi_builder_Inr
        split: sum.splits prod.splits)
next
  case (4 spec realm secret S t csr w)
  then show ?case
    by (auto simp: essendi_signer_def SubmitCertificateRequest_no_panic elim!: essendi_builder_Inr)
next
  case (5 spec realm secret S t u w)
  then show ?case
    by (auto simp: essendi_signer_def RequestTaskStatus_def elim!: essendi_builder_Inr
        split: sum.splits prod.splits)
qed

section \<open>The signed text\<close>

text \<open>The text up to the first newline; two such texts that agree split at the same place.\<close>

lemma newline_split:
  assumes "a @ newline @ s = b @ newline @ t"
    and "CHR 0x0A \<notin> set a" and "CHR 0x0A \<notin> set b"
  shows "a = b \<and> s = t"
  using assms
proof (induction a arbitrary: b)
  case Nil
  then show ?case by (cases b) (auto simp: newline_def)
next
  case (Cons c a)
  from Cons.prems show ?case
  proof (cases b)
    case Nil
    with Cons.prems show ?thesis by (auto simp: newline_def)
  next
    case (Cons d b')
    with Cons.prems Cons.IH [of b'] show ?thesis by auto
  qed
qed

lemma digits_of_inj: "digits_of m = digits_of n \<Longrightarrow> m = n"
proof -
  define val where "val = foldl (\<lambda>(a::nat) c. 10 * a + (of_char c - 48)) 0"
  have digit: "of_char (char_of (48 + d) :: char) - (48::nat) = d" if "d < 10" for d
    using that by simp
  have "val (digits_of n) = n" for n
  proof (induction n rule: digits_of.induct)
    case (1 n)
    show ?case
    proof (cases "n < 10")
      case True
      then show ?thesis by (subst digits_of.simps) (simp add: val_def)
    next
      case False
      with "1.IH" have "val (digits_of (n div 10)) = n div 10" by simp
      with False show ?thesis
        by (subst digits_of.simps) (simp add: val_def digit)
    qed
  qed
  then show "digits_of m = digits_of n \<Longrightarrow> m = n" by metis
qed

lemma digits_of_no_minus: "CHR ''-'' \<notin> set (digits_of n)"
proof (induction n rule: digits_of.induct)
  case (1 n)
  have digit: "char_of (48 + d) \<noteq> CHR ''-''" if "d < 10" for d :: nat
  proof
    assume "char_of (48 + d) = CHR ''-''"
    then have "of_char (char_of (48 + d) :: char) = (of_char (CHR ''-'') :: nat)" by (rule arg_cong)
    with that show False by simp
  qed
  from 1 show ?case
    by (subst digits_of.simps) (auto simp: digit digit [symmetric] split: if_splits)
qed

lemma show_int_inj: "show_int i = show_int j \<Longrightarrow> i = j"
proof -
  assume eq: "show_int i = show_int j"
  have mixed: "CHR ''-'' # s \<noteq> digits_of n" for s n
    using digits_of_no_minus [of n] by (metis list.set_intros(1))
  consider "i < 0" "j < 0" | "i \<ge> 0" "j \<ge> 0" | "i < 0" "j \<ge> 0" | "i \<ge> 0" "j < 0" by linarith
  then show "i = j"
    using eq mixed mixed [symmetric]
    by cases (auto simp: show_int_def dest!: digits_of_inj)
qed

end
