(* ===== verification/CrLifecycle.thy ===== *)
theory CrLifecycle
  imports CrCalls SignerProps
begin

text \<open>
  The life of a certificate request. The controller keeps no state of its own: how far a
  request has come is written in the text of its Ready condition. \<open>phase_of\<close> reads it back,
  \<open>phase_step\<close> is the state machine those phases are meant to follow, and the controller is
  shown to be a simulation of it.
\<close>

section \<open>Phases\<close>

datatype phase =
    PhFresh
  | PhWaiting
  | PhSubmitted string
  | PhProcessing string
  | PhApproved string
  | PhSigned string
  | PhIssued
  | PhFailed
  | PhDenied

definition url_of :: "cr_condition \<Rightarrow> string" where
  "url_of c = (case message_url c of None \<Rightarrow> [] | Some u \<Rightarrow> u)"

definition cond_phase :: "cr_condition \<Rightarrow> phase" where
  "cond_phase c =
     (if cc_Status c = cm_True then PhIssued
      else if cc_Status c = cm_False \<and> cc_Reason c = cm_Failed then PhFailed
      else if cc_Status c = cm_False \<and> cc_Reason c = cm_Denied then PhDenied
      else if signed_msg c then PhSigned (url_of c)
      else if has_prefix (cc_Message c) IssuerConditionStatusApproved then PhApproved (url_of c)
      else if has_prefix (cc_Message c) IssuerConditionStatusProcessing then PhProcessing (url_of c)
      else if has_prefix (cc_Message c) IssuerConditionStatusSubmitted then PhSubmitted (url_of c)
      else PhWaiting)"

definition phase_of :: "certificate_request \<Rightarrow> phase" where
  "phase_of cr = (case cond_of cm_Ready (cr_Conditions cr) of None \<Rightarrow> PhFresh | Some c \<Rightarrow> cond_phase c)"

fun final :: "phase \<Rightarrow> bool" where
  "final PhIssued = True"
| "final PhFailed = True"
| "final PhDenied = True"
| "final _ = False"

text \<open>The status URL of a request the remote service is still working on.\<close>

fun in_review :: "phase \<Rightarrow> string option" where
  "in_review (PhSubmitted u) = Some u"
| "in_review (PhProcessing u) = Some u"
| "in_review (PhApproved u) = Some u"
| "in_review _ = None"

fun_cases in_review_SomeE: "in_review p = Some u"

text \<open>
  The state machine: what the remote service says decides the next phase. Denial, an issuer
  kind that is not handled and a refusal of the signer can come in any phase that is not final.
\<close>

inductive phase_step :: "'w cr_reconciler \<Rightarrow> bytes \<Rightarrow> phase \<Rightarrow> phase \<Rightarrow> bool" for r csr where
  Initialised: "phase_step r csr PhFresh PhWaiting"
| Denied: "\<not> final p \<Longrightarrow> phase_step r csr p PhDenied"
| Rejected: "\<not> final p \<Longrightarrow> p \<noteq> PhFresh \<Longrightarrow> phase_step r csr p PhFailed"
| Submitted: "submits r csr u \<Longrightarrow> phase_step r csr PhWaiting (PhSubmitted (trim_space u))"
| Processing: "in_review p = Some u \<Longrightarrow> answers r u [] TaskStatusProcessing \<Longrightarrow> p \<noteq> PhProcessing u \<Longrightarrow>
    phase_step r csr p (PhProcessing u)"
| Approved: "in_review p = Some u \<Longrightarrow> answers r u [] TaskStatusApproved \<Longrightarrow> p \<noteq> PhApproved u \<Longrightarrow>
    phase_step r csr p (PhApproved u)"
| Stopped: "in_review p = Some u \<Longrightarrow> answers r u [] s \<Longrightarrow>
    s \<in> {TaskStatusDeclined, TaskStatusCanceled, TaskStatusFailed} \<Longrightarrow> phase_step r csr p PhFailed"
| Signed: "in_review p = Some u \<Longrightarrow> answers r u v s \<Longrightarrow> v \<noteq> [] \<Longrightarrow>
    phase_step r csr p (PhSigned (trim_space v))"
| Issued: "fetches r u cert \<Longrightarrow> phase_step r csr (PhSigned u) PhIssued"
| Refused: "\<not> final p \<Longrightarrow> p \<noteq> PhFresh \<Longrightarrow> phase_step r csr p PhWaiting"

inductive_cases phase_step_IssuedE: "phase_step r csr p PhIssued"
inductive_cases phase_step_SignedE: "phase_step r csr p (PhSigned v)"

lemma step_to_issued: "phase_step r csr p PhIssued \<longleftrightarrow> (\<exists>u cert. p = PhSigned u \<and> fetches r u cert)"
  by (auto elim!: phase_step_IssuedE intro: phase_step.Issued)

lemma phase_step_not_final: "phase_step r csr p q \<Longrightarrow> \<not> final p"
  by (induction rule: phase_step.induct) (auto elim: in_review_SomeE)

section \<open>Well-formed requests\<close>

text \<open>
  One condition per type; a Ready condition that names a URL has one; and an issued request has a
  certificate. This holds of every stored request, whatever others write into conditions of other
  types (\<open>stored_wf\<close>). A request is well-formed when, besides, those conditions carry none of the
  messages of this program: then the Ready condition alone decides what is done next.
\<close>

definition ready_wf :: "cr_condition \<Rightarrow> bool" where
  "ready_wf c \<longleftrightarrow> (submitted_msg c \<or> signed_msg c \<longrightarrow> message_url c \<noteq> None)"

definition stored_wf :: "certificate_request \<Rightarrow> bool" where
  "stored_wf cr \<longleftrightarrow> distinct (map cc_Type (cr_Conditions cr)) \<and>
     (\<forall>c. cond_of cm_Ready (cr_Conditions cr) = Some c \<longrightarrow>
        ready_wf c \<and> (cc_Status c = cm_True \<longrightarrow> cr_Certificate cr \<noteq> []))"

definition cr_wf :: "certificate_request \<Rightarrow> bool" where
  "cr_wf cr \<longleftrightarrow> stored_wf cr \<and> foreign_quiet (cr_Conditions cr)"

lemma cr_wf_stored: "cr_wf cr \<Longrightarrow> stored_wf cr"
  by (simp add: cr_wf_def)

lemma cr_wfD:
  assumes "cr_wf cr"
  shows "distinct (map cc_Type (cr_Conditions cr))" and "foreign_quiet (cr_Conditions cr)"
    and "cond_of cm_Ready (cr_Conditions cr) = Some c \<Longrightarrow> ready_wf c"
    and "cond_of cm_Ready (cr_Conditions cr) = Some c \<Longrightarrow> cc_Status c = cm_True \<Longrightarrow> cr_Certificate cr \<noteq> []"
  using assms by (auto simp: cr_wf_def stored_wf_def)

lemma stored_wf_issued: "stored_wf cr \<Longrightarrow> phase_of cr = PhIssued \<Longrightarrow> cr_Certificate cr \<noteq> []"
  by (auto simp: stored_wf_def phase_of_def cond_phase_def split: option.splits if_splits)

lemma ready_wf_url: "ready_wf c \<Longrightarrow> submitted_msg c \<or> signed_msg c \<Longrightarrow> message_url c = Some (url_of c)"
  by (auto simp: ready_wf_def url_of_def split: option.splits)

lemma cr_ignored_stored:
  assumes "cmutil_laws cm" and "stored_wf cr"
  shows "cr_ignored cm r cr \<longleftrightarrow> cr_IssuerGroup cr \<noteq> GroupVersion_Group \<or> final (phase_of cr) \<or>
    (rc_CheckApprovedCondition r \<and> \<not> cm_IsApproved cm cr)"
proof -
  have "distinct (map cc_Type (cr_Conditions cr))" using assms(2) by (simp add: stored_wf_def)
  note has = has_condition_cond_of [OF this]
  show ?thesis
  proof (cases "cond_of cm_Ready (cr_Conditions cr)")
    case None
    with assms(1) show ?thesis by (simp add: cr_ignored_def has phase_of_def)
  next
    case (Some c)
    have "final (cond_phase c) \<longleftrightarrow> cc_Status c = cm_True \<or>
        cc_Status c = cm_False \<and> (cc_Reason c = cm_Failed \<or> cc_Reason c = cm_Denied)"
      by (simp add: cond_phase_def)
    with assms(1) Some show ?thesis by (auto simp: cr_ignored_def has phase_of_def)
  qed
qed

lemma cr_ignored_phase:
  assumes "cmutil_laws cm" and "cr_wf cr"
  shows "cr_ignored cm r cr \<longleftrightarrow> cr_IssuerGroup cr \<noteq> GroupVersion_Group \<or> final (phase_of cr) \<or>
    (rc_CheckApprovedCondition r \<and> \<not> cm_IsApproved cm cr)"
  using cr_ignored_stored [OF assms(1) cr_wf_stored [OF assms(2)]] .

text \<open>The message of the Ready condition is found whatever the conditions of other types say.\<close>

lemma message_found:
  "(\<exists>u. phase_of cr = PhSigned u) \<Longrightarrow> IsSigned (cr_Conditions cr)"
  "in_review (phase_of cr) = Some u \<Longrightarrow> IsSubmitted (cr_Conditions cr)"
  by (auto simp: IsSigned_def GetSignedCondition_def IsSubmitted_def GetSubmittedCondition_def find_None_iff
      phase_of_def cond_phase_def submitted_msg_def dest!: cond_of_Some split: option.splits if_splits)

lemma signed_phase:
  assumes "cr_wf cr" and "\<not> final (phase_of cr)"
  shows "IsSigned (cr_Conditions cr) \<longleftrightarrow> (\<exists>u. phase_of cr = PhSigned u)"
    and "fetch_url cr u \<longleftrightarrow> phase_of cr = PhSigned u"
  using assms(2) cr_wfD(3) [OF assms(1)]
  by (auto simp: IsSigned_def fetch_url_def phase_of_def cond_phase_def ready_wf_url
      GetSignedCondition_ready [OF cr_wfD(2,1) [OF assms(1)]] split: option.splits if_splits)

lemma submitted_phase:
  assumes "cr_wf cr" and "\<not> final (phase_of cr)"
  shows "IsSubmitted (cr_Conditions cr) \<longleftrightarrow> in_review (phase_of cr) \<noteq> None"
    and "poll_url cr u \<longleftrightarrow> in_review (phase_of cr) = Some u"
proof -
  note sub = GetSubmittedCondition_ready [OF cr_wfD(2,1) [OF assms(1)]]
  show iff: "IsSubmitted (cr_Conditions cr) \<longleftrightarrow> in_review (phase_of cr) \<noteq> None"
    using assms(2) submitted_signed_exclusive
    by (auto simp: IsSubmitted_def phase_of_def cond_phase_def sub submitted_msg_def
        split: option.splits if_splits)
  have "in_review (phase_of cr) = Some (url_of c)"
    if "cond_of cm_Ready (cr_Conditions cr) = Some c" "submitted_msg c" for c
    using that assms(2) submitted_signed_exclusive [OF that(2)]
    by (auto simp: phase_of_def cond_phase_def submitted_msg_def split: if_splits)
  moreover have "\<not> IsSigned (cr_Conditions cr)" if "in_review (phase_of cr) \<noteq> None"
    using that signed_phase(1) [OF assms] by auto
  ultimately show "poll_url cr u \<longleftrightarrow> in_review (phase_of cr) = Some u"
    using iff cr_wfD(3) [OF assms(1)]
    by (auto simp: poll_url_def sub IsSubmitted_def ready_wf_url split: option.splits if_splits)
qed

lemma review_phase:
  assumes "cr_wf cr" and "in_review (phase_of cr) = Some u"
  shows "IsProcessing (cr_Conditions cr) \<longleftrightarrow> phase_of cr = PhProcessing u"
    and "IsApproved (cr_Conditions cr) \<longleftrightarrow> phase_of cr = PhApproved u"
  using assms(2) submitted_signed_exclusive approved_processing_exclusive [of "cr_Conditions cr"]
  by (auto simp: IsProcessing_def IsApproved_def phase_of_def cond_phase_def submitted_msg_def
      GetSubmittedCondition_ready [OF cr_wfD(2,1) [OF assms(1)]] split: option.splits if_splits)

section \<open>The phase a write leads to\<close>

definition text_phase :: "string \<Rightarrow> string \<Rightarrow> phase" where
  "text_phase reason m = cond_phase \<lparr>cc_Type = cm_Ready, cc_Status = ready_status reason,
     cc_Reason = reason, cc_Message = m, cc_LastTransitionTime = None\<rparr>"

lemma submitted_msg_text:
  "submitted_msg \<lparr>cc_Type = t, cc_Status = s, cc_Reason = r, cc_Message = m, cc_LastTransitionTime = tm\<rparr> \<longleftrightarrow>
   has_prefix m IssuerConditionStatusSubmitted \<or> has_prefix m IssuerConditionStatusApproved \<or>
   has_prefix m IssuerConditionStatusProcessing"
  and signed_msg_text:
  "signed_msg \<lparr>cc_Type = t, cc_Status = s, cc_Reason = r, cc_Message = m, cc_LastTransitionTime = tm\<rparr> \<longleftrightarrow>
   has_prefix m IssuerConditionStatusSigned"
  and message_url_text:
  "message_url \<lparr>cc_Type = t, cc_Status = s, cc_Reason = r, cc_Message = m, cc_LastTransitionTime = tm\<rparr> =
   map_option trim_space (after_colon m)"
  by (simp_all add: submitted_msg_def signed_msg_def message_url_def)

lemmas msg_text = submitted_msg_text signed_msg_text message_url_text

lemma cond_phase_time:
  "cond_phase \<lparr>cc_Type = t, cc_Status = s, cc_Reason = r, cc_Message = m, cc_LastTransitionTime = tm\<rparr> =
   cond_phase \<lparr>cc_Type = t, cc_Status = s, cc_Reason = r, cc_Message = m, cc_LastTransitionTime = None\<rparr>"
  by (simp only: cond_phase_def url_of_def msg_text cr_condition.select_convs)

lemma phase_of_set:
  assumes "cmutil_laws cm"
  shows "phase_of (cm_SetCondition cm base cm_Ready (ready_status reason) reason m) = text_phase reason m"
proof -
  obtain tm where "cm_SetCondition cm base cm_Ready (ready_status reason) reason m =
    base\<lparr>cr_Conditions := upsert \<lparr>cc_Type = cm_Ready, cc_Status = ready_status reason,
      cc_Reason = reason, cc_Message = m, cc_LastTransitionTime = tm\<rparr> (cr_Conditions base)\<rparr>"
    using cmutil_set [OF assms] .
  then show ?thesis
    using cond_phase_time by (simp add: phase_of_def cond_of_upsert text_phase_def)
qed

lemma text_phase_final:
  "text_phase cm_Issued m = PhIssued" "text_phase cm_Failed m = PhFailed" "text_phase cm_Denied m = PhDenied"
  by (simp_all add: text_phase_def cond_phase_def ready_status_def)

lemma prefix_message [simp]:
  "p \<noteq> q \<Longrightarrow> p \<in> {IssuerConditionStatusSubmitted, IssuerConditionStatusProcessing,
                 IssuerConditionStatusApproved, IssuerConditionStatusSigned} \<Longrightarrow>
   q \<in> {IssuerConditionStatusSubmitted, IssuerConditionStatusProcessing,
        IssuerConditionStatusApproved, IssuerConditionStatusSigned} \<Longrightarrow>
   has_prefix (status_message p u) q = False \<and> has_prefix (resource_message p u) q = False"
  unfolding status_message_def resource_message_def by (elim insertE) auto

lemma phase_messages_distinct:
  "distinct [IssuerConditionStatusSubmitted, IssuerConditionStatusProcessing,
             IssuerConditionStatusApproved, IssuerConditionStatusSigned]"
  by (simp add: phase_messages)

lemma text_phase_pending:
  "text_phase cm_Pending (status_message IssuerConditionStatusSubmitted u) = PhSubmitted (trim_space u)"
  "text_phase cm_Pending (resource_message IssuerConditionStatusProcessing u) = PhProcessing (trim_space u)"
  "text_phase cm_Pending (resource_message IssuerConditionStatusApproved u) = PhApproved (trim_space u)"
  "text_phase cm_Pending (resource_message IssuerConditionStatusSigned u) = PhSigned (trim_space u)"
  using phase_messages_distinct
  by (auto simp: text_phase_def cond_phase_def msg_text ready_status_def url_of_def
      after_colon_status after_colon_resource trim_space_leading)

lemma text_phase_waiting:
  "text_phase cm_Pending ''Initialising Ready condition'' = PhWaiting"
  "text_phase cm_Pending (report_message ''Temporary error. Retrying'' (Some e)) = PhWaiting"
  by (simp_all add: text_phase_def cond_phase_def msg_text ready_status_def phase_messages report_message_def)

lemmas text_phases = text_phase_final text_phase_pending text_phase_waiting

text \<open>The URLs of the phases are trimmed, so writing one back does not change it.\<close>

lemma in_review_trimmed: "in_review (phase_of cr) = Some u \<Longrightarrow> trim_space u = u"
  by (auto simp: phase_of_def cond_phase_def url_of_def message_url_def split: option.splits if_splits)

lemma writes_phase:
  assumes "cmutil_laws cm" and "cr_wf cr" and "\<not> cr_ignored cm r cr"
    and "writes cm lib r k cr base reason m err"
  shows "phase_step r (cr_Request cr) (phase_of cr) (text_phase reason (report_message m err))"
proof -
  have nf: "\<not> final (phase_of cr)"
    using assms(3) unfolding cr_ignored_phase [OF assms(1,2)] by simp
  have fresh: "cm_GetCondition cm cr cm_Ready = None \<longleftrightarrow> phase_of cr = PhFresh"
    using assms(1) by (auto simp: phase_of_def cond_phase_def split: option.splits if_splits)
  note signed = signed_phase [OF assms(2) nf] and sub = submitted_phase [OF assms(2) nf]
    and review = review_phase [OF assms(2)]
  from assms(4) show ?thesis
  proof cases
    case (submitted u)
    then have "phase_of cr = PhWaiting"
      using nf fresh signed(1) sub(1) by (cases "phase_of cr") auto
    with submitted show ?thesis by (simp add: text_phases phase_step.Submitted)
  next
    case (processing u)
    then show ?thesis
      using review(1) [of u] by (simp add: text_phases sub in_review_trimmed phase_step.Processing)
  next
    case (approved u)
    then show ?thesis
      using review(2) [of u] by (simp add: text_phases sub in_review_trimmed phase_step.Approved)
  qed (use nf in \<open>auto simp: text_phases fresh sub signed intro: phase_step.intros\<close>)
qed

section \<open>What a write keeps\<close>

text \<open>The part of a request its owner wrote; the controller never changes it.\<close>

definition same_spec :: "certificate_request \<Rightarrow> certificate_request \<Rightarrow> bool" where
  "same_spec a b \<longleftrightarrow> cr_Namespace a = cr_Namespace b \<and> cr_Name a = cr_Name b \<and>
     cr_IssuerGroup a = cr_IssuerGroup b \<and> cr_IssuerKind a = cr_IssuerKind b \<and>
     cr_IssuerName a = cr_IssuerName b \<and> cr_Request a = cr_Request b"

lemma same_spec_refl [simp]: "same_spec a a"
  by (simp add: same_spec_def)

lemma same_spec_trans: "same_spec a b \<Longrightarrow> same_spec b c \<Longrightarrow> same_spec a c"
  by (simp add: same_spec_def)

lemma writes_base:
  assumes "writes cm lib r k cr base reason m err"
  shows "cr_Conditions base = cr_Conditions cr \<and> same_spec base cr"
  using assms
  by cases (auto simp: with_certificate_def with_failure_time_def same_spec_def split: option.splits)

lemma writes_certificate:
  assumes "writes cm lib r k cr base reason m err"
  shows "reason = cm_Issued \<and> (\<exists>u cert. fetch_url cr u \<and> fetches r u cert \<and> cr_Certificate base = cert) \<or>
    reason \<noteq> cm_Issued \<and> cr_Certificate base = cr_Certificate cr \<and> cr_CA base = cr_CA cr"
  using assms
  by cases (auto simp: with_certificate_def with_failure_time_def split: option.splits)

definition text_wf :: "string \<Rightarrow> bool" where
  "text_wf m \<longleftrightarrow> ready_wf \<lparr>cc_Type = cm_Ready, cc_Status = [], cc_Reason = [], cc_Message = m,
                         cc_LastTransitionTime = None\<rparr>"

lemma ready_wf_text:
  "ready_wf \<lparr>cc_Type = t, cc_Status = s, cc_Reason = r, cc_Message = m, cc_LastTransitionTime = tm\<rparr> \<longleftrightarrow> text_wf m"
  by (simp add: text_wf_def ready_wf_def msg_text)

lemma writes_text_wf:
  assumes "writes cm lib r k cr base reason m err"
  shows "text_wf (report_message m err)"
  using assms
proof cases
  case (submitted u)
  then show ?thesis by (simp add: text_wf_def ready_wf_def msg_text after_colon_status)
qed (simp_all add: text_wf_def ready_wf_def msg_text after_colon_resource, auto simp: phase_messages report_message_def)

lemma stored_wf_set:
  assumes "cmutil_laws cm" and "stored_wf cr" and "cr_Conditions base = cr_Conditions cr" and "text_wf m"
    and "reason = cm_Issued \<Longrightarrow> cr_Certificate base \<noteq> []"
  shows "stored_wf (cm_SetCondition cm base cm_Ready (ready_status reason) reason m)"
proof -
  obtain tm where eq: "cm_SetCondition cm base cm_Ready (ready_status reason) reason m =
    base\<lparr>cr_Conditions := upsert \<lparr>cc_Type = cm_Ready, cc_Status = ready_status reason,
      cc_Reason = reason, cc_Message = m, cc_LastTransitionTime = tm\<rparr> (cr_Conditions base)\<rparr>"
    using cmutil_set [OF assms(1)] .
  show ?thesis
    unfolding eq using assms(2-5)
    by (auto simp: stored_wf_def cond_of_upsert ready_wf_text distinct_upsert ready_status_def split: if_splits)
qed

lemma set_condition_frame:
  assumes "cmutil_laws cm"
  shows "same_spec (cm_SetCondition cm base cm_Ready s r m) base"
    and "filter (\<lambda>c. cc_Type c \<noteq> cm_Ready) (cr_Conditions (cm_SetCondition cm base cm_Ready s r m)) =
         filter (\<lambda>c. cc_Type c \<noteq> cm_Ready) (cr_Conditions base)"
    and "cr_Certificate (cm_SetCondition cm base cm_Ready s r m) = cr_Certificate base"
    and "cr_CA (cm_SetCondition cm base cm_Ready s r m) = cr_CA base"
    and "cr_FailureTime (cm_SetCondition cm base cm_Ready s r m) = cr_FailureTime base"
proof -
  obtain tm where "cm_SetCondition cm base cm_Ready s r m =
    base\<lparr>cr_Conditions := upsert \<lparr>cc_Type = cm_Ready, cc_Status = s, cc_Reason = r, cc_Message = m,
      cc_LastTransitionTime = tm\<rparr> (cr_Conditions base)\<rparr>"
    using cmutil_set [OF assms] .
  then show "same_spec (cm_SetCondition cm base cm_Ready s r m) base"
    and "filter (\<lambda>c. cc_Type c \<noteq> cm_Ready) (cr_Conditions (cm_SetCondition cm base cm_Ready s r m)) =
         filter (\<lambda>c. cc_Type c \<noteq> cm_Ready) (cr_Conditions base)"
    and "cr_Certificate (cm_SetCondition cm base cm_Ready s r m) = cr_Certificate base"
    and "cr_CA (cm_SetCondition cm base cm_Ready s r m) = cr_CA base"
    and "cr_FailureTime (cm_SetCondition cm base cm_Ready s r m) = cr_FailureTime base"
    using upsert_others [of "\<lparr>cc_Type = cm_Ready, cc_Status = s, cc_Reason = r, cc_Message = m,
      cc_LastTransitionTime = tm\<rparr>"]
    by (simp_all add: same_spec_def)
qed

lemma CrReconcile_frame:
  assumes "cmutil_laws cm" and "k_get_CertificateRequest k req = Inr cr"
    and "oc_update (CrReconcile cm lib r k req w) = Some cr'"
  shows "same_spec cr' cr" and "filter (\<lambda>c. cc_Type c \<noteq> cm_Ready) (cr_Conditions cr') =
    filter (\<lambda>c. cc_Type c \<noteq> cm_Ready) (cr_Conditions cr)"
  using CrReconcile_writes [OF assms(3,2)] unfolding outcome_writes_def
  by (auto simp: set_condition_frame(2) [OF assms(1)] dest!: writes_base
      intro: same_spec_trans [OF set_condition_frame(1) [OF assms(1)]])

section \<open>The controller simulates the state machine\<close>

context signer_contract begin

lemma fetched_nonempty: "rc_SignerBuilder r = build \<Longrightarrow> fetches r u cert \<Longrightarrow> cert \<noteq> []"
  unfolding fetches_def built_def by (metis fetch_nonempty)

lemma reconcile_stored:
  assumes "cmutil_laws cm" and "rc_SignerBuilder r = build"
    and "k_get_CertificateRequest k req = Inr cr" and "stored_wf cr"
    and "oc_update (CrReconcile cm lib r k req w) = Some cr'"
  shows "stored_wf cr'"
  using CrReconcile_writes [OF assms(5,3)] unfolding outcome_writes_def
proof (elim disjE exE conjE)
  fix base reason m err
  assume wr: "writes cm lib r k cr base reason m err"
    and cr': "cr' = cm_SetCondition cm base cm_Ready (ready_status reason) reason (report_message m err)"
  have "cr_Certificate base \<noteq> []" if "reason = cm_Issued"
    using writes_certificate [OF wr] that fetched_nonempty [OF assms(2)] by auto
  then show ?thesis
    unfolding cr' using writes_base [OF wr] writes_text_wf [OF wr]
    by (intro stored_wf_set [OF assms(1,4)]) auto
qed (use assms(4) in simp)

lemma reconcile_step:
  assumes "cmutil_laws cm" and "rc_SignerBuilder r = build"
    and "k_get_CertificateRequest k req = Inr cr" and "cr_wf cr"
    and "oc_update (CrReconcile cm lib r k req w) = Some cr'"
  shows "cr_wf cr' \<and> (cr' = cr \<or> phase_step r (cr_Request cr) (phase_of cr) (phase_of cr'))"
proof -
  have ni: "\<not> cr_ignored cm r cr"
    using CrReconcile_update [OF assms(5)] assms(3) by (metis Inr_inject)
  have wf: "cr_wf cr'"
    unfolding cr_wf_def foreign_quiet_filter [OF CrReconcile_frame(2) [OF assms(1,3,5)]]
    using reconcile_stored [OF assms(1-3) cr_wf_stored [OF assms(4)] assms(5)] cr_wfD(2) [OF assms(4)] ..
  from CrReconcile_writes [OF assms(5,3)] show ?thesis
    unfolding outcome_writes_def
  proof (elim disjE exE conjE)
    fix base reason m err
    assume wr: "writes cm lib r k cr base reason m err"
      and cr': "cr' = cm_SetCondition cm base cm_Ready (ready_status reason) reason (report_message m err)"
    have "phase_step r (cr_Request cr) (phase_of cr) (phase_of cr')"
      unfolding cr' phase_of_set [OF assms(1)] by (rule writes_phase [OF assms(1,4) ni wr])
    with wf show ?thesis by blast
  qed (use assms(4) in simp)
qed

end

section \<open>Requests as others leave them\<close>

text \<open>
  The stored request starts as its owner created it, without conditions, and other controllers,
  such as the approver, set conditions of other types, with any message.
\<close>

lemma phase_of_other:
  "cc_Type c \<noteq> cm_Ready \<Longrightarrow> phase_of (cr\<lparr>cr_Conditions := upsert c (cr_Conditions cr)\<rparr>) = phase_of cr"
  by (simp add: phase_of_def cond_of_upsert)

lemma stored_wf_other:
  assumes "stored_wf cr" and "cc_Type c \<noteq> cm_Ready"
  shows "stored_wf (cr\<lparr>cr_Conditions := upsert c (cr_Conditions cr)\<rparr>)"
  using assms by (auto simp: stored_wf_def cond_of_upsert distinct_upsert)

lemma foreign_quiet_other:
  "foreign_quiet cs \<Longrightarrow> \<not> submitted_msg c \<Longrightarrow> \<not> signed_msg c \<Longrightarrow> foreign_quiet (upsert c cs)"
  unfolding foreign_quiet_def using set_upsert_subset [of c cs] by blast

lemma created_wf: "cr_Conditions cr = [] \<Longrightarrow> stored_wf cr"
  by (simp add: stored_wf_def)

lemma cr_wf_created: "cr_Conditions cr = [] \<Longrightarrow> cr_wf cr"
  by (simp add: cr_wf_def created_wf foreign_quiet_def)

end
