(* ===== verification/CrProgress.thy ===== *)
theory CrProgress
  imports CrLifecycle
begin

text \<open>
  Progress. \<open>reconcile_once\<close> is one turn of the controller against the API server: the stored
  request is read, and the update is stored unless it is refused. When the issuer is ready and
  the remote service completes its task after some polls, iterating it ends with the
  certificate in the status of the request.
\<close>

definition reconcile_once ::
    "cmutil \<Rightarrow> golib \<Rightarrow> 'w cr_reconciler \<Rightarrow> kube \<Rightarrow> namespaced_name \<Rightarrow>
       certificate_request \<times> 'w \<Rightarrow> certificate_request \<times> 'w" where
  "reconcile_once cm lib r k req s =
     (case s of (cr, w) \<Rightarrow>
      let out = CrReconcile cm lib r (k\<lparr>k_get_CertificateRequest := (\<lambda>n. Inr cr)\<rparr>) req w
      in (case oc_update out of
            None \<Rightarrow> cr
          | Some cr' \<Rightarrow> (if oc_stored out then cr' else cr), oc_world out))"

text \<open>
  A request the controller may carry to the remote service: of its group, not denied, approved
  where that is asked for, and with an issuer that serves it. Nothing the controller writes
  changes this.
\<close>

definition signable ::
    "cmutil \<Rightarrow> 'w cr_reconciler \<Rightarrow> kube \<Rightarrow> certificate_request \<Rightarrow> 'w signer \<Rightarrow> bool" where
  "signable cm r k cr S \<longleftrightarrow> cr_IssuerGroup cr = GroupVersion_Group \<and> \<not> cm_IsDenied cm cr \<and>
     (rc_CheckApprovedCondition r \<longrightarrow> cm_IsApproved cm cr) \<and> issuer_serves r k cr S"

lemma has_condition_others:
  assumes "filter (\<lambda>c. cc_Type c \<noteq> cm_Ready) (cr_Conditions a) =
           filter (\<lambda>c. cc_Type c \<noteq> cm_Ready) (cr_Conditions b)"
    and "t \<noteq> cm_Ready"
  shows "has_condition_doc a t s q = has_condition_doc b t s q"
proof -
  have "list_ex (\<lambda>c. cc_Type c = t \<and> P c) cs \<longleftrightarrow>
        list_ex (\<lambda>c. cc_Type c = t \<and> P c) (filter (\<lambda>c. cc_Type c \<noteq> cm_Ready) cs)" for P cs
    using assms(2) by (induction cs) auto
  then have "has_condition_doc cr t s q = list_ex (\<lambda>c. cc_Type c = t \<and> cc_Status c = s \<and>
      (q = [] \<or> cc_Reason c = q)) (filter (\<lambda>c. cc_Type c \<noteq> cm_Ready) (cr_Conditions cr))" for cr
    unfolding has_condition_doc_def .
  with assms(1) show ?thesis by simp
qed

lemma issuer_serves_cong: "same_spec a b \<Longrightarrow> issuer_serves r k a S = issuer_serves r k b S"
  by (simp add: issuer_serves_def same_spec_def)

lemma get_object_get [simp]: "get_object (k\<lparr>k_get_CertificateRequest := f\<rparr>) ro n = get_object k ro n"
  by (cases ro) (simp_all add: get_object_def)

lemma issuer_serves_get [simp]:
  "issuer_serves r (k\<lparr>k_get_CertificateRequest := f\<rparr>) cr S = issuer_serves r k cr S"
  by (simp add: issuer_serves_def)

lemma signable_frame:
  assumes "cmutil_laws cm" and "signable cm r k a S" and "same_spec b a"
    and "filter (\<lambda>c. cc_Type c \<noteq> cm_Ready) (cr_Conditions b) =
         filter (\<lambda>c. cc_Type c \<noteq> cm_Ready) (cr_Conditions a)"
  shows "signable cm r k b S"
  using assms(1,2,3) has_condition_others [OF assms(4)] issuer_serves_cong [OF assms(3), of r k S]
  by (simp add: signable_def same_spec_def)

section \<open>One turn\<close>

text \<open>A turn that reaches the signer, with the token it was given.\<close>

lemma CrReconcile_signs:
  assumes "k_get_CertificateRequest k req = Inr cr" and "\<not> cr_ignored cm r cr"
    and "may_sign cm r k cr S" and "sg_GetRefreshToken S w = (Ok token, w1)"
  shows "CrReconcile cm lib r k req w = cr_deferred cm k (sign_phase cm lib S token
    \<lparr>run_cr = cr, run_events = [], run_calls = [CallToken], run_world = w1\<rparr>)"
proof -
  define run where "run = \<lparr>run_cr = cr, run_events = [], run_calls = [], run_world = w\<rparr>"
  have "may_sign cm r k (run_cr run) S" using assms(3) by (simp add: run_def)
  from cr_body_may_sign [OF this, of lib] assms(1,2,4) show ?thesis
    by (simp add: CrReconcile_def token_phase_def run_def after_call_def)
qed

lemma cr_deferred_stored:
  assumes "k_update_cr k = (\<lambda>cr. None)"
  shows "oc_stored (cr_deferred cm k br)" and
    "oc_RequeueAfter (cr_deferred cm k br) = (case fst br of Return q e \<Rightarrow> q | Unwind \<Rightarrow> 0)" and
    "oc_error (cr_deferred cm k br) = (case fst br of Return q e \<Rightarrow> map_option Single e | Unwind \<Rightarrow> None)"
  using assms
  by (auto simp: cr_deferred_def Let_def split: prod.splits body_exit.splits)

lemma deferred_run_quiet: "deferred_run cm (Return q None, run) = run"
  by (simp add: deferred_run_def)

lemma reconcile_once_signs:
  assumes "cmutil_laws cm" and "cr_wf cr" and "signable cm r k cr S"
    and "\<not> final (phase_of cr)" and "phase_of cr \<noteq> PhFresh"
    and "sg_GetRefreshToken S w = (Ok token, w1)" and "k_update_cr k = (\<lambda>cr. None)"
  shows "reconcile_once cm lib r k req (cr, w) =
    (let br = sign_phase cm lib S token
                \<lparr>run_cr = cr, run_events = [], run_calls = [CallToken], run_world = w1\<rparr>
     in (run_cr (deferred_run cm br), run_world (snd br)))"
proof -
  have ni: "\<not> cr_ignored cm r cr"
    using assms(3,4) unfolding cr_ignored_phase [OF assms(1,2)] signable_def by auto
  have "cm_GetCondition cm cr cm_Ready \<noteq> None"
    using assms(1,5) by (auto simp: phase_of_def split: option.splits)
  then have "may_sign cm r (k\<lparr>k_get_CertificateRequest := (\<lambda>n. Inr cr)\<rparr>) cr S"
    using assms(3) by (simp add: may_sign_def signable_def)
  from CrReconcile_signs [OF _ ni this assms(6), of req lib] show ?thesis
    using assms(7) by (simp add: reconcile_once_def Let_def cr_deferred_simps)
qed

lemma reconcile_once_fresh:
  assumes "cmutil_laws cm" and "cr_wf cr" and "signable cm r k cr S"
    and "phase_of cr = PhFresh" and "k_update_cr k = (\<lambda>cr. None)"
  obtains cr' where "reconcile_once cm lib r k req (cr, w) = (cr', w)" and "phase_of cr' = PhWaiting"
proof -
  have ni: "\<not> cr_ignored cm r cr"
    using assms(3,4) unfolding cr_ignored_phase [OF assms(1,2)] signable_def by auto
  have "cm_GetCondition cm cr cm_Ready = None" and "\<not> cm_IsDenied cm cr"
    using assms(1,3,4) by (auto simp: phase_of_def cond_phase_def signable_def split: option.splits if_splits)
  with ni assms(5) have "reconcile_once cm lib r k req (cr, w) =
    (cm_SetCondition cm cr cm_Ready (ready_status cm_Pending) cm_Pending ''Initialising Ready condition'', w)"
    by (simp add: reconcile_once_def Let_def CrReconcile_def cr_deferred_simps cr_body_def
        deferred_run_quiet cr_deferred_stored report_def ready_status_def)
  then show thesis by (rule that) (simp add: phase_of_set [OF assms(1)] text_phases)
qed

text \<open>The turn of a request in each phase, by what the remote service answers.\<close>

text \<open>
  The next phase of a request in review at status URL \<open>u\<close>, when the poll answers resource URL
  \<open>v\<close> and status \<open>s\<close>. A status the program does not know leaves the request where it is.
\<close>

definition review_next :: "phase \<Rightarrow> string \<Rightarrow> string \<Rightarrow> string \<Rightarrow> phase" where
  "review_next p u v s =
     (if v \<noteq> [] then PhSigned (trim_space v)
      else if s = TaskStatusProcessing then PhProcessing u
      else if s = TaskStatusApproved then PhApproved u
      else if s \<in> {TaskStatusDeclined, TaskStatusCanceled, TaskStatusFailed} then PhFailed
      else p)"

lemma turn_submit:
  assumes "cmutil_laws cm" and "cr_wf cr" and "signable cm r k cr S" and "k_update_cr k = (\<lambda>cr. None)"
    and "phase_of cr = PhWaiting" and "sg_GetRefreshToken S w = (Ok token, w1)"
    and "sg_SubmitCertificateRequest S token (cr_Request cr) w1 = (Ok u, w2)"
  shows "\<exists>cr'. reconcile_once cm lib r k req (cr, w) = (cr', w2) \<and> phase_of cr' = PhSubmitted (trim_space u)"
proof -
  have nf: "\<not> final (phase_of cr)" and nn: "phase_of cr \<noteq> PhFresh" using assms(5) by simp_all
  have "\<not> IsSigned (cr_Conditions cr)" "\<not> IsSubmitted (cr_Conditions cr)"
    using signed_phase(1) [OF assms(2) nf] submitted_phase(1) [OF assms(2) nf] assms(5) by simp_all
  then show ?thesis
    unfolding reconcile_once_signs [OF assms(1-3) nf nn assms(6,4)]
    using assms(7) phase_of_set [OF assms(1), of _ cm_Pending]
    by (simp add: sign_phase_def submit_phase_def after_call_def deferred_run_quiet report_def
        ready_status_def text_phases Let_def)
qed

lemma poll_run_cr:
  assumes "sg_RequestTaskStatus S token u (run_world run) = (Ok (v, s), w2)"
    and "cmutil_laws cm" and "cr_wf (run_cr run)" and "in_review (phase_of (run_cr run)) = Some u"
  shows "phase_of (run_cr (deferred_run cm (poll_phase cm S token u run))) =
      review_next (phase_of (run_cr run)) u v s"
    and "run_world (snd (poll_phase cm S token u run)) = w2"
proof -
  define run1 where "run1 = after_call (CallStatus token u) w2 run"
  have run1: "run_cr run1 = run_cr run" "run_world run1 = w2" by (simp_all add: run1_def)
  note review = review_phase [OF assms(3,4)]
  have rep: "phase_of (run_cr (report cm reason m False None run1)) = text_phase reason m" for reason m
    using phase_of_set [OF assms(2), of _ reason m] by (simp add: report_def Let_def ready_status_def)
  have statuses: "distinct [TaskStatusProcessing, TaskStatusApproved, TaskStatusDeclined,
      TaskStatusCanceled, TaskStatusFailed]"
    by (simp add: task_statuses)
  have tr: "trim_space u = u" by (rule in_review_trimmed [OF assms(4)])
  note eq = poll_phase_Ok [OF assms(1) run1_def]
  show "run_world (snd (poll_phase cm S token u run)) = w2"
    unfolding eq using run1 by simp
  show "phase_of (run_cr (deferred_run cm (poll_phase cm S token u run))) =
      review_next (phase_of (run_cr run)) u v s"
    unfolding eq review_next_def using statuses review run1
    by (auto simp: deferred_run_quiet rep text_phases tr)
qed

lemma turn_poll:
  assumes "cmutil_laws cm" and "cr_wf cr" and "signable cm r k cr S" and "k_update_cr k = (\<lambda>cr. None)"
    and "in_review (phase_of cr) = Some u" and "sg_GetRefreshToken S w = (Ok token, w1)"
    and "sg_RequestTaskStatus S token u w1 = (Ok (v, s), w2)"
  shows "\<exists>cr'. reconcile_once cm lib r k req (cr, w) = (cr', w2) \<and>
           phase_of cr' = review_next (phase_of cr) u v s"
proof -
  have nf: "\<not> final (phase_of cr)" and nn: "phase_of cr \<noteq> PhFresh"
    using assms(5) by (auto elim: in_review_SomeE)
  define run where "run = \<lparr>run_cr = cr, run_events = [], run_calls = [CallToken], run_world = w1\<rparr>"
  have "sign_phase cm lib S token run = poll_phase cm S token u run"
    using submitted_phase(2) [OF assms(2) nf, of u] assms(5)
    by (auto simp: sign_phase_def poll_url_def run_def)
  moreover have "sg_RequestTaskStatus S token u (run_world run) = (Ok (v, s), w2)"
    and "cr_wf (run_cr run)" and "in_review (phase_of (run_cr run)) = Some u"
    using assms(2,5,7) by (simp_all add: run_def)
  note poll_run_cr [OF this(1) assms(1) this(2,3)]
  moreover have "run_cr run = cr" by (simp add: run_def)
  ultimately show ?thesis
    unfolding reconcile_once_signs [OF assms(1-3) nf nn assms(6,4)] run_def [symmetric]
    by (simp add: Let_def)
qed

lemma turn_fetch:
  assumes "cmutil_laws cm" and "cr_wf cr" and "signable cm r k cr S" and "k_update_cr k = (\<lambda>cr. None)"
    and "phase_of cr = PhSigned u" and "sg_GetRefreshToken S w = (Ok token, w1)"
    and "sg_FetchCertificate S token u w1 = (Ok cert, w2)"
  shows "\<exists>cr'. reconcile_once cm lib r k req (cr, w) = (cr', w2) \<and> phase_of cr' = PhIssued \<and>
           cr_Certificate cr' = cert \<and>
           cr_CA cr' = (case extractCAFromPEMBundle lib cert of None \<Rightarrow> cr_CA cr | Some ca \<Rightarrow> ca)"
proof -
  have nf: "\<not> final (phase_of cr)" and nn: "phase_of cr \<noteq> PhFresh" using assms(5) by simp_all
  have "IsSigned (cr_Conditions cr)" "Option.bind (GetSignedCondition (cr_Conditions cr)) message_url = Some u"
    using signed_phase [OF assms(2) nf] assms(5) by (simp_all add: fetch_url_def)
  then show ?thesis
    unfolding reconcile_once_signs [OF assms(1-3) nf nn assms(6,4)]
    using assms(7) phase_of_set [OF assms(1), of _ cm_Issued] set_condition_frame [OF assms(1)]
    by (simp add: sign_phase_def fetch_phase_def after_call_def deferred_run_quiet report_def
        ready_status_def text_phases Let_def split: option.splits)
qed

section \<open>Reaching the certificate\<close>

text \<open>
  A remote service that completes its task: it always hands out a token, accepts the request,
  answers each poll of a task URL with a resource URL or, at most \<open>polls\<close> times, with a status
  that is not an end of the review, and serves the certificate at the resource URL.
\<close>

definition completes ::
    "'w signer \<Rightarrow> bytes \<Rightarrow> (string \<Rightarrow> bool) \<Rightarrow> (string \<Rightarrow> bool) \<Rightarrow> ('w \<Rightarrow> nat) \<Rightarrow> bool" where
  "completes S csr task resource polls \<longleftrightarrow>
     (\<forall>w. \<exists>t w'. sg_GetRefreshToken S w = (Ok t, w') \<and> polls w' \<le> polls w) \<and>
     (\<forall>t w. \<exists>u w'. sg_SubmitCertificateRequest S t csr w = (Ok u, w') \<and> task (trim_space u)) \<and>
     (\<forall>t u w. task u \<longrightarrow> (\<exists>v s w'. sg_RequestTaskStatus S t u w = (Ok (v, s), w') \<and>
        (v \<noteq> [] \<and> resource (trim_space v) \<or>
         v = [] \<and> s \<notin> {TaskStatusDeclined, TaskStatusCanceled, TaskStatusFailed} \<and> polls w' < polls w))) \<and>
     (\<forall>t u w. resource u \<longrightarrow> (\<exists>cert w'. sg_FetchCertificate S t u w = (Ok cert, w')))"

definition on_course :: "(string \<Rightarrow> bool) \<Rightarrow> (string \<Rightarrow> bool) \<Rightarrow> phase \<Rightarrow> bool" where
  "on_course task resource p \<longleftrightarrow> \<not> final p \<and> (\<forall>u. in_review p = Some u \<longrightarrow> task u) \<and>
     (\<forall>u. p = PhSigned u \<longrightarrow> resource u)"

fun phase_rank :: "phase \<Rightarrow> nat" where
  "phase_rank PhFresh = 3"
| "phase_rank PhWaiting = 2"
| "phase_rank (PhSigned u) = 0"
| "phase_rank _ = 1"

lemma review_next_course:
  assumes "in_review p = Some u" and "task u"
    and "v \<noteq> [] \<and> resource (trim_space v) \<or>
         v = [] \<and> s \<notin> {TaskStatusDeclined, TaskStatusCanceled, TaskStatusFailed}"
  shows "on_course task resource (review_next p u v s)"
    and "v \<noteq> [] \<and> phase_rank (review_next p u v s) < phase_rank p \<or>
         v = [] \<and> phase_rank (review_next p u v s) = phase_rank p"
  using assms by (auto simp: on_course_def review_next_def elim!: in_review_SomeE)

context signer_contract begin

lemma reconcile_once_keeps:
  assumes "cmutil_laws cm" and "rc_SignerBuilder r = build" and "cr_wf cr" and "signable cm r k cr S"
    and "reconcile_once cm lib r k req (cr, w) = (cr', w')"
  shows "cr_wf cr' \<and> signable cm r k cr' S \<and> cr_Request cr' = cr_Request cr"
proof -
  define k1 where "k1 = k\<lparr>k_get_CertificateRequest := (\<lambda>n. Inr cr)\<rparr>"
  have get: "k_get_CertificateRequest k1 req = Inr cr" by (simp add: k1_def)
  consider "cr' = cr" | "oc_update (CrReconcile cm lib r k1 req w) = Some cr'"
    using assms(5) by (auto simp: reconcile_once_def Let_def k1_def split: option.splits if_splits)
  then show ?thesis
  proof cases
    case 2
    note frame = CrReconcile_frame [OF assms(1) get 2]
    then show ?thesis
      using reconcile_step [OF assms(1,2) get assms(3) 2] signable_frame [OF assms(1,4) frame]
      by (auto simp: same_spec_def)
  qed (use assms(3,4) in simp)
qed

lemma turn_on_course:
  assumes "cmutil_laws cm" and "cr_wf cr" and "signable cm r k cr S" and "k_update_cr k = (\<lambda>cr. None)"
    and "completes S (cr_Request cr) task resource polls" and "on_course task resource (phase_of cr)"
  shows "\<exists>cr' w'. reconcile_once cm lib r k req (cr, w) = (cr', w') \<and>
    (phase_of cr' = PhIssued \<or> on_course task resource (phase_of cr') \<and>
      ((phase_rank (phase_of cr'), polls w'), (phase_rank (phase_of cr), polls w)) \<in> less_than <*lex*> less_than)"
proof -
  obtain t w1 where tok: "sg_GetRefreshToken S w = (Ok t, w1)" "polls w1 \<le> polls w"
    using assms(5) unfolding completes_def by blast
  consider "phase_of cr = PhFresh" | "phase_of cr = PhWaiting"
    | u where "in_review (phase_of cr) = Some u" "task u" | u where "phase_of cr = PhSigned u" "resource u"
    using assms(6) by (cases "phase_of cr") (auto simp: on_course_def)
  then show ?thesis
  proof cases
    case 1
    then obtain cr' where "reconcile_once cm lib r k req (cr, w) = (cr', w)" "phase_of cr' = PhWaiting"
      using reconcile_once_fresh [OF assms(1-3) _ assms(4)] by metis
    with 1 show ?thesis by (auto simp: on_course_def)
  next
    case 2
    obtain u w2 where "sg_SubmitCertificateRequest S t (cr_Request cr) w1 = (Ok u, w2)" "task (trim_space u)"
      using assms(5) unfolding completes_def by blast
    with turn_submit [OF assms(1-4) 2 tok(1), of u w2] 2 show ?thesis by (fastforce simp: on_course_def)
  next
    case 3
    obtain v s w2 where poll: "sg_RequestTaskStatus S t u w1 = (Ok (v, s), w2)"
      "v \<noteq> [] \<and> resource (trim_space v) \<or>
       v = [] \<and> s \<notin> {TaskStatusDeclined, TaskStatusCanceled, TaskStatusFailed} \<and> polls w2 < polls w1"
      using assms(5) 3 unfolding completes_def by blast
    obtain cr' where "reconcile_once cm lib r k req (cr, w) = (cr', w2)"
      "phase_of cr' = review_next (phase_of cr) u v s"
      using turn_poll [OF assms(1-4) 3(1) tok(1) poll(1)] by blast
    with review_next_course [where task = task and resource = resource and v = v and s = s, OF 3] poll(2) tok(2) show ?thesis by auto
  next
    case 4
    obtain cert w2 where "sg_FetchCertificate S t u w1 = (Ok cert, w2)"
      using assms(5) 4 unfolding completes_def by blast
    with turn_fetch [OF assms(1-4) 4(1) tok(1)] show ?thesis by blast
  qed
qed

lemma reaches_issued:
  assumes "cmutil_laws cm" and "rc_SignerBuilder r = build" and "k_update_cr k = (\<lambda>cr. None)"
    and "completes S csr task resource polls"
    and "cr_wf cr" and "signable cm r k cr S" and "cr_Request cr = csr" and "on_course task resource (phase_of cr)"
  shows "\<exists>n. phase_of (fst ((reconcile_once cm lib r k req ^^ n) (cr, w))) = PhIssued"
  using assms(5-8)
proof (induction "(phase_rank (phase_of cr), polls w)" arbitrary: cr w
    rule: wf_induct_rule [OF wf_lex_prod [OF wf_less_than wf_less_than]])
  case 1
  obtain cr' w' where turn: "reconcile_once cm lib r k req (cr, w) = (cr', w')"
    and out: "phase_of cr' = PhIssued \<or> on_course task resource (phase_of cr') \<and>
      ((phase_rank (phase_of cr'), polls w'), (phase_rank (phase_of cr), polls w)) \<in> less_than <*lex*> less_than"
    using turn_on_course [OF assms(1) 1(2,3) assms(3) assms(4) [folded 1(4)] 1(5)] by blast
  note keeps = reconcile_once_keeps [OF assms(1,2) 1(2,3) turn]
  have "\<exists>n. phase_of (fst ((reconcile_once cm lib r k req ^^ n) (cr', w'))) = PhIssued"
    using out
  proof
    assume "phase_of cr' = PhIssued"
    then show ?thesis by (intro exI [of _ 0]) simp
  qed (use 1(1,4) keeps in auto)
  then obtain n where "phase_of (fst ((reconcile_once cm lib r k req ^^ n) (cr', w'))) = PhIssued" ..
  with turn show ?case
    by (intro exI [of _ "Suc n"]) (simp only: funpow_Suc_right o_apply)
qed

lemma iterate_keeps:
  assumes "cmutil_laws cm" and "rc_SignerBuilder r = build" and "cr_wf cr" and "signable cm r k cr S"
  shows "cr_wf (fst ((reconcile_once cm lib r k req ^^ m) (cr, w))) \<and>
    signable cm r k (fst ((reconcile_once cm lib r k req ^^ m) (cr, w))) S"
proof (induction m)
  case (Suc m)
  obtain c v where mid: "(reconcile_once cm lib r k req ^^ m) (cr, w) = (c, v)"
    by (cases "(reconcile_once cm lib r k req ^^ m) (cr, w)")
  obtain c' v' where turn: "reconcile_once cm lib r k req (c, v) = (c', v')"
    by (cases "reconcile_once cm lib r k req (c, v)")
  from Suc mid have "cr_wf c" "signable cm r k c S" by simp_all
  from reconcile_once_keeps [OF assms(1,2) this turn] mid turn show ?case by simp
qed (use assms(3,4) in simp)

text \<open>From a request on its way to a certificate in its status.\<close>

lemma reaches_certificate:
  assumes "cmutil_laws cm" and "rc_SignerBuilder r = build" and "k_update_cr k = (\<lambda>cr. None)"
    and "completes S (cr_Request cr) task resource polls"
    and "cr_wf cr" and "on_course task resource (phase_of cr)" and "signable cm r k cr S"
  shows "\<exists>n cr' w'. (reconcile_once cm lib r k req ^^ n) (cr, w) = (cr', w') \<and>
    phase_of cr' = PhIssued \<and> cr_Certificate cr' \<noteq> []"
proof -
  obtain n where n: "phase_of (fst ((reconcile_once cm lib r k req ^^ n) (cr, w))) = PhIssued"
    using reaches_issued [OF assms(1-5,7) refl assms(6)] by blast
  obtain cr' w' where eq: "(reconcile_once cm lib r k req ^^ n) (cr, w) = (cr', w')"
    by (cases "(reconcile_once cm lib r k req ^^ n) (cr, w)")
  from iterate_keeps [where lib = lib and req = req and m = n and w = w, OF assms(1,2,5,7)] eq have wf: "cr_wf cr'" by simp
  from n eq have ph: "phase_of cr' = PhIssued" by simp
  then have "cr_Certificate cr' \<noteq> []"
    using cr_wfD(4) [OF wf] by (auto simp: phase_of_def cond_phase_def split: option.splits if_splits)
  with eq ph show ?thesis by blast
qed

end

end
