(* ===== verification/CrOutcomes.thy ===== *)
theory CrOutcomes
  imports CrProgress
begin

text \<open>
  How a reconciliation ends: when it asks to be run again, what an error leaves behind, and
  where it can panic.
\<close>

section \<open>Requeueing\<close>

text \<open>A body that returns without an error asks for another run exactly when the request is in review.\<close>

definition requeue_of :: "phase \<Rightarrow> duration" where
  "requeue_of p = (if in_review p = None then 0 else defaultTaskCheckInterval)"

definition requeues :: "body_exit \<times> 'w cr_run \<Rightarrow> bool" where
  "requeues res \<longleftrightarrow> (\<forall>q. fst res = Return q None \<longrightarrow> q = requeue_of (phase_of (run_cr (snd res))))"

lemma requeues_simps [simp]:
  "requeues (Unwind, run)" "requeues (Return q (Some e), run)" "requeues (signer_failed e, run)"
  "requeues (Return q None, run) \<longleftrightarrow> q = requeue_of (phase_of (run_cr run))"
  by (simp_all add: requeues_def signer_failed_def)

lemma phase_of_report:
  "cmutil_laws cm \<Longrightarrow> phase_of (run_cr (report cm reason m False err run)) =
     text_phase reason (report_message m err)"
  using phase_of_set [of cm "run_cr run" reason "report_message m err"]
  by (simp add: report_def Let_def ready_status_def)

lemma requeue_of_simps [simp]:
  "requeue_of PhFresh = 0" "requeue_of PhWaiting = 0" "requeue_of (PhSigned u) = 0"
  "requeue_of PhIssued = 0" "requeue_of PhFailed = 0" "requeue_of PhDenied = 0"
  "requeue_of (PhSubmitted u) = defaultTaskCheckInterval"
  "requeue_of (PhProcessing u) = defaultTaskCheckInterval"
  "requeue_of (PhApproved u) = defaultTaskCheckInterval"
  by (simp_all add: requeue_of_def)

lemma submit_phase_requeues: "cmutil_laws cm \<Longrightarrow> requeues (submit_phase cm S token run)"
  by (simp add: submit_phase_def Let_def phase_of_report text_phases split: prod.splits go_result.splits)

lemma fetch_phase_requeues: "cmutil_laws cm \<Longrightarrow> requeues (fetch_phase cm lib S token u run)"
  by (simp add: fetch_phase_def Let_def phase_of_report text_phases split: prod.splits go_result.splits)

lemma poll_phase_requeues:
  assumes "cmutil_laws cm" and "in_review (phase_of (run_cr run)) = Some u"
  shows "requeues (poll_phase cm S token u run)"
proof -
  obtain res w where call: "sg_RequestTaskStatus S token u (run_world run) = (res, w)"
    by (cases "sg_RequestTaskStatus S token u (run_world run)")
  have "requeue_of (phase_of (run_cr run)) = defaultTaskCheckInterval"
    using assms(2) by (simp add: requeue_of_def)
  then show ?thesis
    using assms(1)
    by (cases res) (auto simp: poll_phase_def call Let_def phase_of_report text_phases)
qed

lemma sign_phase_requeues:
  assumes "cmutil_laws cm" and "cr_wf (run_cr run)" and "\<not> final (phase_of (run_cr run))"
  shows "requeues (sign_phase cm lib S token run)"
proof -
  have "in_review (phase_of (run_cr run)) = Some u"
    if "\<not> IsSigned (cr_Conditions (run_cr run))" "IsSubmitted (cr_Conditions (run_cr run))"
      "Option.bind (GetSubmittedCondition (cr_Conditions (run_cr run))) message_url = Some u" for u
    using submitted_phase(2) [OF assms(2,3), of u] that by (simp add: poll_url_def)
  with assms(1) show ?thesis
    by (auto simp: sign_phase_def Let_def fetch_phase_requeues submit_phase_requeues
        poll_phase_requeues split: option.splits)
qed

lemma issuer_phase_requeues:
  assumes "cmutil_laws cm" and "cr_wf (run_cr run)" and "\<not> final (phase_of (run_cr run))"
  shows "requeues (issuer_phase cm lib r k ns issuer run)"
  using assms sign_phase_requeues [OF assms(1), of "after_call c w run" for c w]
  by (auto simp: issuer_phase_def Let_def phase_of_report text_phases
      split: sum.splits prod.splits go_result.splits)

lemma cr_body_requeues:
  assumes "cmutil_laws cm" and "cr_wf (run_cr run)" and "\<not> final (phase_of (run_cr run))"
  shows "requeues (cr_body cm lib r k run)"
  using assms(1) issuer_phase_requeues [OF assms]
  unfolding cr_body_def Let_def
  by (auto simp: phase_of_report text_phases split: sum.splits runtime_object.splits)

lemma CrReconcile_requeue:
  assumes "cmutil_laws cm" and "k_get_CertificateRequest k req = Inr cr" and "cr_wf cr"
    and "oc_update (CrReconcile cm lib r k req w) = Some cr'"
    and "oc_error (CrReconcile cm lib r k req w) = None" and "\<not> oc_panic (CrReconcile cm lib r k req w)"
  shows "oc_RequeueAfter (CrReconcile cm lib r k req w) = requeue_of (phase_of cr')"
proof -
  obtain cr1 where "k_get_CertificateRequest k req = Inr cr1" and ni: "\<not> cr_ignored cm r cr1"
    and eq: "CrReconcile cm lib r k req w = cr_deferred cm k
       (cr_body cm lib r k \<lparr>run_cr = cr1, run_events = [], run_calls = [], run_world = w\<rparr>)"
    using CrReconcile_update [OF assms(4)] by metis
  with assms(2) have cr: "cr1 = cr" by simp
  obtain ex run' where body: "cr_body cm lib r k
      \<lparr>run_cr = cr, run_events = [], run_calls = [], run_world = w\<rparr> = (ex, run')"
    by fastforce
  from assms(5,6) obtain q where ex: "ex = Return q None"
    unfolding eq cr body cr_deferred_simps
    by (cases ex) (auto simp: cr_deferred_def Let_def split: option.splits)
  have "requeues (cr_body cm lib r k \<lparr>run_cr = cr, run_events = [], run_calls = [], run_world = w\<rparr>)"
    using ni unfolding cr cr_ignored_phase [OF assms(1,3)]
    by (intro cr_body_requeues) (use assms in auto)
  then have q: "q = requeue_of (phase_of (run_cr run'))" by (simp add: body ex)
  from assms(5) have "oc_RequeueAfter (cr_deferred cm k (ex, run')) = q"
    unfolding eq cr body ex by (auto simp: cr_deferred_def split: option.splits)
  moreover have "cr' = run_cr run'"
    using assms(4) unfolding eq cr body cr_deferred_simps ex by (simp add: deferred_run_quiet)
  ultimately show ?thesis using q unfolding eq cr body by simp
qed

lemma CrReconcile_ignored:
  "k_get_CertificateRequest k req = Inr cr \<Longrightarrow> cr_ignored cm r cr \<Longrightarrow> CrReconcile cm lib r k req w = quiet_return None w"
  by (simp add: CrReconcile_def)

lemma CrReconcile_body:
  assumes "k_get_CertificateRequest k req = Inr cr" and "\<not> cr_ignored cm r cr"
  shows "CrReconcile cm lib r k req w = cr_deferred cm k
    (cr_body cm lib r k \<lparr>run_cr = cr, run_events = [], run_calls = [], run_world = w\<rparr>)"
  using assms by (simp add: CrReconcile_def)

section \<open>Errors\<close>

text \<open>
  The error of the reconciliation itself, when it ends with one, alone or joined by the error of
  the status update.
\<close>

definition own_error :: "ret_error option \<Rightarrow> go_error option" where
  "own_error e = (case e of None \<Rightarrow> None | Some (Single e) \<Rightarrow> Some e | Some (Aggregate e upd) \<Rightarrow> e)"

lemma own_error_deferred: "own_error (oc_error (cr_deferred cm k (ex, run))) =
    (case ex of Return q e \<Rightarrow> e | Unwind \<Rightarrow> None)"
  by (auto simp: cr_deferred_def own_error_def Let_def split: option.splits body_exit.splits)

lemma CrReconcile_error:
  assumes "k_get_CertificateRequest k req = Inr cr"
    and "own_error (oc_error (CrReconcile cm lib r k req w)) = Some e"
  shows "oc_update (CrReconcile cm lib r k req w) =
      Some (if str_contains (err_text e) (err_text errSignerRefused)
            then cm_SetCondition cm cr cm_Ready cm_False cm_Pending
                   (report_message ''Temporary error. Retrying'' (Some e))
            else cr)"
    and "oc_events (CrReconcile cm lib r k req w) =
      (if str_contains (err_text e) (err_text errSignerRefused)
       then [cr_event ''Temporary error. Retrying'' (Some e)] else [])"
proof -
  define run where "run = \<lparr>run_cr = cr, run_events = [], run_calls = [], run_world = w\<rparr>"
  obtain ex run' where body: "cr_body cm lib r k run = (ex, run')"
    by (cases "cr_body cm lib r k run")
  have eq: "CrReconcile cm lib r k req w = cr_deferred cm k (ex, run')"
    using assms body by (auto simp: CrReconcile_def run_def own_error_def split: if_splits)
  then obtain q where ex: "ex = Return q (Some e)"
    using assms(2) unfolding eq own_error_deferred by (cases ex) auto
  then have "silent run run'"
    using cr_body_writes [of cm lib r k run] by (auto simp: body body_writes_def)
  then show "oc_update (CrReconcile cm lib r k req w) =
      Some (if str_contains (err_text e) (err_text errSignerRefused)
            then cm_SetCondition cm cr cm_Ready cm_False cm_Pending
                   (report_message ''Temporary error. Retrying'' (Some e))
            else cr)"
    and "oc_events (CrReconcile cm lib r k req w) =
      (if str_contains (err_text e) (err_text errSignerRefused)
       then [cr_event ''Temporary error. Retrying'' (Some e)] else [])"
    unfolding eq cr_deferred_simps
    by (simp_all add: ex deferred_run_def silent_def run_def report_def cr_event_def Let_def)
qed

section \<open>Panics\<close>

text \<open>No call can be made when the message that names its URL has no colon.\<close>

lemma next_call_None:
  "next_call token cr = None \<longleftrightarrow>
     (\<exists>c. (GetSignedCondition (cr_Conditions cr) = Some c \<or> GetSignedCondition (cr_Conditions cr) = None \<and>
        GetSubmittedCondition (cr_Conditions cr) = Some c) \<and> CHR '':'' \<notin> set (cc_Message c))"
  by (auto simp: next_call_def Let_def IsSigned_def IsSubmitted_def message_url_def after_colon_None_iff split: option.splits)

context signer_contract begin

lemma sign_phase_unwind:
  assumes "build spec realm secret = Inr S"
  shows "fst (sign_phase cm lib S token run) = Unwind \<longleftrightarrow> next_call token (run_cr run) = None \<or>
    (\<exists>u. next_call token (run_cr run) = Some (CallFetch token u) \<and> fst (sg_FetchCertificate S token u (run_world run)) = Panic)"
proof -
  have sub: "fst (submit_phase cm S token run) \<noteq> Unwind"
    using submit_total [OF assms, of token "cr_Request (run_cr run)" "run_world run"]
    by (auto simp: submit_phase_def Let_def signer_failed_def split: prod.splits go_result.splits)
  have poll: "fst (poll_phase cm S token u run) \<noteq> Unwind" for u
    using status_total [OF assms, of token u "run_world run"]
    by (auto simp: poll_phase_def Let_def signer_failed_def split: prod.splits go_result.splits)
  have fetch: "fst (fetch_phase cm lib S token u run) = Unwind \<longleftrightarrow>
      fst (sg_FetchCertificate S token u (run_world run)) = Panic" for u
    by (auto simp: fetch_phase_def Let_def signer_failed_def split: prod.splits go_result.splits)
  show ?thesis
    by (auto simp: sign_phase_def next_call_def Let_def sub poll fetch split: option.splits)
qed

lemma token_phase_unwind:
  assumes "build spec realm secret = Inr S"
  shows "fst (token_phase cm lib S run) = Unwind \<longleftrightarrow>
    (\<exists>token w1. sg_GetRefreshToken S (run_world run) = (Ok token, w1) \<and> (next_call token (run_cr run) = None \<or>
       (\<exists>u. next_call token (run_cr run) = Some (CallFetch token u) \<and> fst (sg_FetchCertificate S token u w1) = Panic)))"
  using token_total [OF assms, of "run_world run"] sign_phase_unwind [OF assms, of cm lib _ "after_call CallToken w run" for w]
  by (auto simp: token_phase_def Let_def signer_failed_def split: prod.splits go_result.splits)

lemma issuer_phase_returns:
  assumes "\<And>spec st secret S. GetSpecAndStatus issuer = Inr (spec, st) \<Longrightarrow> IsReady st \<Longrightarrow>
      k_get_Secret k (sns, is_AuthSecretName spec) = Inr secret \<Longrightarrow>
      rc_SignerBuilder r spec (rc_AuthRealm r) secret \<noteq> Inr S"
  shows "fst (issuer_phase cm lib r k sns issuer run) \<noteq> Unwind"
  using assms by (auto simp: issuer_phase_def Let_def signer_failed_def split: sum.splits prod.splits)

lemma cr_body_unwind_unsigned:
  assumes "\<nexists>S. issuer_serves r k (run_cr run) S" and "\<not> cm_IsDenied cm (run_cr run)"
    and "cm_GetCondition cm (run_cr run) cm_Ready \<noteq> None"
  shows "fst (cr_body cm lib r k run) = Unwind \<longleftrightarrow>
    (\<exists>t. k_scheme_new k (cr_IssuerKind (run_cr run)) = Inr (RtNotClientObject t))"
proof -
  have stop: "fst (issuer_phase cm lib r k sns issuer run) \<noteq> Unwind"
    if "k_scheme_new k (cr_IssuerKind (run_cr run)) = Inr ro"
      and "get_object k ro (ns, cr_IssuerName (run_cr run)) = Inr issuer"
      and "(ro = RtIssuer \<and> ns = cr_Namespace (run_cr run) \<and> sns = cr_Namespace (run_cr run)) \<or>
           (ro = RtClusterIssuer \<and> ns = [] \<and> sns = rc_ClusterResourceNamespace r)"
    for ro ns sns issuer
    by (rule issuer_phase_returns) (use that assms(1) in \<open>unfold issuer_serves_def, blast\<close>)
  show ?thesis
    unfolding cr_body_def Let_def if_not_P [OF assms(2)] if_not_P [OF assms(3)]
    by (auto split: sum.splits runtime_object.splits dest: stop)
qed

text \<open>When a reconciliation panics.\<close>

lemma CrReconcile_panics:
  assumes "rc_SignerBuilder r = build"
  shows "oc_panic (CrReconcile cm lib r k req w) \<longleftrightarrow>
    (\<exists>cr. k_get_CertificateRequest k req = Inr cr \<and> eligible cm r cr \<and> \<not> cm_IsDenied cm cr \<and>
       cm_GetCondition cm cr cm_Ready \<noteq> None \<and>
       ((\<exists>t. k_scheme_new k (cr_IssuerKind cr) = Inr (RtNotClientObject t)) \<or>
        (\<exists>S token w1. issuer_serves r k cr S \<and> sg_GetRefreshToken S w = (Ok token, w1) \<and>
           (next_call token cr = None \<or>
            (\<exists>u. next_call token cr = Some (CallFetch token u) \<and> fst (sg_FetchCertificate S token u w1) = Panic)))))"
proof (cases "\<exists>cr. k_get_CertificateRequest k req = Inr cr \<and> \<not> cr_ignored cm r cr")
  case False
  then have "\<not> oc_panic (CrReconcile cm lib r k req w)"
    by (auto simp: CrReconcile_def split: sum.splits get_error.splits)
  with False show ?thesis by (simp add: eligible_iff)
next
  case True
  then obtain cr where get: "k_get_CertificateRequest k req = Inr cr" and ni: "\<not> cr_ignored cm r cr" by blast
  define run where "run = \<lparr>run_cr = cr, run_events = [], run_calls = [], run_world = w\<rparr>"
  have run: "run_cr run = cr" "run_world run = w" by (simp_all add: run_def)
  have panic: "oc_panic (CrReconcile cm lib r k req w) \<longleftrightarrow> fst (cr_body cm lib r k run) = Unwind"
    by (simp add: CrReconcile_body [OF get ni] cr_deferred_simps run_def)
  show ?thesis
  proof (cases "cm_IsDenied cm cr \<or> cm_GetCondition cm cr cm_Ready = None")
    case True
    then have "fst (cr_body cm lib r k run) \<noteq> Unwind" by (auto simp: cr_body_def run Let_def)
    with True show ?thesis by (auto simp: panic get)
  next
    case False
    then have nd: "\<not> cm_IsDenied cm cr" and rd: "cm_GetCondition cm cr cm_Ready \<noteq> None" by simp_all
    show ?thesis
    proof (cases "\<exists>S. issuer_serves r k cr S")
      case True
      then obtain S where S: "issuer_serves r k cr S" ..
      then have may: "may_sign cm r k (run_cr run) S" using nd rd by (simp add: may_sign_def run)
      obtain spec secret where built: "build spec (rc_AuthRealm r) secret = Inr S"
        using S assms unfolding issuer_serves_def by blast
      have unique: "issuer_serves r k cr S' \<longleftrightarrow> S' = S" for S'
        using S unfolding issuer_serves_def by auto
      have "\<nexists>t. k_scheme_new k (cr_IssuerKind cr) = Inr (RtNotClientObject t)"
        using S unfolding issuer_serves_def by auto
      then show ?thesis
        unfolding panic cr_body_may_sign [OF may] token_phase_unwind [OF built] run
        using get ni nd rd by (simp add: unique eligible_iff del: not_None_eq)
    next
      case False
      with cr_body_unwind_unsigned [of r k run cm lib] nd rd get ni show ?thesis
        by (simp add: panic run eligible_iff)
    qed
  qed
qed

end

end
