(* ===== verification/Examples.thy ===== *)
theory Examples
  imports CrOutcomes
begin

text \<open>
  One concrete setting in which the hypotheses of the theorems hold: a cluster with a ready
  issuer, its secret and a request; a library that knows the few texts exchanged; and a remote
  service that accepts a request, has it signed at once and serves the certificate. The
  parameters of the model are instantiated here and nowhere else.
\<close>

section \<open>The library and the remote service\<close>

definition ex_csr_pem :: bytes where
  "ex_csr_pem = pem_text \<lparr>pb_Type = ''CERTIFICATE REQUEST'', pb_Headers = [], pb_Bytes = ''csr''\<rparr>"

definition ex_ca_block :: pem_block where
  "ex_ca_block = \<lparr>pb_Type = ''CERTIFICATE'', pb_Headers = [], pb_Bytes = ''ca''\<rparr>"

definition ex_ca_pem :: bytes where
  "ex_ca_pem = pem_text ex_ca_block"

definition ex_lib :: golib where
  "ex_lib = \<lparr>
     lib_url_authority = (\<lambda>a. None),
     lib_quote = (\<lambda>s. CHR 0x22 # s @ [CHR 0x22]),
     lib_json_syntax_error = (\<lambda>b. ErrText ''invalid character''),
     lib_json_type_error = (\<lambda>j. ErrText ''cannot unmarshal''),
     lib_fmt_float = (\<lambda>n. n),
     lib_tmpl_parse = (\<lambda>t. None),
     lib_tmpl_exec = (\<lambda>t vars. Inr t),
     lib_pem_decode = strict_decode,
     lib_parse_csr = (\<lambda>b. Inr \<lparr>csr_CommonName = ''host'', csr_Country = [''CH''], csr_Locality = [],
        csr_Organization = [], csr_OrganizationalUnit = [], csr_Province = [''ZH''], csr_EmailAddresses = []\<rparr>),
     lib_parse_cert = (\<lambda>b. Inr \<lparr>xc_Raw = b, xc_IsCA = True\<rparr>),
     lib_check_signature_from = (\<lambda>c p. None),
     lib_parse_pkcs1 = (\<lambda>b. Inr b)\<rparr>"

text \<open>The answer that carries the certificate, a JSON text.\<close>

definition ex_body :: bytes where
  "ex_body = json_marshal (JObj [(''data'', JStr ex_ca_pem)])"

definition ex_net :: "unit net" where
  "ex_net = \<lparr>
     net_do = (\<lambda>rq w. (Inr (if rq_Method rq = ''POST''
        then \<lparr>rs_StatusCode = 202, rs_Header = [(''Location'', ''http://api/task'')], rs_Body = [], rs_BodyErr = None\<rparr>
        else if rq_URL rq = ''https://xc/task''
        then \<lparr>rs_StatusCode = 303, rs_Header = [(''Location'', ''http://api/cert'')], rs_Body = ''{}'', rs_BodyErr = None\<rparr>
        else \<lparr>rs_StatusCode = 200, rs_Header = [], rs_Body = ex_body, rs_BodyErr = None\<rparr>), w)),
     net_oauth = (\<lambda>rq w. (Inr ''access'', w)),
     net_unix = (\<lambda>w. 1700000000)\<rparr>"

section \<open>The cluster\<close>

definition ex_spec :: issuer_spec where
  "ex_spec = \<lparr>is_URL = ''https://xc'', is_CustomFields = [\<lparr>cf_Name = ''owner'', cf_Value = ''team''\<rparr>],
     is_AuthSecretName = ''auth'', is_ProfileName = ''tls'', is_SubscriberName = ''sub'',
     is_IgnoreHostInApiResponse = True\<rparr>"

definition ex_secret :: "string \<rightharpoonup> bytes" where
  "ex_secret = [''client-id'' \<mapsto> ''id'', ''client-secret'' \<mapsto> ''cs'', ''token'' \<mapsto> ''tok'', ''signature-key'' \<mapsto> ''key'']"

definition ex_ready_condition :: issuer_condition where
  "ex_ready_condition = \<lparr>ic_Type = IssuerConditionReady, ic_Status = ConditionTrue,
     ic_LastTransitionTime = Some 0, ic_Reason = EventReasonIssuerReconciler, ic_Message = ''Success''\<rparr>"

definition ex_issuer :: "issuer_condition list \<Rightarrow> issuer" where
  "ex_issuer conds = \<lparr>iss_Namespace = ''ns'', iss_Name = ''iss'', iss_Spec = ex_spec,
     iss_Status = \<lparr>is_Conditions = conds\<rparr>\<rparr>"

definition ex_cr :: "cr_condition list \<Rightarrow> certificate_request" where
  "ex_cr conds = \<lparr>cr_Namespace = ''ns'', cr_Name = ''req'', cr_IssuerGroup = GroupVersion_Group,
     cr_IssuerKind = ''Issuer'', cr_IssuerName = ''iss'', cr_Request = ex_csr_pem, cr_Conditions = conds,
     cr_Certificate = [], cr_CA = [], cr_FailureTime = None\<rparr>"

definition ex_scheme :: "string \<Rightarrow> go_error + runtime_object" where
  "ex_scheme kind =
     (if kind = ''Issuer'' then Inr RtIssuer
      else if kind = ''ClusterIssuer'' then Inr RtClusterIssuer
      else if kind = ''IssuerList'' then Inr (RtNotClientObject ''IssuerList'')
      else if kind = ''ClusterIssuerList'' then Inr (RtNotClientObject ''ClusterIssuerList'')
      else Inl (ErrText ''no kind is registered''))"

definition ex_kube :: "issuer_condition list \<Rightarrow> certificate_request \<Rightarrow> kube" where
  "ex_kube conds cr = \<lparr>
     k_get_Issuer = (\<lambda>n. if n = (''ns'', ''iss'') then Inr (ex_issuer conds) else Inl (GetNotFound (ErrText ''not found''))),
     k_get_ClusterIssuer = (\<lambda>n. Inl (GetNotFound (ErrText ''not found''))),
     k_get_Other = (\<lambda>t n. Inl (GetNotFound (ErrText ''not found''))),
     k_get_Secret = (\<lambda>n. if n = (''ns'', ''auth'') then Inr ex_secret else Inl (GetNotFound (ErrText ''not found''))),
     k_get_CertificateRequest = (\<lambda>n. Inr cr),
     k_update_issuer = (\<lambda>o1. None),
     k_update_cr = (\<lambda>cr. None),
     k_scheme_new = ex_scheme,
     k_nn_string = (\<lambda>(ns, n). ns @ ''/'' @ n),
     k_now = 1700000000000000000\<rparr>"

definition ex_reconciler :: "bool \<Rightarrow> unit cr_reconciler" where
  "ex_reconciler check = \<lparr>rc_SignerBuilder = essendi_builder ex_lib ex_net,
     rc_ClusterResourceNamespace = ''system'', rc_AuthRealm = ''realm'', rc_CheckApprovedCondition = check\<rparr>"

definition ex_issuer_reconciler :: "unit issuer_reconciler" where
  "ex_issuer_reconciler = \<lparr>ir_Kind = ''Issuer'', ir_ClusterResourceNamespace = ''system'',
     ir_HealthCheckerBuilder = EssendiHealthCheckerFromIssuerAndSecretData, ir_Check = Check\<rparr>"

definition ex_req :: namespaced_name where "ex_req = (''ns'', ''req'')"

text \<open>The Ready conditions of a request on its way.\<close>

definition ex_cond :: "string \<Rightarrow> string \<Rightarrow> cr_condition" where
  "ex_cond reason m = \<lparr>cc_Type = cm_Ready, cc_Status = ready_status reason, cc_Reason = reason,
     cc_Message = m, cc_LastTransitionTime = None\<rparr>"

definition ex_waiting :: certificate_request where
  "ex_waiting = ex_cr [ex_cond cm_Pending ''Initialising Ready condition'']"
definition ex_submitted :: certificate_request where
  "ex_submitted = ex_cr [ex_cond cm_Pending (status_message IssuerConditionStatusSubmitted ''https://xc/task'')]"
definition ex_signed :: certificate_request where
  "ex_signed = ex_cr [ex_cond cm_Pending (resource_message IssuerConditionStatusSigned ''https://xc/cert'')]"

section \<open>Facts about the setting\<close>

lemma ex_cr_simps [simp]:
  "cr_Namespace (ex_cr cs) = ''ns''" "cr_IssuerGroup (ex_cr cs) = GroupVersion_Group"
  "cr_IssuerKind (ex_cr cs) = ''Issuer''" "cr_IssuerName (ex_cr cs) = ''iss''"
  "cr_Request (ex_cr cs) = ex_csr_pem" "cr_Conditions (ex_cr cs) = cs"
  "cr_FailureTime (ex_cr cs) = None" "cr_Certificate (ex_cr cs) = []"
  by (simp_all add: ex_cr_def)

lemma ex_kube_simps [simp]:
  "k_get_CertificateRequest (ex_kube conds cr) req = Inr cr"
  "k_update_cr (ex_kube conds cr) = (\<lambda>cr. None)" "k_update_issuer (ex_kube conds cr) = (\<lambda>o1. None)"
  "k_scheme_new (ex_kube conds cr) = ex_scheme"
  "k_get_Secret (ex_kube conds cr) (''ns'', ''auth'') = Inr ex_secret"
  "k_now (ex_kube conds cr) = 1700000000000000000"
  by (simp_all add: ex_kube_def)

lemma ex_scheme_registered: "scheme_registered (ex_kube conds cr)"
  by (simp add: scheme_registered_iff ex_scheme_def)

lemma ex_reconciler_simps [simp]:
  "rc_SignerBuilder (ex_reconciler check) = essendi_builder ex_lib ex_net"
  "rc_AuthRealm (ex_reconciler check) = ''realm''"
  "rc_CheckApprovedCondition (ex_reconciler check) = check"
  by (simp_all add: ex_reconciler_def)

definition ex_essendi :: essendixc_signer where
  "ex_essendi = \<lparr>es_issuer = ex_spec, es_clientID = ''id'', es_clientSecret = ''cs'',
     es_token = ''tok'', es_realm = ''realm'', es_signatureKey = ''key''\<rparr>"

definition ex_signer :: "unit signer" where
  "ex_signer = essendi_signer ex_lib ex_net ex_essendi"

lemma ex_builder: "EssendiSignerFromIssuerAndSecretData ex_spec ''realm'' ex_secret = Inr ex_essendi"
  by (simp add: EssendiSignerFromIssuerAndSecretData_def ex_secret_def ex_essendi_def)

lemma ex_built: "built (ex_reconciler check) ex_signer"
  unfolding built_def by (intro exI [of _ ex_spec] exI [of _ ex_secret])
    (simp add: essendi_builder_def ex_builder ex_signer_def)

lemma ex_issuer_serves:
  assumes "rc_SignerBuilder r ex_spec (rc_AuthRealm r) ex_secret = Inr S"
  shows "issuer_serves r (ex_kube [ex_ready_condition] cr0) (ex_cr cs) S"
proof -
  have "GetSpecAndStatus (ObjIssuer (ex_issuer [ex_ready_condition])) =
      Inr (ex_spec, \<lparr>is_Conditions = [ex_ready_condition]\<rparr>)"
    by (simp add: GetSpecAndStatus_def ex_issuer_def)
  moreover have "IsReady \<lparr>is_Conditions = [ex_ready_condition]\<rparr>"
    by (simp add: IsReady_def GetReadyCondition_def is_ready_cond_def ex_ready_condition_def)
  moreover have "get_object (ex_kube [ex_ready_condition] cr0) RtIssuer (''ns'', ''iss'') =
      Inr (ObjIssuer (ex_issuer [ex_ready_condition]))"
    by (simp add: get_object_def ex_kube_def)
  moreover have "is_AuthSecretName ex_spec = ''auth''" by (simp add: ex_spec_def)
  ultimately show ?thesis
    using assms unfolding issuer_serves_def
    by (intro exI [of _ RtIssuer] exI [of _ "''ns''"] exI [of _ "ObjIssuer (ex_issuer [ex_ready_condition])"]
        exI [of _ ex_spec] exI [of _ "\<lparr>is_Conditions = [ex_ready_condition]\<rparr>"] exI [of _ ex_secret])
       (simp add: ex_scheme_def)
qed

lemma ex_serves:
  "issuer_serves (ex_reconciler check) (ex_kube [ex_ready_condition] cr0) (ex_cr cs) ex_signer"
  by (rule ex_issuer_serves) (simp add: essendi_builder_def ex_builder ex_signer_def)

lemma ex_foreign: "cmutil_laws cm \<Longrightarrow> \<not> cm_IsDenied cm (ex_cr [ex_cond reason m])"
  by (simp add: has_condition_doc_def ex_cond_def)

lemma ex_signable:
  "signable cmutil_doc (ex_reconciler False) (ex_kube [ex_ready_condition] cr0) (ex_cr []) ex_signer"
  "signable cmutil_doc (ex_reconciler False) (ex_kube [ex_ready_condition] cr0) (ex_cr [ex_cond reason m]) ex_signer"
  by (simp_all add: signable_def ex_serves has_condition_doc_def ex_cond_def)

lemma ex_urls:
  "trim_space ''https://xc/task'' = ''https://xc/task''" "trim_space ''https://xc/cert'' = ''https://xc/cert''"
  "replace_host ''https://xc'' ''http://api/task'' = ''https://xc/task''"
  "replace_host ''https://xc'' ''http://api/cert'' = ''https://xc/cert''"
  by code_simp+

lemma ex_wf:
  "cr_wf ex_waiting" "cr_wf ex_submitted" "cr_wf ex_signed"
proof -
  have "cr_wf (ex_cr [ex_cond cm_Pending m])" if "text_wf m" for m
    using that ready_wf_text
    by (simp add: cr_wf_def stored_wf_def ex_cond_def foreign_quiet_def ready_status_def)
  then show "cr_wf ex_waiting" "cr_wf ex_submitted" "cr_wf ex_signed"
    unfolding ex_waiting_def ex_submitted_def ex_signed_def
    by (auto simp: text_wf_def ready_wf_def msg_text after_colon_status after_colon_resource phase_messages)
qed

lemma ex_phase_text: "phase_of (ex_cr [ex_cond reason m]) = text_phase reason m"
  by (simp add: phase_of_def ex_cond_def text_phase_def)

lemma ex_phases:
  "phase_of (ex_cr []) = PhFresh" "phase_of ex_waiting = PhWaiting"
  "phase_of ex_submitted = PhSubmitted ''https://xc/task''" "phase_of ex_signed = PhSigned ''https://xc/cert''"
  unfolding ex_waiting_def ex_submitted_def ex_signed_def ex_phase_text text_phases ex_urls
  by (simp_all add: phase_of_def)

text \<open>The answers of the signer.\<close>

lemma ex_token: "sg_GetRefreshToken ex_signer w = (Ok ''access'', w)"
  by (simp add: ex_signer_def essendi_signer_def GetRefreshToken_def ex_net_def)

lemma ex_pem_laws: "pem_laws ex_lib"
  by (rule pem_laws_strict) (simp add: ex_lib_def)

lemma ex_ca_plain: "plain_block ex_ca_block"
  by (simp add: plain_block_def ex_ca_block_def)

lemma ex_ca_pem_nonempty [simp]: "ex_ca_pem \<noteq> []"
  by (simp add: ex_ca_pem_def pem_text_def)

lemma ex_ca_found: "find (is_root_block ex_lib) (pem_blocks ex_lib ex_ca_pem) = Some ex_ca_block"
proof -
  have "pem_blocks ex_lib ex_ca_pem = [ex_ca_block]"
    using pem_blocks_concat [OF ex_pem_laws, of "[ex_ca_block]"] by (simp add: ex_ca_pem_def ex_ca_plain)
  then show ?thesis by (simp add: is_root_block_def ex_ca_block_def ex_lib_def)
qed

lemma ex_csr: "\<exists>csr. parseCSR ex_lib ex_csr_pem = Inr csr"
  using pem_decode_strict [of ex_lib "\<lparr>pb_Type = ''CERTIFICATE REQUEST'', pb_Headers = [], pb_Bytes = ''csr''\<rparr>" "[]"]
  by (simp add: parseCSR_def parse_pem_block_def ex_csr_pem_def plain_block_def ex_lib_def)

lemma ex_render: "render_fields ex_lib vars (is_CustomFields ex_spec) [] = Inr [(''owner'', ''team'')]"
  by (simp add: ex_spec_def ex_lib_def)

lemma ex_web_base: "web_base ex_lib ''https://xc''"
  unfolding web_base_def by (intro exI [of _ "''https''"] exI [of _ "''xc''"]) (simp add: web_scheme_def url_char_def ex_lib_def)

lemma ex_web_urls:
  "web_url ex_lib ''https://xc/api/v2/csr-process/request'' ''api/v2/csr-process/request''"
  "web_url ex_lib ''https://xc/task'' ''task''"
  "web_url ex_lib ''https://xc/cert'' ''cert''"
  unfolding web_url_def
  by ((rule exI [of _ "''https://xc''"], rule exI [of _ "[]"], simp add: ex_web_base url_query_def escape_path_def
      plain_path_char_def is_letter_def is_digit_def)+)

lemma ex_url_parse:
  "url_path ex_lib ''https://xc/api/v2/csr-process/request'' = Inr ''/api/v2/csr-process/request''"
  "url_path ex_lib ''https://xc/task'' = Inr ''/task''"
  "url_path ex_lib ''https://xc/cert'' = Inr ''/cert''"
  using ex_web_urls by (auto dest: url_path_web)

lemma ex_spec_simps [simp]:
  "is_URL ex_spec = ''https://xc''" "is_IgnoreHostInApiResponse ex_spec" "es_issuer ex_essendi = ex_spec"
  by (simp_all add: ex_spec_def ex_essendi_def)

lemma ex_empty_object: "json_parse ''{}'' = Some (JObj [])"
  by (simp add: json_parse_def begin_value_def maxNestingDepth_def)

lemma ex_body_parse: "json_parse ex_body = Some (JObj [(''data'', JStr ex_ca_pem)])"
proof -
  have "to_valid_utf8 ex_ca_pem = ex_ca_pem"
    unfolding ex_ca_pem_def by (intro to_valid_utf8_valid ascii_valid pem_text_ascii ex_ca_plain)
  then show ?thesis unfolding ex_body_def by (simp add: json_parse_marshal maxNestingDepth_def)
qed

lemma ex_submit: "sg_SubmitCertificateRequest ex_signer t ex_csr_pem w = (Ok ''https://xc/task'', w)"
proof -
  obtain csr where csr: "parseCSR ex_lib ex_csr_pem = Inr csr" using ex_csr ..
  have "net_do ex_net (submit_request ex_essendi t ts d) w =
      (Inr \<lparr>rs_StatusCode = 202, rs_Header = [(''Location'', ''http://api/task'')], rs_Body = [], rs_BodyErr = None\<rparr>, w)"
    for ts d by (simp add: ex_net_def submit_request_def)
  then show ?thesis
    by (simp add: ex_signer_def essendi_signer_def SubmitCertificateRequest_def csr ex_render Let_def
        apiUrl_def ex_url_parse submit_response_def StatusAccepted_def header_get_def ex_urls)
qed

lemma ex_poll: "sg_RequestTaskStatus ex_signer t ''https://xc/task'' w = (Ok (''https://xc/cert'', []), w)"
proof -
  have "net_do ex_net (get_request ex_essendi t ts ''https://xc/task'' p) w =
      (Inr \<lparr>rs_StatusCode = 303, rs_Header = [(''Location'', ''http://api/cert'')], rs_Body = ''{}'', rs_BodyErr = None\<rparr>, w)"
    for ts p by (simp add: ex_net_def get_request_def)
  moreover have "task_status ''{}'' = []"
    by (simp add: task_status_def unmarshal_string_map_def ex_empty_object)
  ultimately show ?thesis
    by (simp add: ex_signer_def essendi_signer_def RequestTaskStatus_def ex_url_parse status_response_def
        StatusSeeOther_def header_get_def ex_urls)
qed

lemma ex_fetch: "sg_FetchCertificate ex_signer t ''https://xc/cert'' w = (Ok ex_ca_pem, w)"
proof -
  have "net_do ex_net (get_request ex_essendi t ts ''https://xc/cert'' p) w =
      (Inr \<lparr>rs_StatusCode = 200, rs_Header = [], rs_Body = ex_body, rs_BodyErr = None\<rparr>, w)"
    for ts p by (simp add: ex_net_def get_request_def)
  moreover note ex_body_parse
  ultimately show ?thesis
    by (simp add: ex_signer_def essendi_signer_def FetchCertificate_def ex_url_parse fetch_response_def
        StatusOK_def unmarshal_map_def)
qed

text \<open>A request that is not ignored reaches the status update.\<close>

lemma reaches_update:
  assumes "k_get_CertificateRequest k req = Inr cr" and "\<not> cr_ignored cm r cr"
  obtains cr' where "oc_update (CrReconcile cm lib r k req w) = Some cr'"
  using assms by (simp add: CrReconcile_def cr_deferred_simps)

lemma ex_not_ignored:
  "\<not> cr_ignored cmutil_doc (ex_reconciler False) (ex_cr [])" "\<not> cr_ignored cmutil_doc (ex_reconciler False) ex_waiting"
  "\<not> cr_ignored cmutil_doc (ex_reconciler False) ex_submitted" "\<not> cr_ignored cmutil_doc (ex_reconciler False) ex_signed"
  by (simp_all add: cr_ignored_phase cr_wf_created ex_wf ex_phases)
     (simp_all add: ex_waiting_def ex_submitted_def ex_signed_def)

end
