(* ===== verification/IssuerTheorems.thy ===== *)
theory IssuerTheorems
  imports Examples
begin

text \<open>
  The properties of the issuer controller and of the Ready condition of an issuer, each with
  the setting of \<open>Examples\<close> as its witness.
\<close>

lemma ex_newIssuer: "newIssuer ex_issuer_reconciler (ex_kube conds cr) = Ok RtIssuer"
  by (simp add: newIssuer_def ex_issuer_reconciler_def ex_scheme_def)

lemma ex_get_issuer: "get_object (ex_kube conds cr) RtIssuer (''ns'', ''iss'') = Inr (ObjIssuer (ex_issuer conds))"
  by (simp add: get_object_def ex_kube_def)

lemma ex_issuer_status:
  "GetSpecAndStatus (ObjIssuer (ex_issuer conds)) = Inr (ex_spec, \<lparr>is_Conditions = conds\<rparr>)"
  by (simp add: GetSpecAndStatus_def ex_issuer_def)

lemmas ex_issuer_found = ex_newIssuer ex_get_issuer ex_issuer_status

text \<open>C15: a reconciliation of an issuer that exists is exactly its verdict (first seen, retry with
  an error, or healthy): one Ready condition written, one event, the result the verdict asks for.\<close>

theorem issuer_refines_verdict:
  assumes "newIssuer r k = Ok ro" and "get_object k ro req = Inr obj"
    and "GetSpecAndStatus obj = Inr (spec, st)"
  shows "IssuerReconcile r k req =
    verdict_outcome k (issuer_verdict r k req obj spec)
      (verdict_object k (issuer_verdict r k req obj spec) obj st)"
  using assms by (rule IssuerReconcile_found)

theorem issuer_refines_verdict_witness:
  "IssuerReconcile ex_issuer_reconciler (ex_kube [] (ex_cr [])) (''ns'', ''iss'') =
   verdict_outcome (ex_kube [] (ex_cr [])) FirstSeen
     (verdict_object (ex_kube [] (ex_cr [])) FirstSeen (ObjIssuer (ex_issuer [])) \<lparr>is_Conditions = []\<rparr>)"
proof -
  have "issuer_verdict ex_issuer_reconciler (ex_kube [] (ex_cr [])) (''ns'', ''iss'')
      (ObjIssuer (ex_issuer [])) ex_spec = FirstSeen"
    by (simp add: issuer_verdict_def ready_of_def ex_issuer_status GetReadyCondition_def)
  with issuer_refines_verdict [OF ex_issuer_found] show ?thesis by simp
qed

text \<open>C17: whenever the issuer controller updates a status it has recorded exactly one event, whose
  text is the message of the Ready condition; the event is a warning exactly when Ready is False.\<close>

theorem issuer_event_shows_condition:
  assumes "oc_update (IssuerReconcile r k req) = Some obj'"
  shows "\<exists>c e. ready_of obj' = Some c \<and> oc_events (IssuerReconcile r k req) = [e] \<and>
    ic_Message c = ev_message e \<and> ic_Reason c = ev_reason e \<and>
    (ev_type e = EventWarning \<longleftrightarrow> ic_Status c = ConditionFalse)"
proof -
  obtain ro obj spec st where obj: "GetSpecAndStatus obj = Inr (spec, st)"
    and obj': "obj' = verdict_object k (issuer_verdict r k req obj spec) obj st"
    and eq: "IssuerReconcile r k req = verdict_outcome k (issuer_verdict r k req obj spec) obj'"
    using IssuerReconcile_update [OF assms] by metis
  have "oc_events (IssuerReconcile r k req) = [verdict_event (issuer_verdict r k req obj spec)]"
    unfolding eq by (simp add: verdict_outcome_def split: option.splits)
  moreover have "report_type e = EventWarning \<longleftrightarrow> e \<noteq> None" for e by (cases e) simp_all
  ultimately show ?thesis
    unfolding obj' verdict_object_ready [OF obj]
    by (simp add: ready_after_def verdict_event_def verdict_status_False)
qed

lemma ex_issuer_update:
  "\<exists>t. oc_update (IssuerReconcile ex_issuer_reconciler (ex_kube conds cr) (''ns'', ''iss'')) = Some t"
  unfolding IssuerReconcile_found [OF ex_issuer_found] by (simp add: verdict_outcome_def)

theorem issuer_event_shows_condition_witness:
  "\<exists>t c e. ready_of t = Some c \<and>
     oc_events (IssuerReconcile ex_issuer_reconciler (ex_kube [] (ex_cr [])) (''ns'', ''iss'')) = [e] \<and>
     ic_Message c = ev_message e"
proof -
  obtain t where "oc_update (IssuerReconcile ex_issuer_reconciler (ex_kube [] (ex_cr [])) (''ns'', ''iss'')) = Some t"
    using ex_issuer_update by blast
  from issuer_event_shows_condition [OF this] show ?thesis by blast
qed

text \<open>C16: a reconciliation leaves an issuer Ready exactly when it had a Ready condition before, its
  secret was found, the health checker could be built from them and the check passed.\<close>

theorem issuer_ready_iff:
  assumes "newIssuer r k = Ok ro" and "get_object k ro req = Inr obj"
    and "GetSpecAndStatus obj = Inr (spec, st)" and "oc_update (IssuerReconcile r k req) = Some obj'"
  shows "(\<exists>c. ready_of obj' = Some c \<and> ic_Status c = ConditionTrue) \<longleftrightarrow>
    ready_of obj \<noteq> None \<and>
    (\<exists>secret checker. k_get_Secret k (secret_namespace r req obj, is_AuthSecretName spec) = Inr secret \<and>
       ir_HealthCheckerBuilder r spec secret = Inr checker \<and> ir_Check r checker = None)"
proof -
  define v where "v = issuer_verdict r k req obj spec"
  have obj': "obj' = verdict_object k v obj st"
    using assms(4) unfolding IssuerReconcile_found [OF assms(1-3)] v_def
    by (simp add: verdict_outcome_def split: option.splits)
  have "(\<exists>c. ready_of obj' = Some c \<and> ic_Status c = ConditionTrue) \<longleftrightarrow> v = Healthy"
    unfolding obj' verdict_object_ready [OF assms(3)]
    by (cases v) (simp_all add: ready_after_def condition_constants)
  also have "\<dots> \<longleftrightarrow> ready_of obj \<noteq> None \<and>
    (\<exists>secret checker. k_get_Secret k (secret_namespace r req obj, is_AuthSecretName spec) = Inr secret \<and>
       ir_HealthCheckerBuilder r spec secret = Inr checker \<and> ir_Check r checker = None)"
    by (auto simp: v_def issuer_verdict_def Let_def split: sum.splits option.splits)
  finally show ?thesis .
qed

theorem issuer_ready_iff_witness:
  "\<exists>t c. oc_update (IssuerReconcile ex_issuer_reconciler (ex_kube [ex_ready_condition] (ex_cr [])) (''ns'', ''iss'')) = Some t \<and>
     ready_of t = Some c \<and> ic_Status c = ConditionTrue"
proof -
  obtain t where t: "oc_update (IssuerReconcile ex_issuer_reconciler (ex_kube [ex_ready_condition] (ex_cr [])) (''ns'', ''iss'')) = Some t"
    using ex_issuer_update by blast
  have "ready_of (ObjIssuer (ex_issuer [ex_ready_condition])) \<noteq> None"
    by (simp add: ready_of_def ex_issuer_status GetReadyCondition_def ex_ready_condition_def is_ready_cond_def)
  moreover have "k_get_Secret (ex_kube [ex_ready_condition] (ex_cr [])) (secret_namespace ex_issuer_reconciler (''ns'', ''iss'')
      (ObjIssuer (ex_issuer [ex_ready_condition])), is_AuthSecretName ex_spec) = Inr ex_secret"
    by (simp add: secret_namespace_def ex_spec_def)
  ultimately show ?thesis
    using issuer_ready_iff [OF ex_issuer_found t] t
    by (auto simp: ex_issuer_reconciler_def EssendiHealthCheckerFromIssuerAndSecretData_def Check_def)
qed

text \<open>C20: the issuer controller writes nothing but the Ready condition: the object given to the update
  is the one read, with only its status replaced, and its other conditions are as they were.\<close>

theorem issuer_frame:
  assumes "oc_update (IssuerReconcile r k req) = Some obj'"
  shows "\<exists>ro obj spec st st'. newIssuer r k = Ok ro \<and> get_object k ro req = Inr obj \<and>
    GetSpecAndStatus obj = Inr (spec, st) \<and> GetSpecAndStatus obj' = Inr (spec, st') \<and>
    obj' = put_status obj st' \<and>
    filter (\<lambda>c. \<not> is_ready_cond c) (is_Conditions st') = filter (\<lambda>c. \<not> is_ready_cond c) (is_Conditions st)"
proof -
  obtain ro obj spec st where found: "newIssuer r k = Ok ro" "get_object k ro req = Inr obj"
      "GetSpecAndStatus obj = Inr (spec, st)"
    and obj': "obj' = verdict_object k (issuer_verdict r k req obj spec) obj st"
    using IssuerReconcile_update [OF assms] by metis
  define st' where "st' = SetReadyCondition (k_now k) (verdict_status (issuer_verdict r k req obj spec))
      EventReasonIssuerReconciler (verdict_message (issuer_verdict r k req obj spec)) st"
  have "obj' = put_status obj st'" by (simp add: obj' verdict_object_def st'_def)
  with found show ?thesis
    by (intro exI [of _ ro] exI [of _ obj] exI [of _ spec] exI [of _ st] exI [of _ st'])
       (simp add: ready.others_put st'_def)
qed

theorem issuer_frame_witness:
  "\<exists>t spec st'. oc_update (IssuerReconcile ex_issuer_reconciler (ex_kube [] (ex_cr [])) (''ns'', ''iss'')) = Some t \<and>
     GetSpecAndStatus t = Inr (spec, st') \<and> spec = ex_spec"
proof -
  obtain t where t: "oc_update (IssuerReconcile ex_issuer_reconciler (ex_kube [] (ex_cr [])) (''ns'', ''iss'')) = Some t"
    using ex_issuer_update by blast
  from issuer_frame [OF t] show ?thesis
    using t by (auto simp: ex_issuer_found)
qed

text \<open>The transition time of the Ready condition moves exactly when its status changes.\<close>

lemma issuer_transition_time:
  assumes "newIssuer r k = Ok ro" and "get_object k ro req = Inr obj"
    and "GetSpecAndStatus obj = Inr (spec, st)" and "ready_of obj = Some c0"
    and "oc_update (IssuerReconcile r k req) = Some obj'"
  shows "\<exists>c. ready_of obj' = Some c \<and> ic_LastTransitionTime c =
    (if ic_Status c = ic_Status c0 then ic_LastTransitionTime c0 else Some (k_now k))"
proof -
  define v where "v = issuer_verdict r k req obj spec"
  have obj': "obj' = verdict_object k v obj st"
    using assms(5) unfolding IssuerReconcile_found [OF assms(1-3)] v_def
    by (simp add: verdict_outcome_def split: option.splits)
  show ?thesis
    unfolding obj' verdict_object_ready [OF assms(3)] assms(4) by (simp add: ready_after_def)
qed

text \<open>An error of the issuer controller shows as Ready False with the error in the message, and
  leaves requeueing to the returned error.\<close>

lemma issuer_error_shows:
  assumes "oc_update (IssuerReconcile r k req) = Some obj'"
    and "oc_error (IssuerReconcile r k req) = Some (Single e)"
  shows "\<exists>c. ready_of obj' = Some c \<and> ic_Status c = ConditionFalse \<and>
    ic_Message c = ''Temporary error. Retrying: '' @ err_text e \<and> oc_RequeueAfter (IssuerReconcile r k req) = 0 \<and>
    (err_is e errGetAuthSecret \<or> err_is e errHealthCheckerBuilder \<or> err_is e errHealthCheckerCheck)"
proof -
  obtain ro obj spec st where obj: "GetSpecAndStatus obj = Inr (spec, st)"
    and obj': "obj' = verdict_object k (issuer_verdict r k req obj spec) obj st"
    and eq: "IssuerReconcile r k req = verdict_outcome k (issuer_verdict r k req obj spec) obj'"
    using IssuerReconcile_update [OF assms(1)] by metis
  from assms(2) have v: "issuer_verdict r k req obj spec = Retry e"
    unfolding eq by (cases "issuer_verdict r k req obj spec") (auto simp: verdict_outcome_def split: option.splits)
  then have "err_is e errGetAuthSecret \<or> err_is e errHealthCheckerBuilder \<or> err_is e errHealthCheckerCheck"
    by (auto simp: issuer_verdict_def Let_def secret_error_def split: if_splits sum.splits option.splits)
  then show ?thesis
    unfolding eq obj' verdict_object_ready [OF obj] v
    by (simp add: ready_after_def verdict_outcome_def split: option.splits)
qed

definition ex_no_secret :: kube where
  "ex_no_secret = (ex_kube [ex_ready_condition] (ex_cr []))\<lparr>k_get_Secret := (\<lambda>n. Inl (GetNotFound (ErrText ''gone'')))\<rparr>"

end
