(* ===== verification/CrTheorems.thy ===== *)
theory CrTheorems
  imports Examples
begin

text \<open>
  The properties of the certificate-request controller, each with the setting of \<open>Examples\<close> as
  its witness where it has hypotheses. Those that rest on the signer are stated for the
  program's own signer, over any library and any remote service.
\<close>

section \<open>The next call of each phase\<close>

lemma next_call_phase:
  assumes "cr_wf cr" and "\<not> final (phase_of cr)"
  shows "next_call t cr =
    (case phase_of cr of
       PhSigned u \<Rightarrow> Some (CallFetch t u)
     | p \<Rightarrow> Some (case in_review p of Some u \<Rightarrow> CallStatus t u | None \<Rightarrow> CallSubmit t (cr_Request cr)))"
proof (cases "phase_of cr")
  case (PhSigned u)
  then show ?thesis
    using signed_phase [OF assms] by (simp add: next_call_def fetch_url_def Let_def)
next
  case (PhSubmitted u)
  then show ?thesis
    using signed_phase(1) [OF assms] submitted_phase(2) [OF assms, of u]
    by (simp add: next_call_def poll_url_def Let_def)
next
  case (PhProcessing u)
  then show ?thesis
    using signed_phase(1) [OF assms] submitted_phase(2) [OF assms, of u]
    by (simp add: next_call_def poll_url_def Let_def)
next
  case (PhApproved u)
  then show ?thesis
    using signed_phase(1) [OF assms] submitted_phase(2) [OF assms, of u]
    by (simp add: next_call_def poll_url_def Let_def)
qed (use assms(2) signed_phase(1) [OF assms] submitted_phase(1) [OF assms] in
      \<open>auto simp: next_call_def Let_def\<close>)

section \<open>The life of a request\<close>

text \<open>C2: the controller is a simulation of the state machine of the phases: what a reconciliation of
  a well-formed request hands to the status update is well-formed again, and is either the request
  as it was read or one step further.\<close>

theorem controller_simulates:
  assumes "cmutil_laws cm" and "rc_SignerBuilder r = essendi_builder lib net"
    and "k_get_CertificateRequest k req = Inr cr" and "cr_wf cr"
    and "oc_update (CrReconcile cm lib r k req w) = Some cr'"
  shows "cr_wf cr' \<and> (cr' = cr \<or> phase_step r (cr_Request cr) (phase_of cr) (phase_of cr'))"
  using assms by (rule essendi.reconcile_step)

theorem controller_simulates_witness:
  "\<exists>cr'. oc_update (CrReconcile cmutil_doc ex_lib (ex_reconciler False) (ex_kube [ex_ready_condition] ex_waiting) ex_req ()) = Some cr' \<and>
     (cr' = ex_waiting \<or> phase_step (ex_reconciler False) ex_csr_pem PhWaiting (phase_of cr'))"
proof -
  obtain cr' where up: "oc_update (CrReconcile cmutil_doc ex_lib (ex_reconciler False)
      (ex_kube [ex_ready_condition] ex_waiting) ex_req ()) = Some cr'"
    using reaches_update [OF ex_kube_simps(1) ex_not_ignored(2)] by blast
  have "cr_Request ex_waiting = ex_csr_pem" by (simp add: ex_waiting_def)
  with controller_simulates [OF cmutil_laws_doc ex_reconciler_simps(1) ex_kube_simps(1) ex_wf(1) up] up ex_phases(2)
  show ?thesis by auto
qed

text \<open>A remote service whose answers do not change completes its task without a poll in vain.\<close>

lemma completesI:
  assumes "\<And>w. sg_GetRefreshToken S w = (Ok t0, w)" and "\<And>t w. sg_SubmitCertificateRequest S t csr w = (Ok u0, w)"
    and "\<And>t w. sg_RequestTaskStatus S t u1 w = (Ok (v0, s0), w)" and "\<And>t w. sg_FetchCertificate S t v1 w = (Ok c0, w)"
    and "trim_space u0 = u1" and "v0 \<noteq> []" and "trim_space v0 = v1"
  shows "completes S csr (\<lambda>u. u = u1) (\<lambda>u. u = v1) (\<lambda>w. 0)"
proof -
  have 1: "\<exists>t w'. sg_GetRefreshToken S w = (Ok t, w') \<and> (0::nat) \<le> 0" for w
    using assms(1) by blast
  have 2: "\<exists>u w'. sg_SubmitCertificateRequest S t csr w = (Ok u, w') \<and> trim_space u = u1" for t w
    using assms(2,5) by blast
  have 3: "\<exists>v s w'. sg_RequestTaskStatus S t u w = (Ok (v, s), w') \<and> (v \<noteq> [] \<and> trim_space v = v1 \<or>
      v = [] \<and> s \<notin> {TaskStatusDeclined, TaskStatusCanceled, TaskStatusFailed} \<and> (0::nat) < 0)"
    if "u = u1" for t u w
    unfolding that using assms(3,6,7) by blast
  have 4: "\<exists>c w'. sg_FetchCertificate S t u w = (Ok c, w')" if "u = v1" for t u w
    unfolding that using assms(4) by blast
  show ?thesis
    unfolding completes_def by (intro conjI allI impI) (rule 1, rule 2, erule 3, erule 4)
qed

lemma ex_completes:
  "completes ex_signer (cr_Request (ex_cr [])) (\<lambda>u. u = ''https://xc/task'') (\<lambda>u. u = ''https://xc/cert'') (\<lambda>w. 0)"
  unfolding ex_cr_simps
  by (rule completesI [OF ex_token ex_submit ex_poll ex_fetch ex_urls(1) _ ex_urls(2)]) simp

text \<open>A request in a final phase (issued, failed or denied) is never touched again: no update, no
  event, no call to the remote service.\<close>

lemma final_is_final:
  assumes "cmutil_laws cm" and "k_get_CertificateRequest k req = Inr cr" and "cr_wf cr" and "final (phase_of cr)"
  shows "CrReconcile cm lib r k req w = quiet_return None w"
  using assms(2,4) cr_ignored_phase [OF assms(1,3), of r] by (simp add: CrReconcile_def)

section \<open>Calls to the remote service\<close>

text \<open>C7: the remote service is called only for a request of the program's group whose Ready condition is
  neither True nor False with reason Failed or Denied, which is approved where that is asked for, which
  is not denied and has a Ready condition, and whose Issuer or ClusterIssuer exists and is ready with a
  secret the signer is built from; and then one token request is followed by at most one API call,
  which the conditions of the request decide.\<close>

theorem calls_are_gated:
  assumes "oc_calls (CrReconcile cm lib r k req w) \<noteq> []"
  shows "\<exists>cr S. k_get_CertificateRequest k req = Inr cr \<and> cr_IssuerGroup cr = GroupVersion_Group \<and>
    \<not> cm_HasCondition cm cr cm_Ready cm_True [] \<and> \<not> cm_HasCondition cm cr cm_Ready cm_False cm_Failed \<and>
    \<not> cm_HasCondition cm cr cm_Ready cm_False cm_Denied \<and>
    (rc_CheckApprovedCondition r \<longrightarrow> cm_IsApproved cm cr) \<and>
    \<not> cm_IsDenied cm cr \<and> cm_GetCondition cm cr cm_Ready \<noteq> None \<and> issuer_serves r k cr S \<and>
    oc_calls (CrReconcile cm lib r k req w) = CallToken #
      (case fst (sg_GetRefreshToken S w) of
         Ok token \<Rightarrow> (case next_call token cr of None \<Rightarrow> [] | Some c \<Rightarrow> [c]) | _ \<Rightarrow> [])"
proof -
  obtain cr S where get: "k_get_CertificateRequest k req = Inr cr" and ni: "\<not> cr_ignored cm r cr"
    and may: "may_sign cm r k cr S"
    and calls: "oc_calls (CrReconcile cm lib r k req w) = CallToken #
      (case fst (sg_GetRefreshToken S w) of
         Ok token \<Rightarrow> (case next_call token cr of None \<Rightarrow> [] | Some c \<Rightarrow> [c]) | _ \<Rightarrow> [])"
    using CrReconcile_calls [OF assms] by metis
  have "eligible cm r cr" using ni by (simp add: eligible_iff)
  then show ?thesis
    by (intro exI [of _ cr], intro exI [of _ S]) (use get may calls in \<open>simp add: eligible_def may_sign_def\<close>)
qed

lemma ex_may_sign:
  "may_sign cmutil_doc (ex_reconciler False) (ex_kube [ex_ready_condition] cr0) ex_waiting ex_signer"
  "may_sign cmutil_doc (ex_reconciler False) (ex_kube [ex_ready_condition] cr0) ex_submitted ex_signer"
  "may_sign cmutil_doc (ex_reconciler False) (ex_kube [ex_ready_condition] cr0) ex_signed ex_signer"
  unfolding ex_waiting_def ex_submitted_def ex_signed_def
  by (simp_all add: may_sign_def ex_serves has_condition_doc_def ex_cond_def)

lemma ex_waiting_call: "next_call t ex_waiting = Some (CallSubmit t ex_csr_pem)"
  using next_call_phase [OF ex_wf(1), of t] by (simp add: ex_phases) (simp add: ex_waiting_def)

lemma ex_waiting_outcome:
  "CrReconcile cmutil_doc ex_lib (ex_reconciler False) (ex_kube [ex_ready_condition] ex_waiting) ex_req () =
   cr_deferred cmutil_doc (ex_kube [ex_ready_condition] ex_waiting)
     (submit_phase cmutil_doc ex_signer ''access''
       \<lparr>run_cr = ex_waiting, run_events = [], run_calls = [CallToken], run_world = ()\<rparr>)"
proof -
  have "\<not> IsSigned (cr_Conditions ex_waiting)" "\<not> IsSubmitted (cr_Conditions ex_waiting)"
    using signed_phase(1) [OF ex_wf(1)] submitted_phase(1) [OF ex_wf(1)] by (simp_all add: ex_phases)
  then show ?thesis
    using CrReconcile_signs [where req = ex_req and lib = ex_lib and w = "()",
        OF ex_kube_simps(1) ex_not_ignored(2) ex_may_sign(1) ex_token]
    by (simp add: sign_phase_def)
qed

lemma ex_waiting_calls:
  "oc_calls (CrReconcile cmutil_doc ex_lib (ex_reconciler False) (ex_kube [ex_ready_condition] ex_waiting) ex_req ()) =
   [CallToken, CallSubmit ''access'' ex_csr_pem]"
  unfolding ex_waiting_outcome cr_deferred_simps submit_phase_calls by (simp add: ex_waiting_def)

theorem calls_are_gated_witness:
  "\<exists>S. issuer_serves (ex_reconciler False) (ex_kube [ex_ready_condition] ex_waiting) ex_waiting S"
proof -
  have "oc_calls (CrReconcile cmutil_doc ex_lib (ex_reconciler False) (ex_kube [ex_ready_condition] ex_waiting) ex_req ()) \<noteq> []"
    by (simp add: ex_waiting_calls)
  from calls_are_gated [OF this] show ?thesis by auto
qed

end
