(* ===== verification/CrEndings.thy ===== *)
theory CrEndings
  imports CrTheorems
begin

text \<open>
  Properties of single reconciliations of a certificate request: the URL that travels through
  the text of the Ready condition, what each answer of the remote service leads to, what is
  written and announced, and how errors, denials and unusable issuers end.
\<close>

section \<open>The URL in the message\<close>

text \<open>C8: the URL a submission returns survives in the condition text: after the update is stored,
  the next call is a poll of that URL (less surrounding white space).\<close>

theorem submitted_url_is_polled:
  assumes "cmutil_laws cm" and "rc_SignerBuilder r = essendi_builder lib net" and "k_update_cr k = (\<lambda>cr. None)"
    and "cr_wf cr" and "signable cm r k cr S" and "phase_of cr = PhWaiting"
    and "sg_GetRefreshToken S w = (Ok token, w1)"
    and "sg_SubmitCertificateRequest S token (cr_Request cr) w1 = (Ok u, w2)"
  shows "next_call t (fst (reconcile_once cm lib r k req (cr, w))) = Some (CallStatus t (trim_space u))"
proof -
  obtain cr' where turn: "reconcile_once cm lib r k req (cr, w) = (cr', w2)"
    and ph: "phase_of cr' = PhSubmitted (trim_space u)"
    using turn_submit [OF assms(1,4,5,3,6-8)] by blast
  have "cr_wf cr'" using essendi.reconcile_once_keeps [OF assms(1,2,4,5) turn] by simp
  from next_call_phase [OF this, of t] turn ph show ?thesis by simp
qed

theorem submitted_url_is_polled_witness:
  "next_call ''t'' (fst (reconcile_once cmutil_doc ex_lib (ex_reconciler False)
     (ex_kube [ex_ready_condition] ex_waiting) ex_req (ex_waiting, ()))) = Some (CallStatus ''t'' ''https://xc/task'')"
proof -
  have s: "signable cmutil_doc (ex_reconciler False) (ex_kube [ex_ready_condition] ex_waiting) ex_waiting ex_signer"
    unfolding ex_waiting_def by (rule ex_signable)
  have "sg_SubmitCertificateRequest ex_signer ''access'' (cr_Request ex_waiting) () = (Ok ''https://xc/task'', ())"
    by (simp add: ex_waiting_def ex_submit)
  from submitted_url_is_polled [OF cmutil_laws_doc ex_reconciler_simps(1) ex_kube_simps(2) ex_wf(1) s ex_phases(2) ex_token this]
  show ?thesis by (simp add: ex_urls)
qed

text \<open>C9: the resource URL a poll returns is the URL the certificate is fetched from next.\<close>

theorem resource_url_is_fetched:
  assumes "cmutil_laws cm" and "rc_SignerBuilder r = essendi_builder lib net" and "k_update_cr k = (\<lambda>cr. None)"
    and "cr_wf cr" and "signable cm r k cr S" and "in_review (phase_of cr) = Some u"
    and "sg_GetRefreshToken S w = (Ok token, w1)"
    and "sg_RequestTaskStatus S token u w1 = (Ok (v, s), w2)" and "v \<noteq> []"
  shows "next_call t (fst (reconcile_once cm lib r k req (cr, w))) = Some (CallFetch t (trim_space v))"
proof -
  obtain cr' where turn: "reconcile_once cm lib r k req (cr, w) = (cr', w2)"
    and "phase_of cr' = review_next (phase_of cr) u v s"
    using turn_poll [OF assms(1,4,5,3,6-8)] by blast
  then have ph: "phase_of cr' = PhSigned (trim_space v)" using assms(9) by (simp add: review_next_def)
  have "cr_wf cr'" using essendi.reconcile_once_keeps [OF assms(1,2,4,5) turn] by simp
  from next_call_phase [OF this, of t] turn ph show ?thesis by simp
qed

lemma ex_submitted_signable:
  "signable cmutil_doc (ex_reconciler False) (ex_kube [ex_ready_condition] cr0) ex_submitted ex_signer"
  "signable cmutil_doc (ex_reconciler False) (ex_kube [ex_ready_condition] cr0) ex_signed ex_signer"
  unfolding ex_submitted_def ex_signed_def by (rule ex_signable)+

theorem resource_url_is_fetched_witness:
  "next_call ''t'' (fst (reconcile_once cmutil_doc ex_lib (ex_reconciler False)
     (ex_kube [ex_ready_condition] ex_submitted) ex_req (ex_submitted, ()))) = Some (CallFetch ''t'' ''https://xc/cert'')"
proof -
  have "in_review (phase_of ex_submitted) = Some ''https://xc/task''" by (simp add: ex_phases)
  from resource_url_is_fetched [OF cmutil_laws_doc ex_reconciler_simps(1) ex_kube_simps(2) ex_wf(2)
      ex_submitted_signable(1) this ex_token ex_poll]
  show ?thesis by (simp add: ex_urls)
qed

text \<open>C10: what a poll answers decides the next phase: a resource URL means signed; otherwise the
  statuses processing, approved, and declined, cancelled or failed in review move the request to
  those phases, and any other status leaves it where it is.\<close>

theorem poll_decides_phase:
  assumes "cmutil_laws cm" and "cr_wf cr" and "signable cm r k cr S" and "k_update_cr k = (\<lambda>cr. None)"
    and "in_review (phase_of cr) = Some u" and "sg_GetRefreshToken S w = (Ok token, w1)"
    and "sg_RequestTaskStatus S token u w1 = (Ok (v, s), w2)"
  shows "phase_of (fst (reconcile_once cm lib r k req (cr, w))) =
    (if v \<noteq> [] then PhSigned (trim_space v)
     else if s = ''PROCESSING'' then PhProcessing u
     else if s = ''APPROVED'' then PhApproved u
     else if s \<in> {''DECLINED'', ''CANCELED'', ''FAILED_IN_REVIEW''} then PhFailed
     else phase_of cr)"
proof -
  obtain cr' where "reconcile_once cm lib r k req (cr, w) = (cr', w2)"
    and "phase_of cr' = review_next (phase_of cr) u v s"
    using turn_poll [OF assms] by blast
  then show ?thesis unfolding review_next_def task_statuses by simp
qed

theorem poll_decides_phase_witness:
  "phase_of (fst (reconcile_once cmutil_doc ex_lib (ex_reconciler False)
     (ex_kube [ex_ready_condition] ex_submitted) ex_req (ex_submitted, ()))) = PhSigned ''https://xc/cert''"
proof -
  have "in_review (phase_of ex_submitted) = Some ''https://xc/task''" by (simp add: ex_phases)
  from poll_decides_phase [OF cmutil_laws_doc ex_wf(2) ex_submitted_signable(1) ex_kube_simps(2) this ex_token ex_poll]
  show ?thesis by (simp add: ex_urls)
qed

text \<open>C11: a fetched certificate is stored as it came, with the root certificate of its bundle as the CA
  when there is one and the CA left alone when there is none, and the request is issued.\<close>

theorem fetch_issues:
  assumes "cmutil_laws cm" and "cr_wf cr" and "signable cm r k cr S" and "k_update_cr k = (\<lambda>cr. None)"
    and "phase_of cr = PhSigned u" and "sg_GetRefreshToken S w = (Ok token, w1)"
    and "sg_FetchCertificate S token u w1 = (Ok cert, w2)"
  shows "\<exists>cr'. reconcile_once cm lib r k req (cr, w) = (cr', w2) \<and> phase_of cr' = PhIssued \<and>
    cr_Certificate cr' = cert \<and>
    cr_CA cr' = (case find (is_root_block lib) (pem_blocks lib cert) of
                   None \<Rightarrow> cr_CA cr
                 | Some block \<Rightarrow> (case pem_EncodeToMemory block of None \<Rightarrow> cr_CA cr | Some ca \<Rightarrow> ca))"
  using turn_fetch [OF assms, of lib req]
  by (cases "find (is_root_block lib) (pem_blocks lib cert)") (auto simp: extract_is_find)

theorem fetch_issues_witness:
  "\<exists>cr'. reconcile_once cmutil_doc ex_lib (ex_reconciler False)
     (ex_kube [ex_ready_condition] ex_signed) ex_req (ex_signed, ()) = (cr', ()) \<and>
     phase_of cr' = PhIssued \<and> cr_Certificate cr' = ex_ca_pem \<and> cr_CA cr' = ex_ca_pem"
  using fetch_issues [where lib = ex_lib and req = ex_req, OF cmutil_laws_doc ex_wf(3) ex_submitted_signable(2)
      ex_kube_simps(2) ex_phases(4) ex_token ex_fetch]
  unfolding ex_ca_found by (auto simp: ex_ca_pem_def pem_EncodeToMemory_plain [OF ex_ca_plain])

section \<open>What is written and announced\<close>

text \<open>C19: a reconciliation changes nothing of a request but its Ready condition, certificate, CA and
  failure time: the specification and every condition of another type stay as they were read.\<close>

theorem request_frame:
  assumes "cmutil_laws cm" and "k_get_CertificateRequest k req = Inr cr"
    and "oc_update (CrReconcile cm lib r k req w) = Some cr'"
  shows "same_spec cr' cr \<and>
    filter (\<lambda>c. cc_Type c \<noteq> cm_Ready) (cr_Conditions cr') = filter (\<lambda>c. cc_Type c \<noteq> cm_Ready) (cr_Conditions cr)"
  using CrReconcile_frame [OF assms] by simp

lemma ex_update:
  assumes "cr \<in> {ex_waiting, ex_submitted, ex_signed}"
  shows "\<exists>cr'. oc_update (CrReconcile cmutil_doc ex_lib (ex_reconciler False) (ex_kube conds cr) ex_req ()) = Some cr'"
proof -
  have "\<not> cr_ignored cmutil_doc (ex_reconciler False) cr" using assms ex_not_ignored by auto
  then show ?thesis using reaches_update [OF ex_kube_simps(1)] by metis
qed

theorem request_frame_witness:
  "\<exists>cr'. oc_update (CrReconcile cmutil_doc ex_lib (ex_reconciler False)
     (ex_kube [ex_ready_condition] ex_signed) ex_req ()) = Some cr' \<and> same_spec cr' ex_signed"
proof -
  obtain cr' where up: "oc_update (CrReconcile cmutil_doc ex_lib (ex_reconciler False)
     (ex_kube [ex_ready_condition] ex_signed) ex_req ()) = Some cr'"
    using ex_update [of ex_signed "[ex_ready_condition]"] by auto
  from request_frame [OF cmutil_laws_doc ex_kube_simps(1) up] up show ?thesis by simp
qed

text \<open>C18: an update either hands the request back unchanged and without an event, or it comes with
  exactly one event whose text is the message of the new Ready condition, which is True exactly
  when its reason is Issued.\<close>

theorem request_event_shows_condition:
  assumes "cmutil_laws cm" and "k_get_CertificateRequest k req = Inr cr"
    and "oc_update (CrReconcile cm lib r k req w) = Some cr'"
  shows "cr' = cr \<and> oc_events (CrReconcile cm lib r k req w) = [] \<or>
    (\<exists>c e. cond_of cm_Ready (cr_Conditions cr') = Some c \<and> oc_events (CrReconcile cm lib r k req w) = [e] \<and>
       cc_Message c = ev_message e \<and> ev_reason e = EventReasonCertificateRequestReconciler \<and>
       cc_Status c = (if cc_Reason c = cm_Issued then cm_True else cm_False))"
  using CrReconcile_writes [OF assms(3,2)] unfolding outcome_writes_def
proof (elim disjE exE conjE)
  fix base reason m err
  assume cr': "cr' = cm_SetCondition cm base cm_Ready (ready_status reason) reason (report_message m err)"
    and evs: "oc_events (CrReconcile cm lib r k req w) = [cr_event m err]"
  obtain tm where "cr' = base\<lparr>cr_Conditions := upsert \<lparr>cc_Type = cm_Ready, cc_Status = ready_status reason,
      cc_Reason = reason, cc_Message = report_message m err, cc_LastTransitionTime = tm\<rparr> (cr_Conditions base)\<rparr>"
    using cmutil_set [OF assms(1)] cr' by metis
  then show ?thesis
    using evs by (intro disjI2) (simp add: cond_of_upsert cr_event_def ready_status_def)
qed simp

theorem request_event_shows_condition_witness:
  "\<exists>(cr' :: certificate_request) c e. cond_of cm_Ready (cr_Conditions cr') = Some c \<and> cc_Message c = ev_message e \<and>
     oc_events (CrReconcile cmutil_doc ex_lib (ex_reconciler False) (ex_kube [ex_ready_condition] ex_waiting) ex_req ()) = [e]"
proof -
  obtain cr' where up: "oc_update (CrReconcile cmutil_doc ex_lib (ex_reconciler False)
     (ex_kube [ex_ready_condition] ex_waiting) ex_req ()) = Some cr'"
    using ex_update [of ex_waiting "[ex_ready_condition]"] by auto
  define evs where "evs = oc_events (CrReconcile cmutil_doc ex_lib (ex_reconciler False)
    (ex_kube [ex_ready_condition] ex_waiting) ex_req ())"
  have "evs \<noteq> []"
    unfolding evs_def ex_waiting_outcome cr_deferred_simps
    by (simp add: submit_phase_def ex_waiting_def ex_submit after_call_def deferred_run_quiet report_def Let_def)
  moreover have "cr' = ex_waiting \<and> evs = [] \<or>
    (\<exists>c e. cond_of cm_Ready (cr_Conditions cr') = Some c \<and> evs = [e] \<and> cc_Message c = ev_message e \<and>
       ev_reason e = EventReasonCertificateRequestReconciler \<and>
       cc_Status c = (if cc_Reason c = cm_Issued then cm_True else cm_False))"
    unfolding evs_def by (rule request_event_shows_condition [OF cmutil_laws_doc ex_kube_simps(1) up])
  ultimately show ?thesis unfolding evs_def [symmetric] by blast
qed

text \<open>C13: a reconciliation of a well-formed request that ends without an error or a panic asks to be run
  again after fifteen seconds when it leaves the request in review at the remote service, and does not
  ask otherwise; a request of a foreign group, in a final phase or still to be approved is not touched,
  and not asked for again either.\<close>

theorem requeued_iff_in_review:
  assumes "cmutil_laws cm" and "k_get_CertificateRequest k req = Inr cr" and "cr_wf cr"
    and "oc_error (CrReconcile cm lib r k req w) = None" and "\<not> oc_panic (CrReconcile cm lib r k req w)"
  shows "if cr_IssuerGroup cr \<noteq> GroupVersion_Group \<or> final (phase_of cr) \<or>
      rc_CheckApprovedCondition r \<and> \<not> cm_IsApproved cm cr
    then oc_update (CrReconcile cm lib r k req w) = None \<and> oc_RequeueAfter (CrReconcile cm lib r k req w) = 0
    else \<exists>cr'. oc_update (CrReconcile cm lib r k req w) = Some cr' \<and>
      oc_RequeueAfter (CrReconcile cm lib r k req w) =
        (if in_review (phase_of cr') = None then 0 else 15 * 1000000000)"
proof (cases "cr_ignored cm r cr")
  case True
  then show ?thesis
    using CrReconcile_ignored [OF assms(2), of cm r lib w] cr_ignored_phase [OF assms(1,3), of r] by simp
next
  case False
  obtain cr' where up: "oc_update (CrReconcile cm lib r k req w) = Some cr'"
    unfolding CrReconcile_body [OF assms(2) False] cr_deferred_simps by blast
  from CrReconcile_requeue [OF assms(1,2,3) this assms(4,5)] False cr_ignored_phase [OF assms(1,3), of r] up
  show ?thesis by (simp add: requeue_of_def defaultTaskCheckInterval_def time_Second_def)
qed

lemma ex_waiting_end:
  "oc_error (CrReconcile cmutil_doc ex_lib (ex_reconciler False) (ex_kube [ex_ready_condition] ex_waiting) ex_req ()) = None"
  "\<not> oc_panic (CrReconcile cmutil_doc ex_lib (ex_reconciler False) (ex_kube [ex_ready_condition] ex_waiting) ex_req ())"
  unfolding ex_waiting_outcome cr_deferred_simps cr_deferred_stored [OF ex_kube_simps(2)]
  by (simp_all add: submit_phase_def ex_waiting_def ex_submit Let_def)

theorem requeued_iff_in_review_witness:
  "\<exists>cr'. oc_update (CrReconcile cmutil_doc ex_lib (ex_reconciler False) (ex_kube [ex_ready_condition] ex_waiting) ex_req ()) = Some cr' \<and>
     oc_RequeueAfter (CrReconcile cmutil_doc ex_lib (ex_reconciler False) (ex_kube [ex_ready_condition] ex_waiting) ex_req ()) =
       (if in_review (phase_of cr') = None then 0 else 15 * 1000000000)"
proof -
  have "cr_IssuerGroup ex_waiting = GroupVersion_Group" by (simp add: ex_waiting_def)
  with requeued_iff_in_review [OF cmutil_laws_doc ex_kube_simps(1) ex_wf(1) ex_waiting_end] show ?thesis
    by (simp add: ex_phases)
qed

section \<open>Errors\<close>







section \<open>Denial, unusable kinds, refusal and panics\<close>

text \<open>C36: a denied request that is looked at is marked Denied at once, without a call to the remote
  service; its failure time is set to the present unless it had one.\<close>

theorem denial_is_marked:
  assumes "cmutil_laws cm" and "k_get_CertificateRequest k req = Inr cr" and "\<not> cr_ignored cm r cr"
    and "cm_IsDenied cm cr"
  shows "\<exists>cr'. oc_update (CrReconcile cm lib r k req w) = Some cr' \<and> phase_of cr' = PhDenied \<and>
    cr_FailureTime cr' = (case cr_FailureTime cr of None \<Rightarrow> Some (k_now k) | Some t \<Rightarrow> Some t) \<and>
    oc_calls (CrReconcile cm lib r k req w) = []"
proof -
  define base where "base = with_failure_time (k_now k) cr"
  have "cr_body cm lib r k \<lparr>run_cr = cr, run_events = [], run_calls = [], run_world = w\<rparr> =
    (Return 0 None, report cm cm_Denied ''The CertificateRequest was denied by an approval controller''
       False None \<lparr>run_cr = base, run_events = [], run_calls = [], run_world = w\<rparr>)"
    using assms(4) by (simp add: cr_body_def Let_def base_def with_failure_time_def)
  then have "oc_update (CrReconcile cm lib r k req w) = Some (cm_SetCondition cm base cm_Ready (ready_status cm_Denied)
      cm_Denied ''The CertificateRequest was denied by an approval controller'')"
    and calls: "oc_calls (CrReconcile cm lib r k req w) = []"
    unfolding CrReconcile_body [OF assms(2,3)] cr_deferred_simps
    by (simp_all add: deferred_run_quiet) (simp add: report_def Let_def ready_status_def)
  moreover have "cr_FailureTime base = (case cr_FailureTime cr of None \<Rightarrow> Some (k_now k) | Some t \<Rightarrow> Some t)"
    by (simp add: base_def with_failure_time_def split: option.splits)
  ultimately show ?thesis
    by (simp add: phase_of_set [OF assms(1)] text_phases set_condition_frame(5) [OF assms(1)])
qed

definition ex_denied :: certificate_request where
  "ex_denied = ex_cr [\<lparr>cc_Type = cm_Denied, cc_Status = cm_True, cc_Reason = ''policy'', cc_Message = ''no'',
     cc_LastTransitionTime = None\<rparr>]"

lemma ex_denied_simps:
  "cm_IsDenied cmutil_doc ex_denied" "\<not> cm_IsApproved cmutil_doc ex_denied"
  "\<not> cr_ignored cmutil_doc (ex_reconciler False) ex_denied"
  by (simp_all add: ex_denied_def has_condition_doc_def cr_ignored_def)

theorem denial_is_marked_witness:
  "\<exists>cr'. oc_update (CrReconcile cmutil_doc ex_lib (ex_reconciler False) (ex_kube [] ex_denied) ex_req ()) = Some cr' \<and>
     phase_of cr' = PhDenied \<and> cr_FailureTime cr' = Some 1700000000000000000"
  using denial_is_marked [where lib = ex_lib and req = ex_req and w = "()",
      OF cmutil_laws_doc ex_kube_simps(1) ex_denied_simps(3,1)]
  by (auto simp: ex_denied_def)

text \<open>Where approval is asked for, a request that is denied and not approved is never marked as
  denied: the approval guard ends the reconciliation first, with no update and no event.\<close>

lemma denial_without_approval_is_ignored:
  assumes "k_get_CertificateRequest k req = Inr cr" and "rc_CheckApprovedCondition r"
    and "cm_IsDenied cm cr" and "\<not> cm_IsApproved cm cr"
  shows "CrReconcile cm lib r k req w = quiet_return None w"
  using assms by (simp add: CrReconcile_def cr_ignored_def)

text \<open>C35: a condition of another type than Ready whose message starts like that of a signed request is taken
  for the program's own. A request with an issuer that serves it, whose Ready condition says that it is
  waiting or in review, keeps its phase when somebody writes such a condition to it; but the next
  reconciliation that looks at it and gets a token asks for the certificate at whatever follows the
  first colon of that message, and panics when it has no colon.\<close>

theorem foreign_message_misleads:
  assumes "rc_SignerBuilder r = essendi_builder lib net" and "cr_wf cr" and "\<not> final (phase_of cr)"
    and "\<And>u. phase_of cr \<noteq> PhSigned u" and "cc_Type x \<noteq> cm_Ready" and "signed_msg x"
    and "cr' = cr\<lparr>cr_Conditions := upsert x (cr_Conditions cr)\<rparr>"
    and "k_get_CertificateRequest k req = Inr cr'" and "eligible cm r cr'" and "\<not> cm_IsDenied cm cr'"
    and "cm_GetCondition cm cr' cm_Ready \<noteq> None" and "issuer_serves r k cr' S"
    and "sg_GetRefreshToken S w = (Ok token, w1)"
  shows "phase_of cr' = phase_of cr \<and>
    (case message_url x of
       None \<Rightarrow> oc_calls (CrReconcile cm lib r k req w) = [CallToken] \<and> oc_panic (CrReconcile cm lib r k req w)
     | Some u \<Rightarrow> oc_calls (CrReconcile cm lib r k req w) = [CallToken, CallFetch token u])"
proof -
  have "\<not> IsSigned (cr_Conditions cr)" using signed_phase(1) [OF assms(2,3)] assms(4) by simp
  then have "\<forall>c \<in> set (cr_Conditions cr). \<not> signed_msg c"
    by (auto simp: IsSigned_def GetSignedCondition_def find_None_iff split: option.splits)
  from find_upsert [OF this, of x] assms(6) have "GetSignedCondition (cr_Conditions cr') = Some x"
    by (simp add: GetSignedCondition_def assms(7))
  then have call: "next_call t cr' = map_option (CallFetch t) (message_url x)" for t
    by (simp add: next_call_def IsSigned_def)
  have ni: "\<not> cr_ignored cm r cr'" and may: "may_sign cm r k cr' S"
    using assms(9-12) by (simp_all add: eligible_iff may_sign_def)
  have "oc_calls (CrReconcile cm lib r k req w) =
      [CallToken] @ (case message_url x of None \<Rightarrow> [] | Some u \<Rightarrow> [CallFetch token u])"
    unfolding CrReconcile_signs [OF assms(8) ni may assms(13)] cr_deferred_simps sign_phase_calls
    by (simp add: call split: option.splits)
  moreover have "oc_panic (CrReconcile cm lib r k req w)" if "message_url x = None"
  proof -
    have "next_call token cr' = None" by (simp add: call that)
    with assms(8-13) show ?thesis unfolding essendi.CrReconcile_panics [OF assms(1)] by blast
  qed
  ultimately show ?thesis
    using phase_of_other [OF assms(5)] by (simp add: assms(7) split: option.splits)
qed

text \<open>An approval whose message quotes the program's own words, without a URL.\<close>

definition ex_quote :: cr_condition where
  "ex_quote = \<lparr>cc_Type = cm_Approved, cc_Status = cm_True, cc_Reason = ''policy'',
     cc_Message = IssuerConditionStatusSigned, cc_LastTransitionTime = None\<rparr>"

definition ex_quoted :: certificate_request where
  "ex_quoted = ex_waiting\<lparr>cr_Conditions := upsert ex_quote (cr_Conditions ex_waiting)\<rparr>"

lemma ex_quote_simps:
  "cc_Type ex_quote \<noteq> cm_Ready" "signed_msg ex_quote" "message_url ex_quote = None"
  by (simp_all add: ex_quote_def msg_text phase_messages)

lemma ex_quoted_eq: "ex_quoted = ex_cr [ex_cond cm_Pending ''Initialising Ready condition'', ex_quote]"
  by (simp add: ex_quoted_def ex_waiting_def ex_cond_def ex_quote_def) (simp add: ex_cr_def)

lemma ex_quoted_simps:
  "eligible cmutil_doc (ex_reconciler False) ex_quoted" "\<not> cm_IsDenied cmutil_doc ex_quoted"
  "cm_GetCondition cmutil_doc ex_quoted cm_Ready \<noteq> None"
  "issuer_serves (ex_reconciler False) (ex_kube [ex_ready_condition] ex_quoted) ex_quoted ex_signer"
  unfolding ex_quoted_eq
  by (simp_all add: ex_serves eligible_def has_condition_doc_def) (simp_all add: ex_cond_def ex_quote_def ready_status_def)

theorem foreign_message_misleads_witness:
  "phase_of ex_quoted = PhWaiting \<and>
     oc_panic (CrReconcile cmutil_doc ex_lib (ex_reconciler False) (ex_kube [ex_ready_condition] ex_quoted) ex_req ())"
  using foreign_message_misleads [where lib = ex_lib and req = ex_req and w = "()", OF ex_reconciler_simps(1) ex_wf(1) _ _
      ex_quote_simps(1,2) ex_quoted_def ex_kube_simps(1) ex_quoted_simps ex_token]
  by (simp add: ex_phases ex_quote_simps(3))

text \<open>C12: when a reconciliation with the program's own signer panics: exactly when it looks at a request (of its group, with a Ready
  condition that is neither True nor False with reason Failed or Denied, approved where that is asked
  for and not denied) and either the kind of its issuer is registered with a type that has no object
  metadata, or an issuer serves it, a token was got, and then the first signed message among its
  conditions, or the first submitted one where none is signed, has no colon, or fetching the certificate
  panics in the signer.\<close>

theorem panics_exactly:
  assumes "rc_SignerBuilder r = essendi_builder lib net"
  shows "oc_panic (CrReconcile cm lib r k req w) \<longleftrightarrow>
    (\<exists>cr. k_get_CertificateRequest k req = Inr cr \<and> eligible cm r cr \<and> \<not> cm_IsDenied cm cr \<and>
       cm_GetCondition cm cr cm_Ready \<noteq> None \<and>
       ((\<exists>t. k_scheme_new k (cr_IssuerKind cr) = Inr (RtNotClientObject t)) \<or>
        (\<exists>S token w1. issuer_serves r k cr S \<and> sg_GetRefreshToken S w = (Ok token, w1) \<and>
           ((\<exists>c. (GetSignedCondition (cr_Conditions cr) = Some c \<or> GetSignedCondition (cr_Conditions cr) = None \<and>
                  GetSubmittedCondition (cr_Conditions cr) = Some c) \<and> CHR '':'' \<notin> set (cc_Message c)) \<or>
            (\<exists>u. next_call token cr = Some (CallFetch token u) \<and> fst (sg_FetchCertificate S token u w1) = Panic)))))"
  unfolding essendi.CrReconcile_panics [OF assms] next_call_None ..

theorem panics_exactly_witness:
  "oc_panic (CrReconcile cmutil_doc ex_lib (ex_reconciler False)
     (ex_kube [] (ex_waiting\<lparr>cr_IssuerKind := ''IssuerList''\<rparr>)) ex_req ())"
proof -
  let ?cr = "ex_waiting\<lparr>cr_IssuerKind := ''IssuerList''\<rparr>"
  have "eligible cmutil_doc (ex_reconciler False) ?cr" "\<not> cm_IsDenied cmutil_doc ?cr"
    "cm_GetCondition cmutil_doc ?cr cm_Ready \<noteq> None"
    by (simp_all add: ex_waiting_def ex_cr_def eligible_def has_condition_doc_def ex_cond_def ready_status_def)
  moreover have "k_scheme_new (ex_kube [] ?cr) (cr_IssuerKind ?cr) = Inr (RtNotClientObject ''IssuerList'')"
    using ex_scheme_registered by (simp add: scheme_registered_iff)
  ultimately show ?thesis
    unfolding panics_exactly [OF ex_reconciler_simps(1)] using ex_kube_simps(1) by blast
qed

text \<open>C34: an error whose text says that signing was refused throws away how far the request had come:
  the Ready condition goes back to waiting, and the next call is a new submission.\<close>

theorem refusal_forgets_task:
  assumes "cmutil_laws cm" and "rc_SignerBuilder r = essendi_builder lib net"
    and "k_get_CertificateRequest k req = Inr cr" and "cr_wf cr"
    and "oc_error (CrReconcile cm lib r k req w) = Some (Single e)"
    and "str_contains (err_text e) ''signing refused''"
  shows "\<exists>cr'. oc_update (CrReconcile cm lib r k req w) = Some cr' \<and> phase_of cr' = PhWaiting \<and>
    next_call t cr' = Some (CallSubmit t (cr_Request cr))"
proof -
  define cr' where "cr' = cm_SetCondition cm cr cm_Ready cm_False cm_Pending
      (report_message ''Temporary error. Retrying'' (Some e))"
  have up: "oc_update (CrReconcile cm lib r k req w) = Some cr'"
    using CrReconcile_error(1) [OF assms(3), of cm lib r w e] assms(5,6)
    by (simp add: errSignerRefused_def cr'_def own_error_def)
  have ph: "phase_of cr' = PhWaiting"
    using phase_of_set [OF assms(1), of cr cm_Pending] text_phases by (simp add: cr'_def ready_status_def)
  have wf: "cr_wf cr'" using essendi.reconcile_step [OF assms(1-4) up] by simp
  have "cr_Request cr' = cr_Request cr"
    using CrReconcile_frame(1) [OF assms(1,3) up] by (simp add: same_spec_def)
  with next_call_phase [OF wf, of t] ph up show ?thesis by simp
qed

text \<open>A remote service that answers the token request with that text.\<close>

definition ex_refusing :: "unit cr_reconciler" where
  "ex_refusing = (ex_reconciler False)\<lparr>rc_SignerBuilder := essendi_builder ex_lib
     (ex_net\<lparr>net_oauth := (\<lambda>rq w. (Inl (ErrText ''signing refused''), w))\<rparr>)\<rparr>"

lemma ex_refused:
  "oc_error (CrReconcile cmutil_doc ex_lib ex_refusing (ex_kube [ex_ready_condition] ex_submitted) ex_req ()) =
     Some (Single (wrap_colon errSignerBuilder ''signing refused''))"
proof -
  let ?net = "ex_net\<lparr>net_oauth := (\<lambda>rq w. (Inl (ErrText ''signing refused''), w))\<rparr>"
  let ?k = "ex_kube [ex_ready_condition] ex_submitted"
  let ?S = "essendi_signer ex_lib ?net ex_essendi"
  define run where "run = \<lparr>run_cr = ex_submitted, run_events = [], run_calls = [], run_world = ()\<rparr>"
  have ni: "\<not> cr_ignored cmutil_doc ex_refusing ex_submitted"
    unfolding cr_ignored_phase [OF cmutil_laws_doc ex_wf(2)]
    by (simp add: ex_phases ex_refusing_def) (simp add: ex_submitted_def)
  have "issuer_serves ex_refusing ?k ex_submitted ?S"
    unfolding ex_submitted_def
    by (rule ex_issuer_serves) (simp add: ex_refusing_def essendi_builder_def ex_builder)
  then have "may_sign cmutil_doc ex_refusing ?k (run_cr run) ?S"
    by (simp add: may_sign_def run_def) (simp add: ex_submitted_def has_condition_doc_def ex_cond_def)
  from cr_body_may_sign [OF this] have "cr_body cmutil_doc ex_lib ex_refusing ?k run =
      (signer_failed (ErrText ''signing refused''), after_call CallToken () run)"
    by (simp add: token_phase_def essendi_signer_def GetRefreshToken_def Let_def)
  then show ?thesis
    unfolding CrReconcile_body [OF ex_kube_simps(1) ni] run_def [symmetric] cr_deferred_stored [OF ex_kube_simps(2)]
    by (simp add: signer_failed_def)
qed

theorem refusal_forgets_task_witness:
  "\<exists>cr'. oc_update (CrReconcile cmutil_doc ex_lib ex_refusing (ex_kube [ex_ready_condition] ex_submitted) ex_req ()) = Some cr' \<and>
     phase_of cr' = PhWaiting \<and> phase_of ex_submitted \<noteq> PhWaiting"
proof -
  have b: "rc_SignerBuilder ex_refusing = essendi_builder ex_lib
     (ex_net\<lparr>net_oauth := (\<lambda>rq w. (Inl (ErrText ''signing refused''), w))\<rparr>)"
    by (simp add: ex_refusing_def)
  have "str_contains (err_text (wrap_colon errSignerBuilder ''signing refused'')) ''signing refused''"
    by (simp add: sentinels)
  from refusal_forgets_task [OF cmutil_laws_doc b ex_kube_simps(1) ex_wf(2) ex_refused this] ex_phases(3)
  show ?thesis by auto
qed

end
