(* ===== verification/SignerTheorems.thy ===== *)
theory SignerTheorems
  imports Examples
begin

text \<open>
  The properties of the client of the remote service: what it sends, what it makes of the
  answers, and what the issuer's secret and custom fields contribute.
\<close>

section \<open>Requests and signatures\<close>

text \<open>C27: a submission that succeeds has sent exactly one request: a POST of the JSON text to the API
  path under the issuer's URL, with the four headers, signed over the same method, content type,
  time, path and body; a JSON parser reads the body back as an object of five members that holds
  the request, the profile, the subscriber and the rendered custom fields (as valid UTF-8); it was
  answered 202 with a Location, and that is the URL returned.\<close>

theorem submission_request:
  assumes "SubmitCertificateRequest lib net o1 token csr w = (Ok u, w')"
  shows "\<exists>parsed cfs json resp j m fs. parseCSR lib csr = Inr parsed \<and>
    render_fields lib (gotemplateVariables (es_issuer o1) parsed) (is_CustomFields (es_issuer o1)) [] = Inr cfs \<and>
    json_parse json = Some j \<and> unmarshal_map j = Some m \<and>
    dom m = {''csr'', ''profileName'', ''attributes'', ''subscriber'', ''customFields''} \<and>
    m ''csr'' = Some (JStr (to_valid_utf8 csr)) \<and>
    m ''profileName'' = Some (JStr (to_valid_utf8 (is_ProfileName (es_issuer o1)))) \<and>
    m ''subscriber'' = Some (JStr (to_valid_utf8 (is_SubscriberName (es_issuer o1)))) \<and>
    m ''attributes'' = Some (JObj [(''subject'', JObj []), (''subjectAlternativeNames'', JArr [])]) \<and>
    m ''customFields'' = Some (JObj fs) \<and>
    set fs = (\<lambda>(k, v). (to_valid_utf8 k, JStr (to_valid_utf8 v))) ` set cfs \<and>
    net_do net
      \<lparr>rq_Method = ''POST'', rq_URL = is_URL (es_issuer o1) @ ''/api/v2/csr-process/request'',
       rq_Header = [(''Content-Type'', ''application/json''), (''Authorization'', ''Bearer '' @ token),
         (''X-Timestamp'', show_int (net_unix net w)),
         (''X-Signature'', base64_encode (hmac_sha256 (es_signatureKey o1)
            (request_text (es_clientID o1) ''POST'' ''application/json'' (net_unix net w)
               ''/api/v2/csr-process/request'' json)))],
       rq_Body = json\<rparr> w = (Inr resp, w') \<and>
    rs_StatusCode resp = 202 \<and> header_get (rs_Header resp) ''Location'' \<noteq> [] \<and>
    u = (if is_IgnoreHostInApiResponse (es_issuer o1)
         then replace_host (is_URL (es_issuer o1)) (header_get (rs_Header resp) ''Location'')
         else header_get (rs_Header resp) ''Location'')"
proof -
  obtain parsed cfs path resp where parts:
      "parseCSR lib csr = Inr parsed"
      "render_fields lib (gotemplateVariables (es_issuer o1) parsed) (is_CustomFields (es_issuer o1)) [] = Inr cfs"
      "net_do net (submit_request o1 token (net_unix net w) (json_marshal (submit_data (es_issuer o1) csr cfs))) w
         = (Inr resp, w')"
      "submit_response lib (es_issuer o1) resp = Ok u"
    using SubmitCertificateRequest_Ok [OF assms] by metis
  have "rs_StatusCode resp = 202" "header_get (rs_Header resp) ''Location'' \<noteq> []"
    and u: "u = (if is_IgnoreHostInApiResponse (es_issuer o1)
         then replace_host (is_URL (es_issuer o1)) (header_get (rs_Header resp) ''Location'')
         else header_get (rs_Header resp) ''Location'')"
    using parts(4) by (auto simp: submit_response_def Let_def StatusAccepted_def split: if_splits option.splits)
  with parts submit_data_read_back [of "es_issuer o1" csr cfs] show ?thesis
    unfolding submit_request_def api_headers_def signEssendiApiRequest_def generateXSignature_def apiUrl_def
    by blast
qed

lemma ex_submit_plain:
  "SubmitCertificateRequest ex_lib ex_net ex_essendi ''access'' ex_csr_pem () = (Ok ''https://xc/task'', ())"
  using ex_submit [of "''access''" "()"] by (simp add: ex_signer_def essendi_signer_def)

theorem submission_request_witness:
  "\<exists>rq resp. rq_Method rq = ''POST'' \<and> net_do ex_net rq () = (Inr resp, ()) \<and> rs_StatusCode resp = 202 \<and>
     ''https://xc/task'' = replace_host ''https://xc'' (header_get (rs_Header resp) ''Location'')"
proof -
  from submission_request [OF ex_submit_plain] obtain rq resp where
    "rq_Method rq = ''POST''" "net_do ex_net rq () = (Inr resp, ())" "rs_StatusCode resp = 202"
    "''https://xc/task'' = (if is_IgnoreHostInApiResponse (es_issuer ex_essendi)
       then replace_host (is_URL (es_issuer ex_essendi)) (header_get (rs_Header resp) ''Location'')
       else header_get (rs_Header resp) ''Location'')"
    by (elim exE conjE) (rule that, assumption+ | rule that [rotated], assumption, simp_all)
  then show ?thesis by (intro exI [of _ rq] exI [of _ resp]) simp
qed

text \<open>The signature header is the base64 text of the HMAC-SHA256 of the signed text under the
  signature key: it decodes to that value, and is always forty-four characters long.\<close>

lemma signature_roundtrip:
  "base64_decode (signEssendiApiRequest c m t ts p d key) = hmac_sha256 key (request_text c m t ts p d) \<and>
   length (signEssendiApiRequest c m t ts p d key) = 44"
  by (simp add: signEssendiApiRequest_def generateXSignature_def base64_decode_encode base64_encode_length)

text \<open>C28: no two requests have the same signed text: client, method, content type, time, path and body
  can all be read back from it, as long as the header parts hold no newline.\<close>

theorem signed_text_injective:
  assumes "request_text c m t ts p d = request_text c' m' t' ts' p' d'"
    and "CHR 0x0A \<notin> set c \<union> set m \<union> set t \<union> set p" and "CHR 0x0A \<notin> set c' \<union> set m' \<union> set t' \<union> set p'"
  shows "c = c' \<and> m = m' \<and> t = t' \<and> ts = ts' \<and> p = p' \<and> d = d'"
proof -
  have 1: "c = c' \<and> m @ newline @ t @ newline @ show_int ts @ newline @ p @ newline @ ''--'' @ newline @ d @ newline @ ''--'' =
      m' @ newline @ t' @ newline @ show_int ts' @ newline @ p' @ newline @ ''--'' @ newline @ d' @ newline @ ''--''"
    by (rule newline_split) (use assms in \<open>auto simp: request_text_def\<close>)
  then have 2: "m = m' \<and> t @ newline @ show_int ts @ newline @ p @ newline @ ''--'' @ newline @ d @ newline @ ''--'' =
      t' @ newline @ show_int ts' @ newline @ p' @ newline @ ''--'' @ newline @ d' @ newline @ ''--''"
    by (intro newline_split) (use assms(2,3) in auto)
  then have 3: "t = t' \<and> show_int ts @ newline @ p @ newline @ ''--'' @ newline @ d @ newline @ ''--'' =
      show_int ts' @ newline @ p' @ newline @ ''--'' @ newline @ d' @ newline @ ''--''"
    by (intro newline_split) (use assms(2,3) in auto)
  then have 4: "show_int ts = show_int ts' \<and> p @ newline @ ''--'' @ newline @ d @ newline @ ''--'' =
      p' @ newline @ ''--'' @ newline @ d' @ newline @ ''--''"
    by (intro newline_split) (auto simp: show_int_not_newline)
  then have 5: "p = p' \<and> ''--'' @ newline @ d @ newline @ ''--'' = ''--'' @ newline @ d' @ newline @ ''--''"
    by (intro newline_split) (use assms(2,3) in auto)
  from 1 2 3 4 5 show ?thesis by (auto dest: show_int_inj)
qed

theorem signed_text_injective_witness:
  "request_text ''id'' ''GET'' ''application/json'' 1 ''/task'' ''a'' \<noteq>
   request_text ''id'' ''GET'' ''application/json'' 1 ''/task'' ''b''"
proof
  assume "request_text ''id'' ''GET'' ''application/json'' 1 ''/task'' ''a'' =
    request_text ''id'' ''GET'' ''application/json'' 1 ''/task'' ''b''"
  from signed_text_injective [OF this] show False by simp
qed

text \<open>C29: polling and fetching send one request each, a GET of exactly the URL given with the four
  headers; its signature decodes to the HMAC-SHA256 over method, content type, time and the path
  the URL stands for once its escapes are decoded, and over neither host nor query; what comes back
  decides the result. This holds for every web URL with an escaped path, whatever bytes the path has.\<close>

theorem signed_reads:
  assumes "web_url lib u p"
  shows "\<exists>s. length s = 44 \<and> base64_decode s = hmac_sha256 (es_signatureKey o1)
      (request_text (es_clientID o1) ''GET'' ''application/json'' (net_unix net w) (CHR ''/'' # p) []) \<and>
    (case net_do net \<lparr>rq_Method = ''GET'', rq_URL = u,
         rq_Header = [(''Content-Type'', ''application/json''), (''Authorization'', ''Bearer '' @ token),
           (''X-Timestamp'', show_int (net_unix net w)), (''X-Signature'', s)],
         rq_Body = []\<rparr> w of
       (Inl err, w') \<Rightarrow> RequestTaskStatus lib net o1 token u w = (Ok ([], []), w') \<and>
         FetchCertificate lib net o1 token u w = (Fail err, w')
     | (Inr resp, w') \<Rightarrow> RequestTaskStatus lib net o1 token u w = (Ok (status_response (es_issuer o1) resp), w') \<and>
         FetchCertificate lib net o1 token u w = (fetch_response lib resp, w'))"
  using signature_roundtrip
  by (intro exI [of _ "signEssendiApiRequest (es_clientID o1) ''GET'' ''application/json'' (net_unix net w)
        (CHR ''/'' # p) [] (es_signatureKey o1)"])
    (auto simp: RequestTaskStatus_def FetchCertificate_def url_path_web [OF assms] get_request_def api_headers_def
      split: prod.splits sum.splits)

theorem signed_reads_witness:
  "\<exists>s. length s = 44 \<and> base64_decode s =
     hmac_sha256 ''key'' (request_text ''id'' ''GET'' ''application/json'' 1700000000 ''/a b'' [])"
proof -
  have esc: "escape_path ''a b'' = ''a%20b''"
    by (simp add: escape_path_def plain_path_char_def is_letter_def is_digit_def hex_digit_def char_of_eq_iff)
  have "web_url ex_lib ''https://xc/a%20b?c=d'' ''a b''"
    unfolding web_url_def
    by (rule exI [of _ "''https://xc''"], rule exI [of _ "''?c=d''"]) (simp add: esc ex_web_base url_query_def url_char_def)
  from signed_reads [OF this, where ?o1.0 = ex_essendi and net = ex_net and w = "()"] show ?thesis
    by (auto simp: ex_essendi_def ex_net_def)
qed

section \<open>The signer and its issuer\<close>

text \<open>A signer can be built exactly when the secret has the four keys \<open>client-id\<close>, \<open>client-secret\<close>,
  \<open>token\<close> and \<open>signature-key\<close>, whatever their values; the error names the first that is missing.\<close>

lemma signer_needs_four_keys:
  "(\<exists>S. essendi_builder lib net spec realm secret = Inr S) \<longleftrightarrow>
     {''client-id'', ''client-secret'', ''token'', ''signature-key''} \<subseteq> dom secret"
  by (auto simp: essendi_builder_def EssendiSignerFromIssuerAndSecretData_def dom_def split: option.splits)

text \<open>When several custom fields have the same name the last one counts: the fields sent map each
  name to the rendered value of its last field.\<close>

lemma last_custom_field_counts:
  assumes "render_fields lib vars cfs [] = Inr m"
  shows "map_of m n = (case find (\<lambda>f. cf_Name f = n) (rev cfs) of
     None \<Rightarrow> None
   | Some f \<Rightarrow> (case lib_tmpl_exec lib (cf_Value f) vars of Inl e \<Rightarrow> None | Inr v \<Rightarrow> Some v))"
proof -
  have assign: "map_of (map_assign k v xs) n = (if n = k then Some v else map_of xs n)" for k v and xs :: "(string \<times> string) list"
    by (induction k v xs rule: map_assign.induct) auto
  have find_snoc: "find P (xs @ [x]) = (case find P xs of None \<Rightarrow> (if P x then Some x else None) | Some y \<Rightarrow> Some y)"
    for P and x and xs :: "issuer_custom_field list"
    by (induction xs) auto
  have "render_fields lib vars cfs m0 = Inr m \<Longrightarrow>
    map_of m n = (case find (\<lambda>f. cf_Name f = n) (rev cfs) of
       None \<Rightarrow> map_of m0 n
     | Some f \<Rightarrow> (case lib_tmpl_exec lib (cf_Value f) vars of Inl e \<Rightarrow> None | Inr v \<Rightarrow> Some v))" for m0
  proof (induction lib vars cfs m0 rule: render_fields.induct)
    case (2 lib vars field rest m0)
    then show ?case
      by (auto simp: find_snoc assign split: option.splits sum.splits)
  qed simp
  with assms show ?thesis by (simp split: option.splits)
qed

text \<open>The template variables of a custom field offer the province of the request under the name
  \<open>State\<close>; there is no variable \<open>Province\<close>.\<close>

lemma province_is_state:
  "\<exists>csr. map_of (gotemplateVariables spec parsed) ''Csr'' = Some csr \<and> map_of csr ''Province'' = None \<and>
     map_of csr ''State'' = Some (case csr_Province parsed of [] \<Rightarrow> [] | p # ps \<Rightarrow> p)"
  by (simp add: gotemplateVariables_def first_or_empty_def)

section \<open>Answers\<close>

text \<open>C30: an issuer that ignores the host of API answers gets its own URL back in place of scheme and
  host of the Location, with the path and the query kept, provided its URL holds no dollar sign. When
  that URL is no more than a scheme and an accepted host, what is returned parses, with the path of
  the Location as its path: so the poll that follows is sent, and signed over that path.\<close>

theorem ignored_host_is_replaced:
  assumes "rs_StatusCode resp = 202" and "is_IgnoreHostInApiResponse spec"
    and "header_get (rs_Header resp) ''Location'' = scheme @ ''://'' @ host @ ''/'' @ path"
    and "scheme = ''http'' \<or> scheme = ''https''"
    and "CHR ''/'' \<notin> set host" and "CHR 0x0A \<notin> set host" and "CHR ''$'' \<notin> set (is_URL spec)"
  shows "submit_response lib spec resp = Ok (is_URL spec @ ''/'' @ path) \<and>
    (web_base lib (is_URL spec) \<and> path = escape_path p @ q \<and> url_query q \<longrightarrow>
       url_path lib (is_URL spec @ ''/'' @ path) = Inr (CHR ''/'' # p))"
proof -
  have url: "url_path lib (is_URL spec @ ''/'' @ path) = Inr (CHR ''/'' # p)"
    if "web_base lib (is_URL spec) \<and> path = escape_path p @ q \<and> url_query q"
    by (rule url_path_web) (use that in \<open>unfold web_url_def, blast\<close>)
  have "scheme @ ''://'' @ host @ ''/'' @ path \<noteq> []" by simp
  moreover have "replace_host (is_URL spec) (scheme @ ''://'' @ host @ ''/'' @ path) = is_URL spec @ ''/'' @ path"
    by (rule replace_host_plain [OF assms(7) match_host_of_url [OF assms(4-6)]])
  ultimately have "submit_response lib spec resp = Ok (is_URL spec @ ''/'' @ path)"
    using assms(1-3) by (simp add: submit_response_def Let_def StatusAccepted_def)
  with url show ?thesis by blast
qed

theorem ignored_host_is_replaced_witness:
  "submit_response ex_lib ex_spec \<lparr>rs_StatusCode = 202, rs_Header = [(''Location'', ''http://api/task'')],
     rs_Body = [], rs_BodyErr = None\<rparr> = Ok ''https://xc/task'' \<and> url_path ex_lib ''https://xc/task'' = Inr ''/task''"
proof -
  have "''task'' = escape_path ''task'' @ []"
    by (simp add: escape_path_def plain_path_char_def is_letter_def)
  moreover have "url_query []" by (simp add: url_query_def)
  ultimately show ?thesis
    using ignored_host_is_replaced [of "\<lparr>rs_StatusCode = 202, rs_Header = [(''Location'', ''http://api/task'')],
       rs_Body = [], rs_BodyErr = None\<rparr>" ex_spec "''http''" "''api''" "''task''" ex_lib "''task''" "[]"] ex_web_base
    by (simp add: header_get_def)
qed

text \<open>C31: a poll reports a resource URL exactly when the answer is 303 with a Location; a transport error
  is reported as success with neither URL nor status, which leaves the request where it is.\<close>

theorem poll_answer:
  assumes "url_path lib url = Inr path"
    and "net_do net (get_request o1 token (net_unix net w) url path) w = (answer, w')"
  shows "case answer of
      Inl err \<Rightarrow> RequestTaskStatus lib net o1 token url w = (Ok ([], []), w') \<and> review_next p url [] [] = p
    | Inr resp \<Rightarrow> \<exists>v s. RequestTaskStatus lib net o1 token url w = (Ok (v, s), w') \<and>
        (v \<noteq> [] \<longleftrightarrow> rs_StatusCode resp = 303 \<and> header_get (rs_Header resp) ''Location'' \<noteq> [])"
proof (cases answer)
  case (Inl err)
  with assms show ?thesis by (simp add: RequestTaskStatus_def review_next_def task_statuses)
next
  case (Inr resp)
  then have "RequestTaskStatus lib net o1 token url w = (Ok (status_response (es_issuer o1) resp), w')"
    using assms by (simp add: RequestTaskStatus_def)
  moreover have "fst (status_response (es_issuer o1) resp) \<noteq> [] \<longleftrightarrow>
      rs_StatusCode resp = 303 \<and> header_get (rs_Header resp) ''Location'' \<noteq> []"
    using replace_host_nonempty [of "header_get (rs_Header resp) ''Location''" "is_URL (es_issuer o1)"]
    by (auto simp: status_response_def Let_def StatusSeeOther_def)
  ultimately show ?thesis
    using Inr by (cases "status_response (es_issuer o1) resp") simp
qed

theorem poll_answer_witness:
  "\<exists>v s. RequestTaskStatus ex_lib ex_net ex_essendi ''t'' ''https://xc/task'' () = (Ok (v, s), ()) \<and> v \<noteq> []"
proof -
  define resp where "resp = \<lparr>rs_StatusCode = 303, rs_Header = [(''Location'', ''http://api/cert'')], rs_Body = ''{}'', rs_BodyErr = None\<rparr>"
  have "net_do ex_net (get_request ex_essendi ''t'' (net_unix ex_net ()) ''https://xc/task'' ''/task'') () = (Inr resp, ())"
    by (simp add: ex_net_def get_request_def resp_def)
  from poll_answer [OF ex_url_parse(2) this] show ?thesis by (auto simp: resp_def header_get_def)
qed

text \<open>C32: fetching a certificate succeeds exactly when the answer is 200 with a JSON object whose member
  \<open>data\<close> is a non-empty string, and that string is the certificate; it panics exactly when the URL
  does not parse, or the answer is 200 with a body that is a JSON object or null whose member
  \<open>data\<close> is missing or not a string.\<close>

theorem fetch_outcome:
  "(fst (FetchCertificate lib net o1 token url w) = Ok cert \<longleftrightarrow>
     (\<exists>path resp w' j m. url_path lib url = Inr path \<and>
        net_do net (get_request o1 token (net_unix net w) url path) w = (Inr resp, w') \<and>
        rs_StatusCode resp = 200 \<and> rs_BodyErr resp = None \<and> json_parse (rs_Body resp) = Some j \<and>
        unmarshal_map j = Some m \<and> m ''data'' = Some (JStr cert) \<and> cert \<noteq> [])) \<and>
   (fst (FetchCertificate lib net o1 token url w) = Panic \<longleftrightarrow>
     (\<exists>e. url_path lib url = Inl e) \<or>
     (\<exists>path resp w' j m. url_path lib url = Inr path \<and>
        net_do net (get_request o1 token (net_unix net w) url path) w = (Inr resp, w') \<and>
        rs_StatusCode resp = 200 \<and> rs_BodyErr resp = None \<and> json_parse (rs_Body resp) = Some j \<and>
        unmarshal_map j = Some m \<and> (\<nexists>s. m ''data'' = Some (JStr s))))"
  by (rule conjI)
     (auto simp: FetchCertificate_def fetch_response_def StatusOK_def
      split: sum.splits prod.splits option.splits json.splits if_splits)

definition ex_key_block :: pem_block where
  "ex_key_block = \<lparr>pb_Type = ''PUBLIC KEY'', pb_Headers = [], pb_Bytes = ''key''\<rparr>"

text \<open>C37: the CA of a bundle is the PEM text of its first block that is a self-signed CA certificate,
  and there is none when no block of the bundle is one; for a bundle of blocks written one after the
  other, these are the blocks written, so the CA is a part of the bundle as it came.\<close>

theorem ca_is_first_root:
  "extractCAFromPEMBundle lib data = Option.bind (find (is_root_block lib) (pem_blocks lib data)) pem_EncodeToMemory \<and>
   (pem_laws lib \<and> data = concat (map pem_text bs) \<and> (\<forall>b \<in> set bs. plain_block b) \<longrightarrow>
      extractCAFromPEMBundle lib data = map_option pem_text (find (is_root_block lib) bs))"
proof (intro conjI impI)
  show *: "extractCAFromPEMBundle lib data =
      Option.bind (find (is_root_block lib) (pem_blocks lib data)) pem_EncodeToMemory"
    by (rule extract_is_find)
  assume asm: "pem_laws lib \<and> data = concat (map pem_text bs) \<and> (\<forall>b \<in> set bs. plain_block b)"
  then have blocks: "pem_blocks lib data = bs" by (simp add: pem_blocks_concat)
  show "extractCAFromPEMBundle lib data = map_option pem_text (find (is_root_block lib) bs)"
  proof (cases "find (is_root_block lib) bs")
    case None
    then show ?thesis by (simp add: * blocks)
  next
    case (Some b)
    then have "b \<in> set bs" by (auto simp: find_Some_iff)
    with asm have "plain_block b" by blast
    with Some show ?thesis unfolding * blocks by (simp add: pem_EncodeToMemory_plain)
  qed
qed

theorem ca_is_first_root_witness:
  "extractCAFromPEMBundle ex_lib (pem_text ex_key_block @ ex_ca_pem @ ex_ca_pem) = Some ex_ca_pem"
proof -
  have "\<not> is_root_block ex_lib ex_key_block" "is_root_block ex_lib ex_ca_block"
    by (simp_all add: is_root_block_def ex_key_block_def ex_ca_block_def ex_lib_def)
  then have root: "find (is_root_block ex_lib) [ex_key_block, ex_ca_block, ex_ca_block] = Some ex_ca_block" by simp
  have "plain_block ex_key_block" by (simp add: plain_block_def ex_key_block_def)
  then have plain: "\<forall>b \<in> set [ex_key_block, ex_ca_block, ex_ca_block]. plain_block b" by (simp add: ex_ca_plain)
  from ca_is_first_root [of ex_lib] ex_pem_laws plain
  have "extractCAFromPEMBundle ex_lib (concat (map pem_text [ex_key_block, ex_ca_block, ex_ca_block])) =
      map_option pem_text (find (is_root_block ex_lib) [ex_key_block, ex_ca_block, ex_ca_block])"
    by blast
  then show ?thesis unfolding root by (simp add: ex_ca_pem_def)
qed

text \<open>C38: the loop of \<open>extractCAFromPEMBundle\<close> ends on every input: after at most as many turns as the
  bundle has bytes it stands at its end with the result of the recursive function.\<close>

theorem ca_search_terminates:
  "\<exists>k st. k \<le> length data \<and> st = (ca_loop_body lib ^^ k) (pem_decode lib data, None) \<and>
     \<not> ca_loop_cond st \<and> ca_loop lib data = Some st \<and> ca_returned st = extractCAFromPEMBundle lib data"
proof -
  obtain k where k: "k \<le> length data"
    "ca_loop lib data = Some ((ca_loop_body lib ^^ k) (pem_decode lib data, None))"
    using ca_loop_steps by blast
  moreover from k(2) have "\<not> ca_loop_cond ((ca_loop_body lib ^^ k) (pem_decode lib data, None))"
    unfolding ca_loop_def by (rule while_option_stop)
  ultimately show ?thesis using ca_loop_value by blast
qed

end
