(* ===== verification/Policies.thy ===== *)
theory Policies
  imports GoBase "HOL-Library.Multiset"
begin

text \<open>
  \<open>internal/issuer/signer/policies.go\<close>: the translation of usage names to X.509 key usages, the
  sort interface of the extended usages, and the permissive signing policy.

  The usage names are those of the Kubernetes certificates API, the numbers those of
  \<open>crypto/x509\<close> (key usages are bits of a 64-bit \<open>int\<close>, extended usages consecutive numbers).
  The order in which Go ranges over a map is not fixed: it is the argument \<open>order\<close>.
\<close>

section \<open>Sorting through an interface\<close>

text \<open>
  \<open>sort.Sort\<close> works on a value only through \<open>Len\<close>, \<open>Less\<close> and \<open>Swap\<close>. Up to twelve elements it
  is an insertion sort: element \<open>i\<close> is swapped down while it is less than its predecessor.
\<close>

fun swap_down :: "('d \<Rightarrow> nat \<Rightarrow> nat \<Rightarrow> bool) \<Rightarrow> ('d \<Rightarrow> nat \<Rightarrow> nat \<Rightarrow> 'd) \<Rightarrow> nat \<Rightarrow> 'd \<Rightarrow> 'd" where
  "swap_down lt swap 0 d = d"
| "swap_down lt swap (Suc j) d =
     (if lt d (Suc j) j then swap_down lt swap j (swap d (Suc j) j) else d)"

definition sort_Sort ::
    "('d \<Rightarrow> nat) \<Rightarrow> ('d \<Rightarrow> nat \<Rightarrow> nat \<Rightarrow> bool) \<Rightarrow> ('d \<Rightarrow> nat \<Rightarrow> nat \<Rightarrow> 'd) \<Rightarrow> 'd \<Rightarrow> 'd" where
  "sort_Sort len lt swap d = fold (swap_down lt swap) [1..<len d] d"

text \<open>The contract of \<open>sort.Interface\<close>: \<open>at d i\<close> is the element at index \<open>i\<close>.\<close>

locale sort_interface =
  fixes len :: "'d \<Rightarrow> nat" and lt :: "'d \<Rightarrow> nat \<Rightarrow> nat \<Rightarrow> bool" and swap :: "'d \<Rightarrow> nat \<Rightarrow> nat \<Rightarrow> 'd"
    and at :: "'d \<Rightarrow> nat \<Rightarrow> 'e::linorder"
  assumes lt_at: "i < len d \<Longrightarrow> j < len d \<Longrightarrow> lt d i j \<longleftrightarrow> at d i < at d j"
    and len_swap: "len (swap d i j) = len d"
    and at_swap: "i < len d \<Longrightarrow> j < len d \<Longrightarrow> n < len d \<Longrightarrow>
      at (swap d i j) n = (if n = i then at d j else if n = j then at d i else at d n)"
begin

definition elems :: "'d \<Rightarrow> 'e list" where
  "elems d = map (at d) [0..<len d]"

definition sorted_to :: "nat \<Rightarrow> 'd \<Rightarrow> bool" where
  "sorted_to m d \<longleftrightarrow> (\<forall>a b. a < b \<longrightarrow> b < m \<longrightarrow> at d a \<le> at d b)"

text \<open>All but the element \<open>j\<close> are sorted up to \<open>m\<close>, and those after \<open>j\<close> are not less than it.\<close>

definition hole :: "nat \<Rightarrow> nat \<Rightarrow> 'd \<Rightarrow> bool" where
  "hole j m d \<longleftrightarrow> (\<forall>a b. a < b \<longrightarrow> b < m \<longrightarrow> a \<noteq> j \<longrightarrow> b \<noteq> j \<longrightarrow> at d a \<le> at d b) \<and>
                 (\<forall>b. j < b \<longrightarrow> b < m \<longrightarrow> at d j \<le> at d b)"

lemma length_elems [simp]: "length (elems d) = len d"
  by (simp add: elems_def)

lemma elems_swap:
  "i < len d \<Longrightarrow> j < len d \<Longrightarrow> elems (swap d i j) = (elems d)[i := at d j, j := at d i]"
  by (rule nth_equalityI) (auto simp: elems_def len_swap at_swap nth_list_update)

lemma mset_elems_swap: "i < len d \<Longrightarrow> j < len d \<Longrightarrow> mset (elems (swap d i j)) = mset (elems d)"
proof -
  assume ij: "i < len d" "j < len d"
  then have "mset ((elems d)[i := elems d ! j, j := elems d ! i]) = mset (elems d)"
    by (intro mset_swap) simp_all
  with ij show ?thesis by (simp add: elems_swap) (simp add: elems_def)
qed

lemma swap_down_keeps:
  "j < len d \<Longrightarrow> len (swap_down lt swap j d) = len d \<and> mset (elems (swap_down lt swap j d)) = mset (elems d)"
proof (induction j arbitrary: d)
  case (Suc j)
  then show ?case using Suc.IH [of "swap d (Suc j) j"] by (simp add: len_swap mset_elems_swap)
qed simp

lemma hole_swap:
  assumes "hole (Suc j) m d" and "m \<le> len d" and "Suc j < m" and "at d (Suc j) < at d j"
  shows "hole j m (swap d (Suc j) j)"
proof -
  have at: "at (swap d (Suc j) j) n =
      (if n = Suc j then at d j else if n = j then at d (Suc j) else at d n)" if "n < m" for n
    using at_swap [of "Suc j" d j n] assms(2,3) that by simp
  have l: "at d a \<le> at d b" if "a < b" "b < m" "a \<noteq> Suc j" "b \<noteq> Suc j" for a b
    using assms(1) that by (simp add: hole_def)
  have h: "at d (Suc j) \<le> at d b" if "Suc j < b" "b < m" for b
    using assms(1) that by (simp add: hole_def)
  show ?thesis
    unfolding hole_def
  proof (intro conjI allI impI)
    fix a b assume "a < b" "b < m" "a \<noteq> j" "b \<noteq> j"
    then show "at (swap d (Suc j) j) a \<le> at (swap d (Suc j) j) b"
      using at [of a] at [of b] l [of a b] l [of a j] l [of j b] by (auto simp: less_Suc_eq)
  next
    fix b assume "j < b" "b < m"
    then show "at (swap d (Suc j) j) j \<le> at (swap d (Suc j) j) b"
      using at [of j] at [of b] h [of b] assms(4) by auto
  qed
qed

lemma swap_down_sorts:
  "hole j m d \<Longrightarrow> j < m \<Longrightarrow> m \<le> len d \<Longrightarrow> sorted_to m (swap_down lt swap j d)"
proof (induction j arbitrary: d)
  case 0
  then show ?case by (auto simp: hole_def sorted_to_def)
next
  case (Suc j)
  show ?case
  proof (cases "lt d (Suc j) j")
    case True
    with Suc.prems have "at d (Suc j) < at d j" by (simp add: lt_at)
    with Suc.prems have "hole j m (swap d (Suc j) j)" by (intro hole_swap)
    with Suc.IH [of "swap d (Suc j) j"] Suc.prems True show ?thesis by (simp add: len_swap)
  next
    case False
    with Suc.prems have le: "at d j \<le> at d (Suc j)" by (simp add: lt_at)
    have "sorted_to m d"
      unfolding sorted_to_def
    proof (intro allI impI)
      fix a b assume ab: "a < b" "b < m"
      consider "b = Suc j" "a = j" | "b = Suc j" "a < j" | "a = Suc j" | "a \<noteq> Suc j" "b \<noteq> Suc j"
        using ab by linarith
      then show "at d a \<le> at d b"
      proof cases
        case 2
        with Suc.prems have "at d a \<le> at d j" by (simp add: hole_def)
        with le 2 show ?thesis by simp
      qed (use le ab Suc.prems in \<open>auto simp: hole_def\<close>)
    qed
    with False show ?thesis by simp
  qed
qed

lemma fold_swap_down:
  assumes "n \<le> len d"
  shows "let d' = fold (swap_down lt swap) [1..<n] d
         in len d' = len d \<and> mset (elems d') = mset (elems d) \<and> sorted_to n d'"
  using assms
proof (induction n)
  case 0
  then show ?case by (simp add: sorted_to_def)
next
  case (Suc n)
  define d1 where "d1 = fold (swap_down lt swap) [1..<n] d"
  from Suc have d1: "len d1 = len d" "mset (elems d1) = mset (elems d)" "sorted_to n d1"
    by (simp_all add: d1_def Let_def)
  show ?case
  proof (cases "n = 0")
    case False
    have "hole n (Suc n) d1" using d1(3) by (auto simp: hole_def sorted_to_def less_Suc_eq)
    then have "sorted_to (Suc n) (swap_down lt swap n d1)"
      using d1(1) Suc.prems by (intro swap_down_sorts) auto
    with False swap_down_keeps [of n d1] d1 Suc.prems show ?thesis by (simp add: d1_def Let_def)
  qed (simp add: sorted_to_def)
qed

lemma sort_Sort_elems: "elems (sort_Sort len lt swap d) = sort (elems d)"
proof (rule properties_for_sort [symmetric])
  have *: "len (sort_Sort len lt swap d) = len d"
    "mset (elems (sort_Sort len lt swap d)) = mset (elems d)"
    "sorted_to (len d) (sort_Sort len lt swap d)"
    using fold_swap_down [of "len d" d] by (simp_all add: sort_Sort_def Let_def)
  show "mset (elems (sort_Sort len lt swap d)) = mset (elems d)" by (rule *)
  show "sorted (elems (sort_Sort len lt swap d))"
    using * by (simp add: sorted_iff_nth_mono_less elems_def sorted_to_def)
qed

end

section \<open>The usage tables\<close>

type_synonym key_usage = "64 word"
type_synonym ext_key_usage = int

definition x509_KeyUsageDigitalSignature :: key_usage where "x509_KeyUsageDigitalSignature = push_bit 0 1"
definition x509_KeyUsageContentCommitment :: key_usage where "x509_KeyUsageContentCommitment = push_bit 1 1"
definition x509_KeyUsageKeyEncipherment :: key_usage where "x509_KeyUsageKeyEncipherment = push_bit 2 1"
definition x509_KeyUsageDataEncipherment :: key_usage where "x509_KeyUsageDataEncipherment = push_bit 3 1"
definition x509_KeyUsageKeyAgreement :: key_usage where "x509_KeyUsageKeyAgreement = push_bit 4 1"
definition x509_KeyUsageCertSign :: key_usage where "x509_KeyUsageCertSign = push_bit 5 1"
definition x509_KeyUsageCRLSign :: key_usage where "x509_KeyUsageCRLSign = push_bit 6 1"
definition x509_KeyUsageEncipherOnly :: key_usage where "x509_KeyUsageEncipherOnly = push_bit 7 1"
definition x509_KeyUsageDecipherOnly :: key_usage where "x509_KeyUsageDecipherOnly = push_bit 8 1"

lemmas key_usage_defs =
  x509_KeyUsageDigitalSignature_def x509_KeyUsageContentCommitment_def x509_KeyUsageKeyEncipherment_def
  x509_KeyUsageDataEncipherment_def x509_KeyUsageKeyAgreement_def x509_KeyUsageCertSign_def
  x509_KeyUsageCRLSign_def x509_KeyUsageEncipherOnly_def x509_KeyUsageDecipherOnly_def

definition keyUsageDict :: "(string \<times> key_usage) list" where
  "keyUsageDict =
     [(''signing'', x509_KeyUsageDigitalSignature),
      (''digital signature'', x509_KeyUsageDigitalSignature),
      (''content commitment'', x509_KeyUsageContentCommitment),
      (''key encipherment'', x509_KeyUsageKeyEncipherment),
      (''key agreement'', x509_KeyUsageKeyAgreement),
      (''data encipherment'', x509_KeyUsageDataEncipherment),
      (''cert sign'', x509_KeyUsageCertSign),
      (''crl sign'', x509_KeyUsageCRLSign),
      (''encipher only'', x509_KeyUsageEncipherOnly),
      (''decipher only'', x509_KeyUsageDecipherOnly)]"

text \<open>The extended usages \<open>Any\<close>, \<open>ServerAuth\<close>, ..., \<open>NetscapeServerGatedCrypto\<close> are 0 to 11.\<close>

definition extKeyUsageDict :: "(string \<times> ext_key_usage) list" where
  "extKeyUsageDict =
     [(''any'', 0),
      (''server auth'', 1),
      (''client auth'', 2),
      (''code signing'', 3),
      (''email protection'', 4),
      (''s/mime'', 4),
      (''ipsec end system'', 5),
      (''ipsec tunnel'', 6),
      (''ipsec user'', 7),
      (''timestamping'', 8),
      (''ocsp signing'', 9),
      (''microsoft sgc'', 10),
      (''netscape sgc'', 11)]"

section \<open>Translating usages\<close>

text \<open>One turn of the loop over the usages; the map is the list of its keys.\<close>

definition add_usage ::
    "string \<Rightarrow> key_usage \<times> ext_key_usage list \<times> string list \<Rightarrow> key_usage \<times> ext_key_usage list \<times> string list" where
  "add_usage usage s =
     (case s of (keyUsage, extKeyUsages, unrecognized) \<Rightarrow>
      (case map_of keyUsageDict usage of
         Some val \<Rightarrow> (or keyUsage val, extKeyUsages, unrecognized)
       | None \<Rightarrow>
           (case map_of extKeyUsageDict usage of
              Some val \<Rightarrow> (keyUsage, List.insert val extKeyUsages, unrecognized)
            | None \<Rightarrow> (keyUsage, extKeyUsages, unrecognized @ [usage]))))"

definition sortedExtKeyUsage_Len :: "ext_key_usage list \<Rightarrow> nat" where
  "sortedExtKeyUsage_Len s = length s"

definition sortedExtKeyUsage_Swap :: "ext_key_usage list \<Rightarrow> nat \<Rightarrow> nat \<Rightarrow> ext_key_usage list" where
  "sortedExtKeyUsage_Swap s i j = s[i := s ! j, j := s ! i]"

definition sortedExtKeyUsage_Less :: "ext_key_usage list \<Rightarrow> nat \<Rightarrow> nat \<Rightarrow> bool" where
  "sortedExtKeyUsage_Less s i j \<longleftrightarrow> s ! i < s ! j"

interpretation ext: sort_interface sortedExtKeyUsage_Len sortedExtKeyUsage_Less sortedExtKeyUsage_Swap nth
  by unfold_locales
     (auto simp: sortedExtKeyUsage_Len_def sortedExtKeyUsage_Less_def sortedExtKeyUsage_Swap_def nth_list_update)

lemma ext_elems [simp]: "ext.elems s = s"
  by (simp add: ext.elems_def sortedExtKeyUsage_Len_def map_nth)

text \<open>\<open>fmt_q\<close> prints a list of strings with the verb \<open>%q\<close>.\<close>

definition keyUsagesFromStrings ::
    "(string list \<Rightarrow> string) \<Rightarrow> (ext_key_usage list \<Rightarrow> ext_key_usage list) \<Rightarrow> string list \<Rightarrow>
       go_error + (key_usage \<times> ext_key_usage list)" where
  "keyUsagesFromStrings fmt_q order usages =
     (case fold add_usage usages (0, [], []) of (keyUsage, extKeyUsages, unrecognized) \<Rightarrow>
      let sorted = sort_Sort sortedExtKeyUsage_Len sortedExtKeyUsage_Less sortedExtKeyUsage_Swap
                     (order extKeyUsages)
      in if unrecognized \<noteq> []
         then Inl (ErrText (''unrecognized usage values: '' @ fmt_q unrecognized))
         else Inr (keyUsage, sorted))"

lemma sort_ext: "sort_Sort sortedExtKeyUsage_Len sortedExtKeyUsage_Less sortedExtKeyUsage_Swap s = sort s"
  using ext.sort_Sort_elems [of s] by simp

text \<open>The extended usages a list of names stands for, and the names that stand for nothing.\<close>

definition ext_usages :: "string list \<Rightarrow> ext_key_usage set" where
  "ext_usages us = {v. \<exists>u \<in> set us. map_of keyUsageDict u = None \<and> map_of extKeyUsageDict u = Some v}"

definition unknown_usage :: "string \<Rightarrow> bool" where
  "unknown_usage u \<longleftrightarrow> map_of keyUsageDict u = None \<and> map_of extKeyUsageDict u = None"

lemma fold_add_usage:
  "fold add_usage us (k, es, un) = (k', es', un') \<Longrightarrow> distinct es \<Longrightarrow>
     un' = un @ filter unknown_usage us \<and> distinct es' \<and> set es' = set es \<union> ext_usages us \<and>
     (\<forall>n. bit k' n \<longleftrightarrow> bit k n \<or> (\<exists>u \<in> set us. \<exists>v. map_of keyUsageDict u = Some v \<and> bit v n))"
proof (induction us arbitrary: k es un)
  case Nil
  then show ?case by (auto simp: ext_usages_def)
next
  case (Cons u us)
  have ext: "ext_usages (u # us) = ext_usages us \<union>
      {v. map_of keyUsageDict u = None \<and> map_of extKeyUsageDict u = Some v}"
    by (auto simp: ext_usages_def)
  show ?case
  proof (cases "map_of keyUsageDict u")
    case (Some v)
    with Cons.prems Cons.IH [of "or k v" es un] ext show ?thesis
      by (auto simp: add_usage_def unknown_usage_def bit_or_iff)
  next
    case None
    note none = None
    show ?thesis
    proof (cases "map_of extKeyUsageDict u")
      case None
      with none Cons.prems Cons.IH [of k es "un @ [u]"] ext show ?thesis
        by (auto simp: add_usage_def unknown_usage_def)
    next
      case (Some v)
      with none Cons.prems Cons.IH [of k "List.insert v es" un] ext show ?thesis
        by (auto simp: add_usage_def unknown_usage_def)
    qed
  qed
qed

text \<open>At most twelve extended usages come up, within the range where \<open>sort.Sort\<close> inserts.\<close>

lemma ext_usages_bound: "ext_usages us \<subseteq> {0..11}"
proof
  fix v assume "v \<in> ext_usages us"
  then obtain u where "map_of extKeyUsageDict u = Some v" by (auto simp: ext_usages_def)
  then have "v \<in> snd ` set extKeyUsageDict" by (metis map_of_SomeD image_eqI snd_conv)
  then show "v \<in> {0..11}" by (auto simp: extKeyUsageDict_def)
qed

lemma keyUsagesFromStrings_result:
  assumes "\<And>xs. mset (order xs) = mset xs"
  obtains k where "\<forall>n. bit k n \<longleftrightarrow> (\<exists>u \<in> set us. \<exists>v. map_of keyUsageDict u = Some v \<and> bit v n)"
    and "keyUsagesFromStrings fmt_q order us =
      (if filter unknown_usage us \<noteq> []
       then Inl (ErrText (''unrecognized usage values: '' @ fmt_q (filter unknown_usage us)))
       else Inr (k, sorted_list_of_set (ext_usages us)))"
proof -
  obtain k es un where f: "fold add_usage us (0, [], []) = (k, es, un)"
    using prod_cases3 by blast
  from fold_add_usage [OF f] have un: "un = filter unknown_usage us"
    and es: "distinct es" "set es = ext_usages us"
    and k: "\<forall>n. bit k n \<longleftrightarrow> (\<exists>u \<in> set us. \<exists>v. map_of keyUsageDict u = Some v \<and> bit v n)"
    by auto
  have "sort (order es) = sort es"
    by (rule properties_for_sort) (simp_all add: assms)
  also have "\<dots> = sorted_list_of_set (ext_usages us)"
    using sorted_list_of_set_sort_remdups [of es] es by (simp add: distinct_remdups_id)
  finally have "sort (order es) = sorted_list_of_set (ext_usages us)" .
  with k that show thesis by (auto simp: keyUsagesFromStrings_def f sort_ext un Let_def)
qed

section \<open>Signing policies\<close>

text \<open>
  The fields of an \<open>x509.Certificate\<close> the program sets. Subject, names, addresses, keys and
  extensions are carried from the request without being looked into: byte strings here.
\<close>

record x509_template =
  tm_SerialNumber :: int
  tm_Subject :: bytes
  tm_DNSNames :: "string list"
  tm_IPAddresses :: "bytes list"
  tm_EmailAddresses :: "string list"
  tm_URIs :: "string list"
  tm_PublicKeyAlgorithm :: int
  tm_PublicKey :: bytes
  tm_Extensions :: "bytes list"
  tm_ExtraExtensions :: "bytes list"
  tm_NotBefore :: go_time
  tm_NotAfter :: go_time
  tm_KeyUsage :: key_usage
  tm_ExtKeyUsage :: "ext_key_usage list"
  tm_BasicConstraintsValid :: bool
  tm_IsCA :: bool

record permissive_signing_policy =
  pp_TTL :: duration
  pp_Usages :: "string list"

definition PermissiveSigningPolicy_apply ::
    "(string list \<Rightarrow> string) \<Rightarrow> (ext_key_usage list \<Rightarrow> ext_key_usage list) \<Rightarrow>
       permissive_signing_policy \<Rightarrow> x509_template \<Rightarrow> go_error + x509_template" where
  "PermissiveSigningPolicy_apply fmt_q order p tmpl =
     (case keyUsagesFromStrings fmt_q order (pp_Usages p) of
        Inl err \<Rightarrow> Inl err
      | Inr (usage, extUsages) \<Rightarrow>
          Inr (tmpl\<lparr>tm_KeyUsage := usage, tm_ExtKeyUsage := extUsages,
                    tm_NotAfter := time_add (tm_NotBefore tmpl) (pp_TTL p),
                    tm_ExtraExtensions := [], tm_Extensions := [],
                    tm_BasicConstraintsValid := True, tm_IsCA := False\<rparr>))"

text \<open>
  What the certificate authority may rely on: a policy that accepts a template leaves what
  identifies the certificate alone, drops the requested extensions, and never makes a CA.
\<close>

locale signing_policy =
  fixes policy :: "x509_template \<Rightarrow> go_error + x509_template"
  assumes keeps: "policy t = Inr t' \<Longrightarrow>
      tm_SerialNumber t' = tm_SerialNumber t \<and> tm_Subject t' = tm_Subject t \<and>
      tm_PublicKey t' = tm_PublicKey t \<and> tm_NotBefore t' = tm_NotBefore t \<and>
      tm_DNSNames t' = tm_DNSNames t \<and> tm_IPAddresses t' = tm_IPAddresses t \<and>
      tm_EmailAddresses t' = tm_EmailAddresses t \<and> tm_URIs t' = tm_URIs t"
    and leaf: "policy t = Inr t' \<Longrightarrow> \<not> tm_IsCA t' \<and> tm_BasicConstraintsValid t'"
    and no_extensions: "policy t = Inr t' \<Longrightarrow> tm_Extensions t' = [] \<and> tm_ExtraExtensions t' = []"

lemma permissive_policy: "signing_policy (PermissiveSigningPolicy_apply fmt_q order p)"
  by unfold_locales (auto simp: PermissiveSigningPolicy_apply_def split: sum.splits prod.splits)

interpretation permissive: signing_policy "PermissiveSigningPolicy_apply fmt_q order p" for fmt_q order p
  by (rule permissive_policy)

end
