(* ===== verification/Authority.thy ===== *)
theory Authority
  imports Policies GoLib
begin

text \<open>
  \<open>internal/issuer/signer/authority.go\<close>: a certificate authority that signs a request under a
  signing policy. The parts of \<open>crypto/x509\<close> and \<open>crypto/rand\<close> it calls are the fields of
  \<open>ca_env\<close>: the parser and the signature check of requests, the random integer below a limit,
  the creation of the certificate, and the two prints of a time and of an empty clock.
\<close>

text \<open>\<open>new(big.Int).Lsh(big.NewInt(1), 128)\<close>.\<close>

definition serialNumberLimit :: int where
  "serialNumberLimit = push_bit 128 1"

text \<open>What is read of a parsed request.\<close>

record ca_request =
  cq_Subject :: bytes
  cq_CommonName :: string
  cq_DNSNames :: "string list"
  cq_IPAddresses :: "bytes list"
  cq_EmailAddresses :: "string list"
  cq_URIs :: "string list"
  cq_PublicKeyAlgorithm :: int
  cq_PublicKey :: bytes
  cq_Extensions :: "bytes list"
  cq_ExtraExtensions :: "bytes list"

record ca_env =
  ce_now :: go_time
  ce_parse_request :: "bytes \<Rightarrow> go_error + ca_request"
  ce_check_signature :: "ca_request \<Rightarrow> go_error option"
  ce_rand_int :: "int \<Rightarrow> go_error + int"
  ce_create_certificate :: "x509_template \<Rightarrow> bytes \<Rightarrow> bytes \<Rightarrow> bytes \<Rightarrow> go_error + bytes"
  ce_show_time :: "go_time \<Rightarrow> string"

text \<open>\<open>Now\<close> is a function value or nil; the certificate is its raw bytes and its end of validity.\<close>

record certificate_authority =
  ca_RawCert :: bytes
  ca_RawKey :: bytes
  ca_Certificate :: bytes
  ca_NotAfter :: go_time
  ca_PrivateKey :: bytes
  ca_Backdate :: duration
  ca_Now :: "go_time option"

text \<open>The zero value of \<open>time.Time\<close>, the first of January of year 1.\<close>

definition time_zero :: go_time where
  "time_zero = - 62135596800 * 1000000000"

definition sign_template :: "ca_request \<Rightarrow> int \<Rightarrow> go_time \<Rightarrow> x509_template" where
  "sign_template cr serialNumber nbf =
     \<lparr>tm_SerialNumber = serialNumber, tm_Subject = cq_Subject cr, tm_DNSNames = cq_DNSNames cr,
      tm_IPAddresses = cq_IPAddresses cr, tm_EmailAddresses = cq_EmailAddresses cr,
      tm_URIs = cq_URIs cr, tm_PublicKeyAlgorithm = cq_PublicKeyAlgorithm cr,
      tm_PublicKey = cq_PublicKey cr, tm_Extensions = cq_Extensions cr,
      tm_ExtraExtensions = cq_ExtraExtensions cr, tm_NotBefore = nbf, tm_NotAfter = time_zero,
      tm_KeyUsage = 0, tm_ExtKeyUsage = [], tm_BasicConstraintsValid = False, tm_IsCA = False\<rparr>"

definition Sign ::
    "ca_env \<Rightarrow> certificate_authority \<Rightarrow> bytes \<Rightarrow> (x509_template \<Rightarrow> go_error + x509_template) \<Rightarrow>
       go_error + bytes" where
  "Sign env ca crDER policy =
     (let now = (case ca_Now ca of None \<Rightarrow> ce_now env | Some t \<Rightarrow> t);
          nbf = time_add now (- ca_Backdate ca)
      in if \<not> nbf < ca_NotAfter ca
         then Inl (ErrText (''the signer has expired: NotAfter='' @ ce_show_time env (ca_NotAfter ca)))
         else
      (case ce_parse_request env crDER of
         Inl err \<Rightarrow> Inl (ErrText (''unable to parse certificate request: '' @ err_text err))
       | Inr cr \<Rightarrow>
      (case ce_check_signature env cr of
         Some err \<Rightarrow> Inl (ErrText (''unable to verify certificate request signature: '' @ err_text err))
       | None \<Rightarrow>
      (case ce_rand_int env serialNumberLimit of
         Inl err \<Rightarrow> Inl (ErrText (''unable to generate a serial number for '' @ cq_CommonName cr
                             @ '': '' @ err_text err))
       | Inr serialNumber \<Rightarrow>
      (case policy (sign_template cr serialNumber nbf) of
         Inl err \<Rightarrow> Inl err
       | Inr tmpl \<Rightarrow>
           let tmpl = (if \<not> tm_NotAfter tmpl < ca_NotAfter ca
                       then tmpl\<lparr>tm_NotAfter := ca_NotAfter ca\<rparr> else tmpl)
           in if \<not> now < ca_NotAfter ca
              then Inl (ErrText ''refusing to sign a certificate that expired in the past'')
              else
           (case ce_create_certificate env tmpl (ca_Certificate ca) (cq_PublicKey cr) (ca_PrivateKey ca) of
              Inl err \<Rightarrow> Inl (ErrText (''failed to sign certificate: '' @ err_text err))
            | Inr der \<Rightarrow> Inr der))))))"

section \<open>What a signed certificate is made from\<close>

text \<open>The template given to \<open>x509.CreateCertificate\<close> is within the authority's own validity.\<close>

definition issuable ::
    "ca_env \<Rightarrow> certificate_authority \<Rightarrow> ca_request \<Rightarrow> x509_template \<Rightarrow> bool" where
  "issuable env ca cr t \<longleftrightarrow>
     tm_Subject t = cq_Subject cr \<and> tm_PublicKey t = cq_PublicKey cr \<and>
     tm_DNSNames t = cq_DNSNames cr \<and> tm_IPAddresses t = cq_IPAddresses cr \<and>
     tm_EmailAddresses t = cq_EmailAddresses cr \<and> tm_URIs t = cq_URIs cr \<and>
     \<not> tm_IsCA t \<and> tm_BasicConstraintsValid t \<and> tm_Extensions t = [] \<and> tm_ExtraExtensions t = [] \<and>
     tm_NotAfter t \<le> ca_NotAfter ca \<and> tm_NotBefore t < ca_NotAfter ca \<and>
     ce_rand_int env serialNumberLimit = Inr (tm_SerialNumber t)"

context signing_policy begin

lemma Sign_template:
  assumes "Sign env ca crDER policy = Inr der"
  obtains cr t where "ce_parse_request env crDER = Inr cr" and "ce_check_signature env cr = None"
    and "ce_create_certificate env t (ca_Certificate ca) (cq_PublicKey cr) (ca_PrivateKey ca) = Inr der"
    and "issuable env ca cr t"
    and "tm_NotBefore t = time_add (case ca_Now ca of None \<Rightarrow> ce_now env | Some n \<Rightarrow> n) (- ca_Backdate ca)"
proof -
  define now where "now = (case ca_Now ca of None \<Rightarrow> ce_now env | Some n \<Rightarrow> n)"
  define nbf where "nbf = time_add now (- ca_Backdate ca)"
  obtain cr sn t0 where ok: "nbf < ca_NotAfter ca" "ce_parse_request env crDER = Inr cr"
      "ce_check_signature env cr = None" "ce_rand_int env serialNumberLimit = Inr sn"
      "policy (sign_template cr sn nbf) = Inr t0"
    and create: "ce_create_certificate env
        (if \<not> tm_NotAfter t0 < ca_NotAfter ca then t0\<lparr>tm_NotAfter := ca_NotAfter ca\<rparr> else t0)
        (ca_Certificate ca) (cq_PublicKey cr) (ca_PrivateKey ca) = Inr der"
    using assms unfolding Sign_def Let_def now_def [symmetric] nbf_def [symmetric]
    by (auto split: if_splits sum.splits option.splits)
  define t where "t = (if \<not> tm_NotAfter t0 < ca_NotAfter ca then t0\<lparr>tm_NotAfter := ca_NotAfter ca\<rparr> else t0)"
  have "issuable env ca cr t"
    using keeps [OF ok(5)] leaf [OF ok(5)] no_extensions [OF ok(5)] ok(1,4)
    by (simp add: t_def issuable_def sign_template_def)
  moreover have "tm_NotBefore t = nbf"
    using keeps [OF ok(5)] by (simp add: t_def sign_template_def)
  ultimately show thesis
    using that [OF ok(2,3) create [folded t_def]] by (simp add: nbf_def now_def)
qed

end

end
