(* ===== verification/CaTheorems.thy ===== *)
theory CaTheorems
  imports Authority
begin

text \<open>
  The properties of the usage tables and of the certificate authority,
  with a concrete authority and request as their witness.
\<close>

text \<open>C39: when all usage names are known, their translation does not depend on the order in which Go
  ranges over its map, nor on order and repetition of the names: the key usage has exactly the bits
  of the named usages, and the extended usages are sorted and distinct.\<close>

theorem usages_translated:
  assumes "\<And>xs. mset (order xs) = mset xs"
    and "\<forall>u \<in> set us. u \<in> dom (map_of keyUsageDict) \<union> dom (map_of extKeyUsageDict)"
  shows "\<exists>k. keyUsagesFromStrings fmt_q order us = Inr (k, sorted_list_of_set (ext_usages us)) \<and>
    (\<forall>n. bit k n \<longleftrightarrow> (\<exists>u \<in> set us. \<exists>v. map_of keyUsageDict u = Some v \<and> bit v n))"
proof -
  have "filter unknown_usage us = []"
    using assms(2) by (auto simp: filter_empty_conv unknown_usage_def)
  with keyUsagesFromStrings_result [OF assms(1), where us = us and fmt_q = fmt_q] show ?thesis by metis
qed

theorem usages_translated_witness:
  "\<exists>k. keyUsagesFromStrings concat rev [''server auth'', ''signing'', ''any'', ''server auth''] =
     Inr (k, sorted_list_of_set (ext_usages [''server auth'', ''signing'', ''any'', ''server auth'']))"
proof -
  have o: "mset (rev xs) = mset xs" for xs :: "ext_key_usage list" by simp
  have "\<forall>u \<in> set [''server auth'', ''signing'', ''any'', ''server auth''].
      u \<in> dom (map_of keyUsageDict) \<union> dom (map_of extKeyUsageDict)"
    by (simp add: keyUsageDict_def extKeyUsageDict_def)
  from usages_translated [OF o this, of concat] show ?thesis by blast
qed

text \<open>One unknown usage name is enough to fail, and the error lists exactly the unknown names, in
  the order given.\<close>

lemma unknown_usages_reported:
  assumes "\<And>xs. mset (order xs) = mset xs" and "filter unknown_usage us \<noteq> []"
  shows "keyUsagesFromStrings fmt_q order us =
    Inl (ErrText (''unrecognized usage values: '' @ fmt_q (filter unknown_usage us)))"
  using keyUsagesFromStrings_result [OF assms(1), where us = us and fmt_q = fmt_q] assms(2) by metis

section \<open>The certificate authority\<close>

text \<open>C40: whatever the authority signs under the permissive policy is for a request whose own signature
  checks, carries that request's subject, names and key, is no CA, has no extensions of the request,
  does not outlive the authority's certificate, and has a serial number below two to the 128.\<close>

theorem signed_within_authority:
  assumes "Sign env ca crDER (PermissiveSigningPolicy_apply fmt_q order p) = Inr der"
    and "\<And>s. ce_rand_int env serialNumberLimit = Inr s \<Longrightarrow> 0 \<le> s \<and> s < serialNumberLimit"
  shows "\<exists>cr t. ce_parse_request env crDER = Inr cr \<and> ce_check_signature env cr = None \<and>
    ce_create_certificate env t (ca_Certificate ca) (cq_PublicKey cr) (ca_PrivateKey ca) = Inr der \<and>
    tm_Subject t = cq_Subject cr \<and> tm_PublicKey t = cq_PublicKey cr \<and> tm_DNSNames t = cq_DNSNames cr \<and>
    \<not> tm_IsCA t \<and> tm_Extensions t = [] \<and> tm_ExtraExtensions t = [] \<and>
    tm_NotAfter t \<le> ca_NotAfter ca \<and> tm_NotBefore t < ca_NotAfter ca \<and>
    0 \<le> tm_SerialNumber t \<and> tm_SerialNumber t < 2 ^ 128"
proof -
  obtain cr t where ok: "ce_parse_request env crDER = Inr cr" "ce_check_signature env cr = None"
      "ce_create_certificate env t (ca_Certificate ca) (cq_PublicKey cr) (ca_PrivateKey ca) = Inr der"
      "issuable env ca cr t"
    using permissive.Sign_template [OF assms(1)] by metis
  have "serialNumberLimit = 2 ^ 128" by (simp add: serialNumberLimit_def push_bit_eq_mult)
  with ok assms(2) show ?thesis
    by (intro exI [of _ cr] exI [of _ t]) (auto simp: issuable_def)
qed

definition ex_ca_request :: ca_request where
  "ex_ca_request = \<lparr>cq_Subject = ''CN=host'', cq_CommonName = ''host'', cq_DNSNames = [''host.example''],
     cq_IPAddresses = [], cq_EmailAddresses = [], cq_URIs = [], cq_PublicKeyAlgorithm = 1, cq_PublicKey = ''key'',
     cq_Extensions = [''ext''], cq_ExtraExtensions = []\<rparr>"

definition ex_env :: ca_env where
  "ex_env = \<lparr>ce_now = 500, ce_parse_request = (\<lambda>b. Inr ex_ca_request), ce_check_signature = (\<lambda>r. None),
     ce_rand_int = (\<lambda>n. Inr 7), ce_create_certificate = (\<lambda>t c k s. Inr ''der''), ce_show_time = (\<lambda>t. show_int t)\<rparr>"

definition ex_ca :: certificate_authority where
  "ex_ca = \<lparr>ca_RawCert = [], ca_RawKey = [], ca_Certificate = ''ca'', ca_NotAfter = 1000, ca_PrivateKey = ''sk'',
     ca_Backdate = 100, ca_Now = None\<rparr>"

definition ex_policy :: permissive_signing_policy where
  "ex_policy = \<lparr>pp_TTL = 10000, pp_Usages = [''signing'', ''server auth'']\<rparr>"

lemma ex_sign: "Sign ex_env ex_ca ''req'' (PermissiveSigningPolicy_apply concat id ex_policy) = Inr ''der''"
proof -
  have "keyUsagesFromStrings concat id [''signing'', ''server auth''] = Inr (x509_KeyUsageDigitalSignature, [1])"
    by (simp add: keyUsagesFromStrings_def add_usage_def keyUsageDict_def extKeyUsageDict_def sort_ext)
  then show ?thesis
    by (simp add: Sign_def ex_env_def ex_ca_def ex_policy_def PermissiveSigningPolicy_apply_def Let_def time_add_def)
qed

theorem signed_within_authority_witness:
  "\<exists>cr (t :: x509_template). ce_parse_request ex_env ''req'' = Inr cr \<and> tm_Subject t = cq_Subject cr \<and> \<not> tm_IsCA t \<and> tm_NotAfter t \<le> 1000"
proof -
  have "0 \<le> s \<and> s < serialNumberLimit" if "ce_rand_int ex_env serialNumberLimit = Inr s" for s
    using that by (simp add: ex_env_def serialNumberLimit_def push_bit_eq_mult)
  from signed_within_authority [OF ex_sign this] show ?thesis by (auto simp: ex_ca_def)
qed

text \<open>From the moment the authority's certificate has expired it signs nothing, under any policy; the
  backdating of a certificate does not reach past that.\<close>

lemma expired_authority_refuses:
  assumes "ca_NotAfter ca \<le> (case ca_Now ca of None \<Rightarrow> ce_now env | Some t \<Rightarrow> t)"
  shows "\<exists>e. Sign env ca crDER policy = Inl e"
  using assms unfolding Sign_def Let_def
  by (auto split: sum.splits option.splits)

end
