(* ===== verification/GoFlag.thy ===== *)
theory GoFlag
  imports GoBase
begin

text \<open>
  Package \<open>flag\<close> of the Go library: how a command line is read. The variables the flags are
  bound to are a state of any type.
\<close>

text \<open>
  A defined flag: a boolean or a string variable, or one somebody else defines, of which is known
  whether it is boolean and which values it takes.
\<close>

datatype 'a flag =
    BoolVar "bool \<Rightarrow> 'a \<Rightarrow> 'a"
  | StringVar "string \<Rightarrow> 'a \<Rightarrow> 'a"
  | OtherVar bool "string \<Rightarrow> bool"

datatype flag_error = BadSyntax string | NotDefined string | NeedsArgument string | InvalidValue string string

text \<open>The outcome of \<open>Parse\<close>: the variables and the arguments left, the call for help, or an error.\<close>

datatype 'a parsed = Parsed 'a "string list" | ErrHelp | ParseError flag_error

text \<open>\<open>strconv.ParseBool\<close>.\<close>

definition parse_bool :: "string \<Rightarrow> bool option" where
  "parse_bool s =
     (if s \<in> set [''1'', ''t'', ''T'', ''TRUE'', ''true'', ''True''] then Some True
      else if s \<in> set [''0'', ''f'', ''F'', ''FALSE'', ''false'', ''False''] then Some False
      else None)"

fun is_bool_flag :: "'a flag \<Rightarrow> bool" where
  "is_bool_flag (BoolVar f) = True"
| "is_bool_flag (StringVar f) = False"
| "is_bool_flag (OtherVar b ok) = b"

fun set_flag :: "'a flag \<Rightarrow> string \<Rightarrow> 'a \<Rightarrow> 'a option" where
  "set_flag (BoolVar f) v a = map_option (\<lambda>b. f b a) (parse_bool v)"
| "set_flag (StringVar f) v a = Some (f v a)"
| "set_flag (OtherVar b ok) v a = (if ok v then Some a else None)"

text \<open>The name of a flag and the value after the first equals sign, which cannot come first.\<close>

definition split_flag :: "string \<Rightarrow> string \<times> string option" where
  "split_flag name =
     (let key = take 1 name @ takeWhile (\<lambda>c. c \<noteq> CHR ''='') (drop 1 name);
          r = drop (length key) name
      in (key, if r = [] then None else Some (drop 1 r)))"

fun flag_parse :: "(string \<Rightarrow> 'a flag option) \<Rightarrow> string list \<Rightarrow> 'a \<Rightarrow> 'a parsed" where
  "flag_parse formal [] a = Parsed a []"
| "flag_parse formal (s # args) a =
     (if length s < 2 \<or> s ! 0 \<noteq> CHR ''-'' then Parsed a (s # args)
      else if s = ''--'' then Parsed a args
      else
        let name = drop (if s ! 1 = CHR ''-'' then 2 else 1) s in
        if name = [] \<or> name ! 0 = CHR ''-'' \<or> name ! 0 = CHR ''='' then ParseError (BadSyntax s)
        else
          case split_flag name of (key, val) \<Rightarrow>
          (case formal key of
             None \<Rightarrow> if key = ''help'' \<or> key = ''h'' then ErrHelp else ParseError (NotDefined key)
           | Some f \<Rightarrow>
               if is_bool_flag f then
                 (let v = (case val of None \<Rightarrow> ''true'' | Some v \<Rightarrow> v)
                  in case set_flag f v a of
                       None \<Rightarrow> ParseError (InvalidValue key v)
                     | Some a' \<Rightarrow> flag_parse formal args a')
               else
                 (case val of
                    Some v \<Rightarrow>
                      (case set_flag f v a of
                         None \<Rightarrow> ParseError (InvalidValue key v)
                       | Some a' \<Rightarrow> flag_parse formal args a')
                  | None \<Rightarrow>
                      (case args of
                         [] \<Rightarrow> ParseError (NeedsArgument key)
                       | v # args' \<Rightarrow>
                           (case set_flag f v a of
                              None \<Rightarrow> ParseError (InvalidValue key v)
                            | Some a' \<Rightarrow> flag_parse formal args' a')))))"

declare flag_parse.simps(2) [simp del]

section \<open>Lemmas\<close>

text \<open>A flag written \<open>--name=value\<close>.\<close>

definition show_flag :: "string \<Rightarrow> string \<Rightarrow> string" where
  "show_flag key v = ''--'' @ key @ ''='' @ v"

definition plain_key :: "string \<Rightarrow> bool" where
  "plain_key key \<longleftrightarrow> key \<noteq> [] \<and> key ! 0 \<noteq> CHR ''-'' \<and> CHR ''='' \<notin> set key"

lemma split_show:
  assumes "plain_key key"
  shows "split_flag (key @ CHR ''='' # v) = (key, Some v)"
proof -
  obtain k ks where key: "key = k # ks" using assms by (cases key) (auto simp: plain_key_def)
  have "takeWhile (\<lambda>c. c \<noteq> CHR ''='') (ks @ CHR ''='' # v) = ks"
    using assms by (subst takeWhile_append2) (auto simp: plain_key_def key)
  then show ?thesis by (simp add: split_flag_def key)
qed

lemma flag_parse_show:
  assumes "plain_key key" and "formal key = Some f" and "set_flag f v a = Some a'"
  shows "flag_parse formal (show_flag key v # args) a = flag_parse formal args a'"
proof -
  have "key \<noteq> []" "key ! 0 \<noteq> CHR ''-''" "key ! 0 \<noteq> CHR ''=''"
    using assms(1) by (auto simp: plain_key_def) (metis length_greater_0_conv nth_mem)
  then have "(key @ CHR ''='' # v) ! 0 \<noteq> CHR ''-''" "(key @ CHR ''='' # v) ! 0 \<noteq> CHR ''=''"
    by (simp_all add: nth_append)
  with \<open>key \<noteq> []\<close> show ?thesis
    unfolding show_flag_def flag_parse.simps(2)
    by (simp add: split_show [OF assms(1)] assms(2,3) Let_def)
qed

definition show_bool :: "bool \<Rightarrow> string" where
  "show_bool b = (if b then ''true'' else ''false'')"

lemma parse_show_bool: "parse_bool (show_bool b) = Some b"
  by (simp add: parse_bool_def show_bool_def)

end
