(* ===== verification/Manager.thy ===== *)
theory Manager
  imports CrController GoFlag
begin

text \<open>
  \<open>main.go\<close>: the start of the process, from the command line to the three reconcilers the
  manager runs. The file system, the manager, the registration of a controller with it and the
  flags of other packages are arguments; logging and the exit of the process are results.
\<close>

definition inClusterNamespacePath :: string where
  "inClusterNamespacePath = ''/var/run/secrets/kubernetes.io/serviceaccount/namespace''"

definition errNotInCluster :: go_error where
  "errNotInCluster = Sentinel ''not running in-cluster''"

declare errNotInCluster_def [sentinels]

record os_env =
  os_Stat :: "string \<Rightarrow> go_error option"
  os_IsNotExist :: "go_error \<Rightarrow> bool"
  os_ReadFile :: "string \<Rightarrow> go_error + bytes"

definition getInClusterNamespace :: "os_env \<Rightarrow> go_error + string" where
  "getInClusterNamespace os =
     (case os_Stat os inClusterNamespacePath of
        Some err \<Rightarrow>
          if os_IsNotExist os err then Inl errNotInCluster
          else Inl (ErrWrap err (''error checking namespace file: '' @ err_text err))
      | None \<Rightarrow>
          (case os_ReadFile os inClusterNamespacePath of
             Inl err \<Rightarrow> Inl (ErrWrap err (''error reading namespace file: '' @ err_text err))
           | Inr namespace \<Rightarrow> Inr namespace))"

text \<open>The variables of the command line, and their values when no flag is given.\<close>

record flags =
  fl_metricsAddr :: string
  fl_probeAddr :: string
  fl_enableLeaderElection :: bool
  fl_clusterResourceNamespace :: string
  fl_essendixcAuthRealm :: string
  fl_printVersion :: bool
  fl_disableApprovedCheck :: bool

definition default_flags :: flags where
  "default_flags = \<lparr>fl_metricsAddr = '':8080'', fl_probeAddr = '':8081'', fl_enableLeaderElection = False,
     fl_clusterResourceNamespace = [], fl_essendixcAuthRealm = ''essendi_xc'', fl_printVersion = False,
     fl_disableApprovedCheck = False\<rparr>"

text \<open>
  The flags of \<open>main\<close>. Those bound by other packages (\<open>opts.BindFlags\<close>, and \<open>kubeconfig\<close> by the
  manager's library) are the argument \<open>other\<close>: they have other names and leave these variables alone.
\<close>

definition main_flags :: "(string \<Rightarrow> flags flag option) \<Rightarrow> string \<Rightarrow> flags flag option" where
  "main_flags other name =
     (if name = ''metrics-bind-address'' then Some (StringVar (\<lambda>v fl. fl\<lparr>fl_metricsAddr := v\<rparr>))
      else if name = ''health-probe-bind-address'' then Some (StringVar (\<lambda>v fl. fl\<lparr>fl_probeAddr := v\<rparr>))
      else if name = ''leader-elect'' then Some (BoolVar (\<lambda>b fl. fl\<lparr>fl_enableLeaderElection := b\<rparr>))
      else if name = ''cluster-resource-namespace'' then
        Some (StringVar (\<lambda>v fl. fl\<lparr>fl_clusterResourceNamespace := v\<rparr>))
      else if name = ''auth-realm'' then Some (StringVar (\<lambda>v fl. fl\<lparr>fl_essendixcAuthRealm := v\<rparr>))
      else if name = ''version'' then Some (BoolVar (\<lambda>b fl. fl\<lparr>fl_printVersion := b\<rparr>))
      else if name = ''disable-approved-check'' then
        Some (BoolVar (\<lambda>b fl. fl\<lparr>fl_disableApprovedCheck := b\<rparr>))
      else other name)"

definition command_line :: "(string \<Rightarrow> flags flag option) \<Rightarrow> string list \<Rightarrow> flags parsed" where
  "command_line other args = flag_parse (main_flags other) args default_flags"

text \<open>\<open>internal/version/version.go\<close>, before the linker sets it.\<close>

definition Version :: string where "Version = ''0.1.0''"

record manager_options =
  mo_HealthProbeBindAddress :: string
  mo_LeaderElection :: bool
  mo_LeaderElectionID :: string

text \<open>A controller as the builder completes it: the type it watches and the source of its events.\<close>

record controller =
  ct_For :: runtime_object
  ct_Recorder :: string

text \<open>
  The manager: the error of loading the configuration of its client, that of its creation, that of
  completing a controller on it, and the error \<open>Start\<close> returns with, if any.
\<close>

record manager_env =
  me_GetConfig :: "go_error option"
  me_NewManager :: "manager_options \<Rightarrow> go_error option"
  me_Complete :: "controller \<Rightarrow> go_error option"
  me_Start :: "go_error option"

text \<open>
  \<open>SetupWithManager\<close> of the two kinds of reconciler. The object an issuer controller watches is
  made by \<open>newIssuer\<close>.
\<close>

definition Issuer_SetupWithManager ::
    "'h issuer_reconciler \<Rightarrow> kube \<Rightarrow> manager_env \<Rightarrow> controller go_result" where
  "Issuer_SetupWithManager r k mgr =
     (case newIssuer r k of
        Panic \<Rightarrow> Panic
      | Fail err \<Rightarrow> Fail err
      | Ok issuerType \<Rightarrow>
          (let c = \<lparr>ct_For = issuerType, ct_Recorder = EventSource\<rparr>
           in case me_Complete mgr c of Some err \<Rightarrow> Fail err | None \<Rightarrow> Ok c))"

definition Cr_SetupWithManager :: "'w cr_reconciler \<Rightarrow> manager_env \<Rightarrow> controller go_result" where
  "Cr_SetupWithManager r mgr =
     (let c = \<lparr>ct_For = RtClientObject ''CertificateRequest'', ct_Recorder = EventSource\<rparr>
      in case me_Complete mgr c of Some err \<Rightarrow> Fail err | None \<Rightarrow> Ok c)"

text \<open>
  How \<open>main\<close> ends: it exits with status 0 or 2 for the command line (after printing the usage),
  prints the version, exits with status 1 after logging an error, panics, or
  runs the manager with the three reconcilers and their controllers until it stops (with the
  error of the run, which makes the exit status 1).
\<close>

datatype 'w main_result =
    UsageExit nat
  | Printed string
  | Exited string
  | Panicked
  | Ran manager_options "unit issuer_reconciler" "unit issuer_reconciler" "'w cr_reconciler" "controller list" "go_error option"

definition issuer_reconciler_for :: "string \<Rightarrow> string \<Rightarrow> unit issuer_reconciler" where
  "issuer_reconciler_for kind namespace =
     \<lparr>ir_Kind = kind, ir_ClusterResourceNamespace = namespace,
      ir_HealthCheckerBuilder = EssendiHealthCheckerFromIssuerAndSecretData, ir_Check = Check\<rparr>"

definition cr_reconciler_for :: "golib \<Rightarrow> 'w net \<Rightarrow> flags \<Rightarrow> string \<Rightarrow> 'w cr_reconciler" where
  "cr_reconciler_for lib net fl namespace =
     \<lparr>rc_SignerBuilder = essendi_builder lib net, rc_ClusterResourceNamespace = namespace,
      rc_AuthRealm = fl_essendixcAuthRealm fl,
      rc_CheckApprovedCondition = (\<not> fl_disableApprovedCheck fl)\<rparr>"

definition run_manager ::
    "golib \<Rightarrow> 'w net \<Rightarrow> kube \<Rightarrow> manager_env \<Rightarrow> flags \<Rightarrow> string \<Rightarrow> 'w main_result" where
  "run_manager lib net k mgr fl namespace =
     (let opts = \<lparr>mo_HealthProbeBindAddress = fl_probeAddr fl, mo_LeaderElection = fl_enableLeaderElection fl,
                  mo_LeaderElectionID = ''essendixcissuer.angeloxx.ch''\<rparr>;
          ir = issuer_reconciler_for ''Issuer'' namespace;
          cir = issuer_reconciler_for ''ClusterIssuer'' namespace;
          r = cr_reconciler_for lib net fl namespace
      in if me_GetConfig mgr \<noteq> None then Exited ''unable to get kubeconfig''
         else case me_NewManager mgr opts of
           Some err \<Rightarrow> Exited ''unable to start manager''
         | None \<Rightarrow>
             (case Issuer_SetupWithManager ir k mgr of
                Panic \<Rightarrow> Panicked
              | Fail err \<Rightarrow> Exited ''unable to create controller''
              | Ok c1 \<Rightarrow>
                  (case Issuer_SetupWithManager cir k mgr of
                     Panic \<Rightarrow> Panicked
                   | Fail err \<Rightarrow> Exited ''unable to create controller''
                   | Ok c2 \<Rightarrow>
                       (case Cr_SetupWithManager r mgr of
                          Panic \<Rightarrow> Panicked
                        | Fail err \<Rightarrow> Exited ''unable to create controller''
                        | Ok c3 \<Rightarrow> Ran opts ir cir r [c1, c2, c3] (me_Start mgr)))))"

definition main ::
    "golib \<Rightarrow> 'w net \<Rightarrow> kube \<Rightarrow> os_env \<Rightarrow> manager_env \<Rightarrow> flags \<Rightarrow> 'w main_result" where
  "main lib net k os mgr fl =
     (if fl_printVersion fl then Printed Version
      else if fl_clusterResourceNamespace fl = [] then
        (case getInClusterNamespace os of
           Inl err \<Rightarrow>
             Exited (if err_is err errNotInCluster then ''please supply --cluster-resource-namespace''
                     else ''unexpected error while getting in-cluster Namespace'')
         | Inr namespace \<Rightarrow> run_manager lib net k mgr fl namespace)
      else run_manager lib net k mgr fl (fl_clusterResourceNamespace fl))"

text \<open>
  The process from its loading on. The package initialisation adds the Kubernetes types, those of
  cert-manager and \<open>SchemeBuilder\<close> to the scheme; \<open>utilruntime.Must\<close> panics on the first error.
\<close>

record scheme_env =
  se_clientgo :: "go_error option"
  se_cmapi :: "go_error option"
  se_AddToScheme :: "(string \<times> string) \<times> (string \<times> runtime_object) list \<Rightarrow> go_error option"

definition Must :: "go_error option \<Rightarrow> unit go_result" where
  "Must err = (case err of None \<Rightarrow> Ok () | Some e \<Rightarrow> Panic)"

definition main_init :: "scheme_env \<Rightarrow> unit go_result" where
  "main_init se =
     (case Must (se_clientgo se) of
        Ok _ \<Rightarrow>
          (case Must (se_cmapi se) of
             Ok _ \<Rightarrow> Must (se_AddToScheme se SchemeBuilder)
           | e \<Rightarrow> e)
      | e \<Rightarrow> e)"

definition run_process ::
    "scheme_env \<Rightarrow> golib \<Rightarrow> 'w net \<Rightarrow> kube \<Rightarrow> os_env \<Rightarrow> manager_env \<Rightarrow> flags \<Rightarrow> 'w main_result" where
  "run_process se lib net k os mgr fl =
     (case main_init se of Ok _ \<Rightarrow> main lib net k os mgr fl | _ \<Rightarrow> Panicked)"

text \<open>
  The same from the arguments of the process: \<open>flag.Parse\<close> exits with status 0 on a call for help and
  with status 2 on an error, before \<open>main\<close> looks at any variable.
\<close>

definition run_command ::
    "scheme_env \<Rightarrow> (string \<Rightarrow> flags flag option) \<Rightarrow> golib \<Rightarrow> 'w net \<Rightarrow> kube \<Rightarrow> os_env \<Rightarrow> manager_env \<Rightarrow>
     string list \<Rightarrow> 'w main_result" where
  "run_command se other lib net k os mgr args =
     (case main_init se of
        Ok _ \<Rightarrow>
          (case command_line other args of
             Parsed fl rest \<Rightarrow> main lib net k os mgr fl
           | ErrHelp \<Rightarrow> UsageExit 0
           | ParseError e \<Rightarrow> UsageExit 2)
      | _ \<Rightarrow> Panicked)"

section \<open>Lemmas\<close>

lemma Issuer_SetupWithManager_Ok:
  "Issuer_SetupWithManager r k mgr = Ok c \<Longrightarrow>
     newIssuer r k = Ok (ct_For c) \<and> ct_Recorder c = EventSource \<and> me_Complete mgr c = None"
  by (auto simp: Issuer_SetupWithManager_def Let_def split: option.splits go_result.splits)

lemma Cr_SetupWithManager_Ok:
  "Cr_SetupWithManager r mgr = Ok c \<Longrightarrow>
     c = \<lparr>ct_For = RtClientObject ''CertificateRequest'', ct_Recorder = EventSource\<rparr> \<and> me_Complete mgr c = None"
  by (auto simp: Cr_SetupWithManager_def Let_def split: option.splits)

lemma run_manager_Ran:
  "run_manager lib net k mgr fl ns = Ran opts ir cir r cs err \<Longrightarrow>
     ir = issuer_reconciler_for ''Issuer'' ns \<and> cir = issuer_reconciler_for ''ClusterIssuer'' ns \<and>
     r = cr_reconciler_for lib net fl ns \<and>
     (\<exists>c1 c2 c3. cs = [c1, c2, c3] \<and> Issuer_SetupWithManager ir k mgr = Ok c1 \<and>
        Issuer_SetupWithManager cir k mgr = Ok c2 \<and> Cr_SetupWithManager r mgr = Ok c3)"
  by (auto simp: run_manager_def Let_def split: option.splits go_result.splits if_splits)

lemma newIssuer_registered:
  "scheme_registered k \<Longrightarrow> newIssuer (issuer_reconciler_for ''Issuer'' ns) k = Ok RtIssuer"
  "scheme_registered k \<Longrightarrow> newIssuer (issuer_reconciler_for ''ClusterIssuer'' ns) k = Ok RtClusterIssuer"
  by (simp_all add: newIssuer_def issuer_reconciler_for_def scheme_registered_iff)

text \<open>With the types registered, the controllers of a running process are these three.\<close>

lemma run_manager_controllers:
  assumes "run_manager lib net k mgr fl ns = Ran opts ir cir r cs err" and "scheme_registered k"
  shows "map ct_For cs = [RtIssuer, RtClusterIssuer, RtClientObject ''CertificateRequest''] \<and>
    (\<forall>c \<in> set cs. ct_Recorder c = EventSource \<and> me_Complete mgr c = None)"
  using run_manager_Ran [OF assms(1)] newIssuer_registered [OF assms(2)]
  by (auto dest!: Issuer_SetupWithManager_Ok Cr_SetupWithManager_Ok)

text \<open>With the types registered and a manager without errors, the process gets to run.\<close>

lemma run_manager_starts:
  assumes "scheme_registered k" and "me_GetConfig mgr = None" and "\<And>opts. me_NewManager mgr opts = None" and "\<And>c. me_Complete mgr c = None"
  shows "\<exists>opts cs. run_manager lib net k mgr fl ns =
    Ran opts (issuer_reconciler_for ''Issuer'' ns) (issuer_reconciler_for ''ClusterIssuer'' ns)
      (cr_reconciler_for lib net fl ns) cs (me_Start mgr)"
  using assms
  by (simp add: run_manager_def Let_def Issuer_SetupWithManager_def Cr_SetupWithManager_def newIssuer_registered)

lemma run_process_Ran:
  "run_process se lib net k os mgr fl = Ran opts ir cir r cs err \<Longrightarrow>
     se_clientgo se = None \<and> se_cmapi se = None \<and> se_AddToScheme se SchemeBuilder = None \<and>
     main lib net k os mgr fl = Ran opts ir cir r cs err"
  by (auto simp: run_process_def main_init_def Must_def split: go_result.splits option.splits)

lemma run_process_wires:
  assumes "run_process se lib net k os mgr fl = Ran opts ir cir r cs err"
  obtains ns where "ir = issuer_reconciler_for ''Issuer'' ns" and "cir = issuer_reconciler_for ''ClusterIssuer'' ns"
    and "r = cr_reconciler_for lib net fl ns"
proof -
  from run_process_Ran [OF assms] obtain ns where "run_manager lib net k mgr fl ns = Ran opts ir cir r cs err"
    by (auto simp: main_def split: if_splits sum.splits)
  from run_manager_Ran [OF this] that show thesis by blast
qed

lemma run_process_builder:
  "run_process se lib net k os mgr fl = Ran opts ir cir r cs err \<Longrightarrow> rc_SignerBuilder r = essendi_builder lib net"
  by (elim run_process_wires) (simp add: cr_reconciler_for_def)

text \<open>The process from its arguments is the process from the values they give.\<close>

lemma run_command_Ran:
  assumes "run_command se other lib net k os mgr args = Ran opts ir cir r cs err"
  obtains fl rest where "command_line other args = Parsed fl rest"
    and "run_process se lib net k os mgr fl = Ran opts ir cir r cs err"
  using assms by (auto simp: run_command_def run_process_def split: go_result.splits parsed.splits)

lemma run_command_parsed:
  "command_line other args = Parsed fl rest \<Longrightarrow>
     run_command se other lib net k os mgr args = run_process se lib net k os mgr fl"
  by (simp add: run_command_def run_process_def split: go_result.split)

text \<open>Written out, every value of the variables is a command line that gives it back.\<close>

definition render_flags :: "flags \<Rightarrow> string list" where
  "render_flags fl =
     [show_flag ''metrics-bind-address'' (fl_metricsAddr fl),
      show_flag ''health-probe-bind-address'' (fl_probeAddr fl),
      show_flag ''leader-elect'' (show_bool (fl_enableLeaderElection fl)),
      show_flag ''cluster-resource-namespace'' (fl_clusterResourceNamespace fl),
      show_flag ''auth-realm'' (fl_essendixcAuthRealm fl),
      show_flag ''version'' (show_bool (fl_printVersion fl)),
      show_flag ''disable-approved-check'' (show_bool (fl_disableApprovedCheck fl))]"

lemma parse_render_flags: "flag_parse (main_flags other) (render_flags fl @ args) a = flag_parse (main_flags other) args fl"
  unfolding render_flags_def append_Cons append_Nil
  by (subst flag_parse_show, simp add: plain_key_def, simp add: main_flags_def, simp add: parse_show_bool)+
    (cases a, cases fl, simp)

lemma command_line_render: "command_line other (render_flags fl) = Parsed fl []"
  using parse_render_flags [of other fl "[]" default_flags] by (simp add: command_line_def)

end
