(* ===== verification/StartTheorems.thy ===== *)
theory StartTheorems
  imports Manager Examples
begin

text \<open>
  What a process started with given arguments runs with, and one command line read.
\<close>

text \<open>C24: when the process gets to run, its arguments were read without an error and did not ask for
  the version, and the API types were added to its scheme without an error; its two issuer
  controllers watch and handle Issuer and ClusterIssuer with the built-in health check, the third
  watches certificate requests; all record their events under the program's name and use the same
  namespace for cluster resources (that of the arguments, or the content of the namespace file when
  they name none); the request controller builds the program's own signer with the realm of the
  arguments, and it waits for approval unless they switch that off.\<close>

theorem startup_wiring:
  assumes "run_command se other lib net k os mgr args = Ran opts ir cir r cs err" and "scheme_registered k"
  shows "\<exists>fl rest. command_line other args = Parsed fl rest \<and> \<not> fl_printVersion fl \<and>
    se_AddToScheme se SchemeBuilder = None \<and>
    map ct_For cs = [RtIssuer, RtClusterIssuer, RtClientObject ''CertificateRequest''] \<and>
    (\<forall>c \<in> set cs. ct_Recorder c = EventSource) \<and>
    (\<exists>ns. (if fl_clusterResourceNamespace fl = [] then getInClusterNamespace os = Inr ns
             else ns = fl_clusterResourceNamespace fl) \<and>
    ir_Kind ir = ''Issuer'' \<and> ir_Kind cir = ''ClusterIssuer'' \<and>
    ir_HealthCheckerBuilder ir = EssendiHealthCheckerFromIssuerAndSecretData \<and>
    ir_HealthCheckerBuilder cir = EssendiHealthCheckerFromIssuerAndSecretData \<and>
    ir_ClusterResourceNamespace ir = ns \<and> ir_ClusterResourceNamespace cir = ns \<and>
    rc_ClusterResourceNamespace r = ns \<and> rc_SignerBuilder r = essendi_builder lib net \<and>
    rc_AuthRealm r = fl_essendixcAuthRealm fl \<and> (rc_CheckApprovedCondition r \<longleftrightarrow> \<not> fl_disableApprovedCheck fl))"
proof -
  from assms(1) obtain fl rest where cmd: "command_line other args = Parsed fl rest"
    and run0: "run_process se lib net k os mgr fl = Ran opts ir cir r cs err"
    by (rule run_command_Ran)
  from run_process_Ran [OF run0] obtain ns where
    ns: "if fl_clusterResourceNamespace fl = [] then getInClusterNamespace os = Inr ns
         else ns = fl_clusterResourceNamespace fl"
    and run: "run_manager lib net k mgr fl ns = Ran opts ir cir r cs err"
    and "\<not> fl_printVersion fl"
    by (auto simp: main_def split: if_splits sum.splits)
  with cmd run_process_Ran [OF run0] run_manager_Ran [OF run] run_manager_controllers [OF run assms(2)] ns
  show ?thesis
    by (intro exI [of _ fl] exI [of _ rest]) (auto simp: issuer_reconciler_for_def cr_reconciler_for_def)
qed

definition ex_os :: os_env where
  "ex_os = \<lparr>os_Stat = (\<lambda>p. None), os_IsNotExist = (\<lambda>e. False), os_ReadFile = (\<lambda>p. Inr ''issuer-system'')\<rparr>"

definition ex_mgr :: manager_env where
  "ex_mgr = \<lparr>me_GetConfig = None, me_NewManager = (\<lambda>o1. None), me_Complete = (\<lambda>n. None), me_Start = None\<rparr>"

definition ex_scheme_env :: scheme_env where
  "ex_scheme_env = \<lparr>se_clientgo = None, se_cmapi = None, se_AddToScheme = (\<lambda>b. None)\<rparr>"

definition ex_args :: "string list" where
  "ex_args = [''--leader-elect'', ''-auth-realm'', ''corp'', ''--disable-approved-check=0'', ''--'', ''--version'']"

lemma ex_command_line: "command_line (\<lambda>n. None) ex_args =
    Parsed (default_flags\<lparr>fl_enableLeaderElection := True, fl_essendixcAuthRealm := ''corp''\<rparr>) [''--version'']"
  by (simp add: command_line_def ex_args_def flag_parse.simps(2) split_flag_def main_flags_def parse_bool_def
      default_flags_def)

theorem startup_wiring_witness:
  "\<exists>opts ir cir r cs err.
     run_command ex_scheme_env (\<lambda>n. None) ex_lib ex_net (ex_kube [] (ex_cr [])) ex_os ex_mgr ex_args = Ran opts ir cir r cs err \<and>
     length cs = 3 \<and> rc_ClusterResourceNamespace r = ''issuer-system'' \<and> rc_CheckApprovedCondition r \<and>
     rc_AuthRealm r = ''corp''"
proof -
  have ns: "getInClusterNamespace ex_os = Inr ''issuer-system''"
    by (simp add: getInClusterNamespace_def ex_os_def)
  have main: "run_command ex_scheme_env (\<lambda>n. None) ex_lib ex_net (ex_kube [] (ex_cr [])) ex_os ex_mgr ex_args =
      run_manager ex_lib ex_net (ex_kube [] (ex_cr [])) ex_mgr
        (default_flags\<lparr>fl_enableLeaderElection := True, fl_essendixcAuthRealm := ''corp''\<rparr>) ''issuer-system''"
    by (simp add: run_command_def ex_command_line main_init_def Must_def ex_scheme_env_def main_def ns)
      (simp add: default_flags_def)
  have "me_GetConfig ex_mgr = None" "me_NewManager ex_mgr opts = None" "me_Complete ex_mgr c = None" for opts c
    by (simp_all add: ex_mgr_def)
  from run_manager_starts [OF ex_scheme_registered this] obtain opts ir cir r cs err where run:
      "run_command ex_scheme_env (\<lambda>n. None) ex_lib ex_net (ex_kube [] (ex_cr [])) ex_os ex_mgr ex_args = Ran opts ir cir r cs err"
    unfolding main by metis
  from startup_wiring [OF run ex_scheme_registered] run ns show ?thesis
    by (auto simp: ex_command_line default_flags_def dest!: arg_cong [where f = length])
qed

end
