(* ===== verification/GoHeap.thy ===== *)
theory GoHeap
  imports ApiTypes "HOL-Library.Monad_Syntax"
begin

text \<open>
  The memory of the process, as far as the API types use it: an explicit store, so that which
  pointers and slices share memory can be stated.

  The store is the list of its arrays in the order they were allocated; an address is a position
  in it. A variable made by \<open>new\<close> is the element 0 of an array of one element, so a pointer
  is an address and an index. A slice is an address and a length; it starts at the front of its
  array (the program never reslices), whose length is the slice's capacity. A nil pointer or a
  nil slice is \<open>None\<close>. The operations return \<open>None\<close> where Go panics: a nil pointer followed, an
  index out of range. (An address of the wrong type also gives \<open>None\<close>. Go's type system rules it
  out, and so does the invariant \<open>store_ok\<close> of theory \<open>HeapTyping\<close>.)

  The structs here are the ones of \<open>api/v1alpha1\<close> as they lie in memory, beside the records of
  theory \<open>ApiTypes\<close>, which are the values they stand for. The embedded \<open>metav1.ObjectMeta\<close> and
  \<open>metav1.ListMeta\<close> are third-party: besides name and namespace they are a value of any type
  \<open>'x\<close>, which may hold addresses of \<open>Foreign\<close> arrays.
\<close>

section \<open>Memory\<close>

type_synonym addr = nat
type_synonym loc = "addr \<times> nat"

datatype slice = Slice (sl_array: addr) (sl_len: nat)

record type_meta =
  tm_Kind :: string
  tm_APIVersion :: string

record 'x object_meta =
  om_Namespace :: string
  om_Name :: string
  om_Rest :: 'x

record heap_condition =
  hc_Type :: string
  hc_Status :: string
  hc_LastTransitionTime :: "loc option"
  hc_Reason :: string
  hc_Message :: string

record heap_spec =
  hs_URL :: string
  hs_CustomFields :: "slice option"
  hs_AuthSecretName :: string
  hs_ProfileName :: string
  hs_SubscriberName :: string
  hs_IgnoreHostInApiResponse :: bool

record heap_status =
  hst_Conditions :: "slice option"

text \<open>The struct \<open>Issuer\<close> and the struct \<open>ClusterIssuer\<close> have the same fields; so have their lists.\<close>

record 'x heap_object =
  ho_TypeMeta :: type_meta
  ho_ObjectMeta :: "'x object_meta"
  ho_Spec :: heap_spec
  ho_Status :: heap_status

record 'x heap_list =
  hl_TypeMeta :: type_meta
  hl_ListMeta :: 'x
  hl_Items :: "slice option"

datatype object_kind = KIssuer | KClusterIssuer

datatype 'x cell =
    Times "go_time list"
  | Fields "issuer_custom_field list"
  | Conds "heap_condition list"
  | Specs "heap_spec list"
  | Statuses "heap_status list"
  | Objects object_kind "'x heap_object list"
  | Lists object_kind "'x heap_list list"
  | Foreign 'x

type_synonym 'x store = "'x cell list"

text \<open>\<open>new\<close> and \<open>make\<close>: a fresh array at the end of the store.\<close>

definition alloc :: "'x cell \<Rightarrow> 'x store \<Rightarrow> addr \<times> 'x store" where
  "alloc c s = (length s, s @ [c])"

fun times_of :: "'x cell \<Rightarrow> go_time list option" where
  "times_of (Times vs) = Some vs" | "times_of c = None"
fun fields_of :: "'x cell \<Rightarrow> issuer_custom_field list option" where
  "fields_of (Fields vs) = Some vs" | "fields_of c = None"
fun conds_of :: "'x cell \<Rightarrow> heap_condition list option" where
  "conds_of (Conds vs) = Some vs" | "conds_of c = None"
fun specs_of :: "'x cell \<Rightarrow> heap_spec list option" where
  "specs_of (Specs vs) = Some vs" | "specs_of c = None"
fun statuses_of :: "'x cell \<Rightarrow> heap_status list option" where
  "statuses_of (Statuses vs) = Some vs" | "statuses_of c = None"
fun objects_of :: "object_kind \<Rightarrow> 'x cell \<Rightarrow> 'x heap_object list option" where
  "objects_of k (Objects k' vs) = (if k = k' then Some vs else None)" | "objects_of k c = None"
fun lists_of :: "object_kind \<Rightarrow> 'x cell \<Rightarrow> 'x heap_list list option" where
  "lists_of k (Lists k' vs) = (if k = k' then Some vs else None)" | "lists_of k c = None"

definition cell_at :: "'x store \<Rightarrow> addr \<Rightarrow> 'x cell option" where
  "cell_at s a = (if a < length s then Some (s ! a) else None)"

text \<open>Reading and writing one element of an array whose type is given by \<open>dest\<close> and \<open>mk\<close>.\<close>

definition load_elem :: "('x cell \<Rightarrow> 'a list option) \<Rightarrow> 'x store \<Rightarrow> loc \<Rightarrow> 'a option" where
  "load_elem dest s l = do {
     c \<leftarrow> cell_at s (fst l);
     vs \<leftarrow> dest c;
     if snd l < length vs then Some (vs ! snd l) else None }"

definition put_elem ::
    "('a list \<Rightarrow> 'x cell) \<Rightarrow> ('x cell \<Rightarrow> 'a list option) \<Rightarrow> 'x store \<Rightarrow> loc \<Rightarrow> 'a \<Rightarrow> 'x store option" where
  "put_elem mk dest s l v = do {
     c \<leftarrow> cell_at s (fst l);
     vs \<leftarrow> dest c;
     if snd l < length vs then Some (s[fst l := mk (vs[snd l := v])]) else None }"

text \<open>\<open>&xs[i]\<close> for a slice, and the elements a slice shows.\<close>

definition index :: "slice \<Rightarrow> nat \<Rightarrow> loc option" where
  "index sl i = (if i < sl_len sl then Some (sl_array sl, i) else None)"

definition slice_elems :: "('x cell \<Rightarrow> 'a list option) \<Rightarrow> 'x store \<Rightarrow> slice \<Rightarrow> 'a list option" where
  "slice_elems dest s sl = do {
     c \<leftarrow> cell_at s (sl_array sl);
     vs \<leftarrow> dest c;
     if sl_len sl \<le> length vs then Some (take (sl_len sl) vs) else None }"

text \<open>A \<open>for\<close> loop over indices: the body may panic.\<close>

fun for_range :: "(nat \<Rightarrow> 's \<Rightarrow> 's option) \<Rightarrow> nat list \<Rightarrow> 's \<Rightarrow> 's option" where
  "for_range body [] s = Some s"
| "for_range body (i # is) s = do { s \<leftarrow> body i s; for_range body is s }"

section \<open>Variables of each type\<close>

definition load_time :: "'x store \<Rightarrow> loc \<Rightarrow> go_time option" where
  "load_time = load_elem times_of"

definition load_field :: "'x store \<Rightarrow> loc \<Rightarrow> issuer_custom_field option" where
  "load_field = load_elem fields_of"
definition put_field :: "'x store \<Rightarrow> loc \<Rightarrow> issuer_custom_field \<Rightarrow> 'x store option" where
  "put_field = put_elem Fields fields_of"

definition load_cond :: "'x store \<Rightarrow> loc \<Rightarrow> heap_condition option" where
  "load_cond = load_elem conds_of"
definition put_cond :: "'x store \<Rightarrow> loc \<Rightarrow> heap_condition \<Rightarrow> 'x store option" where
  "put_cond = put_elem Conds conds_of"

type_synonym object_ptr = "object_kind \<times> loc"

definition load_object :: "'x store \<Rightarrow> object_ptr \<Rightarrow> 'x heap_object option" where
  "load_object s p = load_elem (objects_of (fst p)) s (snd p)"
definition put_object :: "'x store \<Rightarrow> object_ptr \<Rightarrow> 'x heap_object \<Rightarrow> 'x store option" where
  "put_object s p = put_elem (Objects (fst p)) (objects_of (fst p)) s (snd p)"

definition load_list :: "'x store \<Rightarrow> object_ptr \<Rightarrow> 'x heap_list option" where
  "load_list s p = load_elem (lists_of (fst p)) s (snd p)"
definition put_list :: "'x store \<Rightarrow> object_ptr \<Rightarrow> 'x heap_list \<Rightarrow> 'x store option" where
  "put_list s p = put_elem (Lists (fst p)) (lists_of (fst p)) s (snd p)"

text \<open>
  A pointer to a specification or to a status points to a variable of its own or into an
  object (\<open>&t.Spec\<close>, \<open>&t.Status\<close>).
\<close>

datatype inner_ptr = At loc | Of object_ptr

definition load_spec :: "'x store \<Rightarrow> inner_ptr \<Rightarrow> heap_spec option" where
  "load_spec s p = (case p of
     At l \<Rightarrow> load_elem specs_of s l
   | Of q \<Rightarrow> map_option ho_Spec (load_object s q))"

definition put_spec :: "'x store \<Rightarrow> inner_ptr \<Rightarrow> heap_spec \<Rightarrow> 'x store option" where
  "put_spec s p v = (case p of
     At l \<Rightarrow> put_elem Specs specs_of s l v
   | Of q \<Rightarrow> do { ob \<leftarrow> load_object s q; put_object s q (ob\<lparr>ho_Spec := v\<rparr>) })"

definition load_status :: "'x store \<Rightarrow> inner_ptr \<Rightarrow> heap_status option" where
  "load_status s p = (case p of
     At l \<Rightarrow> load_elem statuses_of s l
   | Of q \<Rightarrow> map_option ho_Status (load_object s q))"

definition put_status_at :: "'x store \<Rightarrow> inner_ptr \<Rightarrow> heap_status \<Rightarrow> 'x store option" where
  "put_status_at s p v = (case p of
     At l \<Rightarrow> put_elem Statuses statuses_of s l v
   | Of q \<Rightarrow> do { ob \<leftarrow> load_object s q; put_object s q (ob\<lparr>ho_Status := v\<rparr>) })"

definition inner_base :: "inner_ptr \<Rightarrow> addr" where
  "inner_base p = (case p of At l \<Rightarrow> fst l | Of q \<Rightarrow> fst (snd q))"

definition object_base :: "object_ptr \<Rightarrow> addr" where
  "object_base q = fst (snd q)"

end
