(* ===== verification/DeepCopy.thy ===== *)
theory DeepCopy
  imports GoHeap
begin

text \<open>
  \<open>api/v1alpha1/zz_generated.deepcopy.go\<close>: the copy functions of the API types on the store of
  theory \<open>GoHeap\<close>, statement by statement. \<open>DeepCopyInto\<close> reads its receiver through the pointer
  \<open>i\<close> and writes through the pointer \<open>o\<close>, again at every statement, as the code does, so the
  definitions also say what happens when the two overlap. The copies of \<open>metav1.ObjectMeta\<close>,
  \<open>metav1.ListMeta\<close> and \<open>metav1.Time\<close> are third-party: the argument \<open>ml\<close>.
\<close>

record 'x metalib =
  ml_zero :: 'x
  ml_ObjectMeta :: "'x store \<Rightarrow> 'x object_meta \<Rightarrow> 'x object_meta \<times> 'x store"
  ml_ListMeta :: "'x store \<Rightarrow> 'x \<Rightarrow> 'x \<times> 'x store"
  ml_Time :: "'x store \<Rightarrow> loc \<Rightarrow> loc \<times> 'x store"

section \<open>Zero values\<close>

definition zero_type_meta :: type_meta where
  "zero_type_meta = \<lparr>tm_Kind = '''', tm_APIVersion = ''''\<rparr>"
definition zero_field :: issuer_custom_field where
  "zero_field = \<lparr>cf_Name = '''', cf_Value = ''''\<rparr>"
definition zero_cond :: heap_condition where
  "zero_cond = \<lparr>hc_Type = '''', hc_Status = '''', hc_LastTransitionTime = None, hc_Reason = '''',
     hc_Message = ''''\<rparr>"
definition zero_spec :: heap_spec where
  "zero_spec = \<lparr>hs_URL = '''', hs_CustomFields = None, hs_AuthSecretName = '''',
     hs_ProfileName = '''', hs_SubscriberName = '''', hs_IgnoreHostInApiResponse = False\<rparr>"
definition zero_status :: heap_status where
  "zero_status = \<lparr>hst_Conditions = None\<rparr>"
definition zero_object :: "'x metalib \<Rightarrow> 'x heap_object" where
  "zero_object ml = \<lparr>ho_TypeMeta = zero_type_meta,
     ho_ObjectMeta = \<lparr>om_Namespace = '''', om_Name = '''', om_Rest = ml_zero ml\<rparr>,
     ho_Spec = zero_spec, ho_Status = zero_status\<rparr>"
definition zero_list :: "'x metalib \<Rightarrow> 'x heap_list" where
  "zero_list ml = \<lparr>hl_TypeMeta = zero_type_meta, hl_ListMeta = ml_zero ml, hl_Items = None\<rparr>"

text \<open>\<open>new(T)\<close>: the pointer to a fresh zero value.\<close>

definition new_var :: "('a list \<Rightarrow> 'x cell) \<Rightarrow> 'a \<Rightarrow> 'x store \<Rightarrow> loc \<times> 'x store" where
  "new_var mk zero s = ((length s, 0), s @ [mk [zero]])"

section \<open>Conditions and custom fields\<close>

definition IssuerCondition_DeepCopyInto ::
    "'x metalib \<Rightarrow> 'x store \<Rightarrow> loc \<Rightarrow> loc \<Rightarrow> 'x store option" where
  "IssuerCondition_DeepCopyInto ml s i o' = do {
     v \<leftarrow> load_cond s i;
     s \<leftarrow> put_cond s o' v;
     v \<leftarrow> load_cond s i;
     case hc_LastTransitionTime v of
       None \<Rightarrow> Some s
     | Some t \<Rightarrow> do {
         let (t', s) = ml_Time ml s t;
         w \<leftarrow> load_cond s o';
         put_cond s o' (w\<lparr>hc_LastTransitionTime := Some t'\<rparr>) } }"

definition IssuerCondition_DeepCopy ::
    "'x metalib \<Rightarrow> 'x store \<Rightarrow> loc option \<Rightarrow> (loc option \<times> 'x store) option" where
  "IssuerCondition_DeepCopy ml s p = (case p of
     None \<Rightarrow> Some (None, s)
   | Some i \<Rightarrow> do {
       let (q, s) = new_var Conds zero_cond s;
       s \<leftarrow> IssuerCondition_DeepCopyInto ml s i q;
       Some (Some q, s) })"

definition IssuerCustomField_DeepCopyInto :: "'x store \<Rightarrow> loc \<Rightarrow> loc \<Rightarrow> 'x store option" where
  "IssuerCustomField_DeepCopyInto s i o' = do {
     v \<leftarrow> load_field s i;
     put_field s o' v }"

definition IssuerCustomField_DeepCopy ::
    "'x store \<Rightarrow> loc option \<Rightarrow> (loc option \<times> 'x store) option" where
  "IssuerCustomField_DeepCopy s p = (case p of
     None \<Rightarrow> Some (None, s)
   | Some i \<Rightarrow> do {
       let (q, s) = new_var Fields zero_field s;
       s \<leftarrow> IssuerCustomField_DeepCopyInto s i q;
       Some (Some q, s) })"

section \<open>Specification and status\<close>

text \<open>The built-in \<open>copy\<close> on slices of custom fields: the shorter length decides.\<close>

definition copy_fields :: "'x store \<Rightarrow> slice option \<Rightarrow> slice option \<Rightarrow> 'x store option" where
  "copy_fields s dst src = (case (dst, src) of
     (Some d, Some e) \<Rightarrow> do {
       es \<leftarrow> slice_elems fields_of s e;
       c \<leftarrow> cell_at s (sl_array d);
       vs \<leftarrow> fields_of c;
       let n = min (sl_len d) (sl_len e);
       Some (s[sl_array d := Fields (take n es @ drop n vs)]) }
   | _ \<Rightarrow> Some s)"

definition IssuerSpec_DeepCopyInto :: "'x store \<Rightarrow> inner_ptr \<Rightarrow> inner_ptr \<Rightarrow> 'x store option" where
  "IssuerSpec_DeepCopyInto s i o' = do {
     v \<leftarrow> load_spec s i;
     s \<leftarrow> put_spec s o' v;
     v \<leftarrow> load_spec s i;
     case hs_CustomFields v of
       None \<Rightarrow> Some s
     | Some sl \<Rightarrow> do {
         let (a, s) = alloc (Fields (replicate (sl_len sl) zero_field)) s;
         w \<leftarrow> load_spec s o';
         s \<leftarrow> put_spec s o' (w\<lparr>hs_CustomFields := Some (Slice a (sl_len sl))\<rparr>);
         v \<leftarrow> load_spec s i;
         w \<leftarrow> load_spec s o';
         copy_fields s (hs_CustomFields w) (hs_CustomFields v) } }"

definition IssuerSpec_DeepCopy ::
    "'x store \<Rightarrow> inner_ptr option \<Rightarrow> (inner_ptr option \<times> 'x store) option" where
  "IssuerSpec_DeepCopy s p = (case p of
     None \<Rightarrow> Some (None, s)
   | Some i \<Rightarrow> do {
       let (q, s) = new_var Specs zero_spec s;
       s \<leftarrow> IssuerSpec_DeepCopyInto s i (At q);
       Some (Some (At q), s) })"

text \<open>The loop of \<open>IssuerStatus.DeepCopyInto\<close>: both slices are read through their pointers in every turn.\<close>

definition copy_condition ::
    "'x metalib \<Rightarrow> inner_ptr \<Rightarrow> inner_ptr \<Rightarrow> nat \<Rightarrow> 'x store \<Rightarrow> 'x store option" where
  "copy_condition ml i o' n s = do {
     v \<leftarrow> load_status s i;
     w \<leftarrow> load_status s o';
     src \<leftarrow> hst_Conditions v;
     dst \<leftarrow> hst_Conditions w;
     p \<leftarrow> index src n;
     q \<leftarrow> index dst n;
     IssuerCondition_DeepCopyInto ml s p q }"

definition IssuerStatus_DeepCopyInto ::
    "'x metalib \<Rightarrow> 'x store \<Rightarrow> inner_ptr \<Rightarrow> inner_ptr \<Rightarrow> 'x store option" where
  "IssuerStatus_DeepCopyInto ml s i o' = do {
     v \<leftarrow> load_status s i;
     s \<leftarrow> put_status_at s o' v;
     v \<leftarrow> load_status s i;
     case hst_Conditions v of
       None \<Rightarrow> Some s
     | Some sl \<Rightarrow> do {
         let (a, s) = alloc (Conds (replicate (sl_len sl) zero_cond)) s;
         w \<leftarrow> load_status s o';
         s \<leftarrow> put_status_at s o' (w\<lparr>hst_Conditions := Some (Slice a (sl_len sl))\<rparr>);
         for_range (copy_condition ml i o') [0..<sl_len sl] s } }"

definition IssuerStatus_DeepCopy ::
    "'x metalib \<Rightarrow> 'x store \<Rightarrow> inner_ptr option \<Rightarrow> (inner_ptr option \<times> 'x store) option" where
  "IssuerStatus_DeepCopy ml s p = (case p of
     None \<Rightarrow> Some (None, s)
   | Some i \<Rightarrow> do {
       let (q, s) = new_var Statuses zero_status s;
       s \<leftarrow> IssuerStatus_DeepCopyInto ml s i (At q);
       Some (Some (At q), s) })"

text \<open>
  A value of the interface \<open>runtime.Object\<close>: nil, or a pointer with its type. The pointer inside
  can itself be nil, which is not the nil interface.
\<close>

datatype runtime_ref =
    RefObject object_kind "loc option"
  | RefList object_kind "loc option"

section \<open>Issuer\<close>

definition Issuer_DeepCopyInto :: "'x metalib \<Rightarrow> 'x store \<Rightarrow> loc \<Rightarrow> loc \<Rightarrow> 'x store option" where
  "Issuer_DeepCopyInto ml s i o' = do {
     v \<leftarrow> load_object s (KIssuer, i);
     s \<leftarrow> put_object s (KIssuer, o') v;
     v \<leftarrow> load_object s (KIssuer, i);
     w \<leftarrow> load_object s (KIssuer, o');
     s \<leftarrow> put_object s (KIssuer, o') (w\<lparr>ho_TypeMeta := ho_TypeMeta v\<rparr>);
     v \<leftarrow> load_object s (KIssuer, i);
     let (m, s) = ml_ObjectMeta ml s (ho_ObjectMeta v);
     w \<leftarrow> load_object s (KIssuer, o');
     s \<leftarrow> put_object s (KIssuer, o') (w\<lparr>ho_ObjectMeta := m\<rparr>);
     s \<leftarrow> IssuerSpec_DeepCopyInto s (Of (KIssuer, i)) (Of (KIssuer, o'));
     IssuerStatus_DeepCopyInto ml s (Of (KIssuer, i)) (Of (KIssuer, o')) }"

definition Issuer_DeepCopy ::
    "'x metalib \<Rightarrow> 'x store \<Rightarrow> loc option \<Rightarrow> (loc option \<times> 'x store) option" where
  "Issuer_DeepCopy ml s p = (case p of
     None \<Rightarrow> Some (None, s)
   | Some i \<Rightarrow> do {
       let (q, s) = new_var (Objects KIssuer) (zero_object ml) s;
       s \<leftarrow> Issuer_DeepCopyInto ml s i q;
       Some (Some q, s) })"

definition Issuer_DeepCopyObject ::
    "'x metalib \<Rightarrow> 'x store \<Rightarrow> loc option \<Rightarrow> (runtime_ref option \<times> 'x store) option" where
  "Issuer_DeepCopyObject ml s p = do {
     (c, s) \<leftarrow> Issuer_DeepCopy ml s p;
     Some (if c \<noteq> None then Some (RefObject KIssuer c) else None, s) }"

definition copy_Issuer_item ::
    "'x metalib \<Rightarrow> loc \<Rightarrow> loc \<Rightarrow> nat \<Rightarrow> 'x store \<Rightarrow> 'x store option" where
  "copy_Issuer_item ml i o' n s = do {
     v \<leftarrow> load_list s (KIssuer, i);
     w \<leftarrow> load_list s (KIssuer, o');
     src \<leftarrow> hl_Items v;
     dst \<leftarrow> hl_Items w;
     p \<leftarrow> index src n;
     q \<leftarrow> index dst n;
     Issuer_DeepCopyInto ml s p q }"

definition IssuerList_DeepCopyInto :: "'x metalib \<Rightarrow> 'x store \<Rightarrow> loc \<Rightarrow> loc \<Rightarrow> 'x store option" where
  "IssuerList_DeepCopyInto ml s i o' = do {
     v \<leftarrow> load_list s (KIssuer, i);
     s \<leftarrow> put_list s (KIssuer, o') v;
     v \<leftarrow> load_list s (KIssuer, i);
     w \<leftarrow> load_list s (KIssuer, o');
     s \<leftarrow> put_list s (KIssuer, o') (w\<lparr>hl_TypeMeta := hl_TypeMeta v\<rparr>);
     v \<leftarrow> load_list s (KIssuer, i);
     let (m, s) = ml_ListMeta ml s (hl_ListMeta v);
     w \<leftarrow> load_list s (KIssuer, o');
     s \<leftarrow> put_list s (KIssuer, o') (w\<lparr>hl_ListMeta := m\<rparr>);
     v \<leftarrow> load_list s (KIssuer, i);
     case hl_Items v of
       None \<Rightarrow> Some s
     | Some sl \<Rightarrow> do {
         let (a, s) = alloc (Objects KIssuer (replicate (sl_len sl) (zero_object ml))) s;
         w \<leftarrow> load_list s (KIssuer, o');
         s \<leftarrow> put_list s (KIssuer, o') (w\<lparr>hl_Items := Some (Slice a (sl_len sl))\<rparr>);
         for_range (copy_Issuer_item ml i o') [0..<sl_len sl] s } }"

definition IssuerList_DeepCopy ::
    "'x metalib \<Rightarrow> 'x store \<Rightarrow> loc option \<Rightarrow> (loc option \<times> 'x store) option" where
  "IssuerList_DeepCopy ml s p = (case p of
     None \<Rightarrow> Some (None, s)
   | Some i \<Rightarrow> do {
       let (q, s) = new_var (Lists KIssuer) (zero_list ml) s;
       s \<leftarrow> IssuerList_DeepCopyInto ml s i q;
       Some (Some q, s) })"

definition IssuerList_DeepCopyObject ::
    "'x metalib \<Rightarrow> 'x store \<Rightarrow> loc option \<Rightarrow> (runtime_ref option \<times> 'x store) option" where
  "IssuerList_DeepCopyObject ml s p = do {
     (c, s) \<leftarrow> IssuerList_DeepCopy ml s p;
     Some (if c \<noteq> None then Some (RefList KIssuer c) else None, s) }"

section \<open>ClusterIssuer\<close>

definition ClusterIssuer_DeepCopyInto :: "'x metalib \<Rightarrow> 'x store \<Rightarrow> loc \<Rightarrow> loc \<Rightarrow> 'x store option" where
  "ClusterIssuer_DeepCopyInto ml s i o' = do {
     v \<leftarrow> load_object s (KClusterIssuer, i);
     s \<leftarrow> put_object s (KClusterIssuer, o') v;
     v \<leftarrow> load_object s (KClusterIssuer, i);
     w \<leftarrow> load_object s (KClusterIssuer, o');
     s \<leftarrow> put_object s (KClusterIssuer, o') (w\<lparr>ho_TypeMeta := ho_TypeMeta v\<rparr>);
     v \<leftarrow> load_object s (KClusterIssuer, i);
     let (m, s) = ml_ObjectMeta ml s (ho_ObjectMeta v);
     w \<leftarrow> load_object s (KClusterIssuer, o');
     s \<leftarrow> put_object s (KClusterIssuer, o') (w\<lparr>ho_ObjectMeta := m\<rparr>);
     s \<leftarrow> IssuerSpec_DeepCopyInto s (Of (KClusterIssuer, i)) (Of (KClusterIssuer, o'));
     IssuerStatus_DeepCopyInto ml s (Of (KClusterIssuer, i)) (Of (KClusterIssuer, o')) }"

definition ClusterIssuer_DeepCopy ::
    "'x metalib \<Rightarrow> 'x store \<Rightarrow> loc option \<Rightarrow> (loc option \<times> 'x store) option" where
  "ClusterIssuer_DeepCopy ml s p = (case p of
     None \<Rightarrow> Some (None, s)
   | Some i \<Rightarrow> do {
       let (q, s) = new_var (Objects KClusterIssuer) (zero_object ml) s;
       s \<leftarrow> ClusterIssuer_DeepCopyInto ml s i q;
       Some (Some q, s) })"

definition ClusterIssuer_DeepCopyObject ::
    "'x metalib \<Rightarrow> 'x store \<Rightarrow> loc option \<Rightarrow> (runtime_ref option \<times> 'x store) option" where
  "ClusterIssuer_DeepCopyObject ml s p = do {
     (c, s) \<leftarrow> ClusterIssuer_DeepCopy ml s p;
     Some (if c \<noteq> None then Some (RefObject KClusterIssuer c) else None, s) }"

definition copy_ClusterIssuer_item ::
    "'x metalib \<Rightarrow> loc \<Rightarrow> loc \<Rightarrow> nat \<Rightarrow> 'x store \<Rightarrow> 'x store option" where
  "copy_ClusterIssuer_item ml i o' n s = do {
     v \<leftarrow> load_list s (KClusterIssuer, i);
     w \<leftarrow> load_list s (KClusterIssuer, o');
     src \<leftarrow> hl_Items v;
     dst \<leftarrow> hl_Items w;
     p \<leftarrow> index src n;
     q \<leftarrow> index dst n;
     ClusterIssuer_DeepCopyInto ml s p q }"

definition ClusterIssuerList_DeepCopyInto :: "'x metalib \<Rightarrow> 'x store \<Rightarrow> loc \<Rightarrow> loc \<Rightarrow> 'x store option" where
  "ClusterIssuerList_DeepCopyInto ml s i o' = do {
     v \<leftarrow> load_list s (KClusterIssuer, i);
     s \<leftarrow> put_list s (KClusterIssuer, o') v;
     v \<leftarrow> load_list s (KClusterIssuer, i);
     w \<leftarrow> load_list s (KClusterIssuer, o');
     s \<leftarrow> put_list s (KClusterIssuer, o') (w\<lparr>hl_TypeMeta := hl_TypeMeta v\<rparr>);
     v \<leftarrow> load_list s (KClusterIssuer, i);
     let (m, s) = ml_ListMeta ml s (hl_ListMeta v);
     w \<leftarrow> load_list s (KClusterIssuer, o');
     s \<leftarrow> put_list s (KClusterIssuer, o') (w\<lparr>hl_ListMeta := m\<rparr>);
     v \<leftarrow> load_list s (KClusterIssuer, i);
     case hl_Items v of
       None \<Rightarrow> Some s
     | Some sl \<Rightarrow> do {
         let (a, s) = alloc (Objects KClusterIssuer (replicate (sl_len sl) (zero_object ml))) s;
         w \<leftarrow> load_list s (KClusterIssuer, o');
         s \<leftarrow> put_list s (KClusterIssuer, o') (w\<lparr>hl_Items := Some (Slice a (sl_len sl))\<rparr>);
         for_range (copy_ClusterIssuer_item ml i o') [0..<sl_len sl] s } }"

definition ClusterIssuerList_DeepCopy ::
    "'x metalib \<Rightarrow> 'x store \<Rightarrow> loc option \<Rightarrow> (loc option \<times> 'x store) option" where
  "ClusterIssuerList_DeepCopy ml s p = (case p of
     None \<Rightarrow> Some (None, s)
   | Some i \<Rightarrow> do {
       let (q, s) = new_var (Lists KClusterIssuer) (zero_list ml) s;
       s \<leftarrow> ClusterIssuerList_DeepCopyInto ml s i q;
       Some (Some q, s) })"

definition ClusterIssuerList_DeepCopyObject ::
    "'x metalib \<Rightarrow> 'x store \<Rightarrow> loc option \<Rightarrow> (runtime_ref option \<times> 'x store) option" where
  "ClusterIssuerList_DeepCopyObject ml s p = do {
     (c, s) \<leftarrow> ClusterIssuerList_DeepCopy ml s p;
     Some (if c \<noteq> None then Some (RefList KClusterIssuer c) else None, s) }"

end
