(* ===== verification/HeapLaws.thy ===== *)
theory HeapLaws
  imports DeepCopy
begin

text \<open>
  The laws of variables in the store and the contract of a deep copy, as locales.

  A \<open>variable\<close> is a kind of pointer with its load and its put: a put changes one array, and
  loads elsewhere and loads after an allocation are not affected. A \<open>copier\<close> is a variable whose
  values have a deep reading (\<open>view\<close>) and a set of arrays they are read from (\<open>reach\<close>), with a
  function \<open>into\<close> that copies a value into another variable: the copy reads the same, every array
  it is read from is fresh, and nothing but the variable written to has changed. What follows for
  \<open>DeepCopy\<close> and for the loops over slices is proved once, in the locales.
\<close>

section \<open>Arrays\<close>

lemma cell_at_append: "cell_at s a = Some c \<Longrightarrow> cell_at (s @ n) a = Some c"
  by (auto simp: cell_at_def nth_append split: if_splits)

lemma cell_at_update [simp]: "a \<noteq> b \<Longrightarrow> cell_at (s[b := c]) a = cell_at s a"
  by (simp add: cell_at_def)

lemma cell_at_length [simp]: "cell_at (s @ [c]) (length s) = Some c"
  by (simp add: cell_at_def)

lemma cell_at_bound: "cell_at s a = Some c \<Longrightarrow> a < length s"
  by (auto simp: cell_at_def split: if_splits)

lemma load_elem_iff:
  "load_elem dest s l = Some v \<longleftrightarrow>
     (\<exists>c vs. cell_at s (fst l) = Some c \<and> dest c = Some vs \<and> snd l < length vs \<and> v = vs ! snd l)"
  by (auto simp: load_elem_def bind_eq_Some_conv split: if_splits)

lemma load_elem_append: "load_elem dest s l = Some v \<Longrightarrow> load_elem dest (s @ n) l = Some v"
  by (auto simp: load_elem_iff) (blast dest: cell_at_append)

lemma load_elem_update: "fst l \<noteq> a \<Longrightarrow> load_elem dest (s[a := c]) l = load_elem dest s l"
  by (simp add: load_elem_def)

lemma load_elem_bound: "load_elem dest s l = Some v \<Longrightarrow> fst l < length s"
  by (auto simp: load_elem_def bind_eq_Some_conv cell_at_bound)

lemma put_elem_defined: "load_elem dest s l = Some w \<Longrightarrow> \<exists>t. put_elem mk dest s l v = Some t"
  by (auto simp: load_elem_def put_elem_def bind_eq_Some_conv split: if_splits)

lemma put_elem_loaded: "put_elem mk dest s l v = Some t \<Longrightarrow> \<exists>w. load_elem dest s l = Some w"
  by (auto simp: load_elem_def put_elem_def bind_eq_Some_conv split: if_splits)

lemma put_elem_frame: "put_elem mk dest s l v = Some t \<Longrightarrow> fst l < length s \<and> (\<exists>c. t = s[fst l := c])"
  by (auto simp: put_elem_def bind_eq_Some_conv cell_at_bound split: if_splits)

lemma put_elem_append: "put_elem mk dest s l v = Some t \<Longrightarrow> put_elem mk dest (s @ n) l v = Some (t @ n)"
  by (auto simp: put_elem_def bind_eq_Some_conv cell_at_append list_update_append cell_at_bound
           split: if_splits)

lemma load_put_elem:
  assumes "\<And>vs. dest (mk vs) = Some vs" and "put_elem mk dest s l v = Some t"
  shows "load_elem dest t l = Some v"
  using assms(2)
  by (auto simp: put_elem_def load_elem_def bind_eq_Some_conv cell_at_def assms(1) split: if_splits)

lemma put_put_elem:
  assumes "\<And>vs. dest (mk vs) = Some vs" and "put_elem mk dest s l v = Some t"
    and "put_elem mk dest s l w = Some u"
  shows "put_elem mk dest t l w = Some u"
  using assms(2,3)
  by (auto simp: put_elem_def bind_eq_Some_conv cell_at_def assms(1) split: if_splits)

lemma load_put_elem_other:
  assumes "\<And>vs. dest (mk vs) = Some vs" and "put_elem mk dest s (a, i) v = Some t" and "i \<noteq> j"
  shows "load_elem dest t (a, j) = load_elem dest s (a, j)"
  using assms(2,3)
  by (auto simp: put_elem_def load_elem_def bind_eq_Some_conv cell_at_def assms(1) split: if_splits)

section \<open>Variables\<close>

locale variable =
  fixes load :: "'x store \<Rightarrow> 'p \<Rightarrow> 'a option"
    and put :: "'x store \<Rightarrow> 'p \<Rightarrow> 'a \<Rightarrow> 'x store option"
    and base :: "'p \<Rightarrow> addr"
  assumes load_append: "load s p = Some v \<Longrightarrow> load (s @ n) p = Some v"
    and load_update: "base p \<noteq> a \<Longrightarrow> load (s[a := c]) p = load s p"
    and load_bound: "load s p = Some v \<Longrightarrow> base p < length s"
    and put_defined: "load s p = Some w \<Longrightarrow> \<exists>t. put s p v = Some t"
    and put_loaded: "put s p v = Some t \<Longrightarrow> \<exists>w. load s p = Some w"
    and put_frame: "put s p v = Some t \<Longrightarrow> base p < length s \<and> (\<exists>c. t = s[base p := c])"
    and put_append: "put s p v = Some t \<Longrightarrow> put (s @ n) p v = Some (t @ n)"
    and load_put: "put s p v = Some t \<Longrightarrow> load t p = Some v"
    and put_put: "put s p v = Some t \<Longrightarrow> put s p w = Some u \<Longrightarrow> put t p w = Some u"
begin

lemma put_again: "put s p v = Some t \<Longrightarrow> put t p v = Some t"
  using put_put by blast

lemma put_length: "put s p v = Some t \<Longrightarrow> length t = length s"
  using put_frame by fastforce

text \<open>A second write after some allocations, as a write to the first state.\<close>

lemma put_over:
  assumes "put s p v = Some t"
  obtains u where "put s p w = Some u" and "put (t @ n) p w = Some (u @ n)"
    and "\<exists>c. u @ n = (t @ n)[base p := c]" and "load (u @ n) p = Some w"
proof -
  from put_loaded [OF assms] put_defined obtain u where u: "put s p w = Some u" by blast
  with assms have t: "put t p w = Some u" by (rule put_put)
  from put_append [OF t, of n] put_frame [OF t] load_append [OF load_put [OF t], of n] u that
  show thesis by (auto simp: list_update_append)
qed

lemma load_put_append: "put s p v = Some t \<Longrightarrow> load (t @ n) p = Some v"
  using load_put load_append by blast

lemma load_put_other:
  "put s q v = Some t \<Longrightarrow> base p \<noteq> base q \<Longrightarrow> load s p = Some w \<Longrightarrow> load (t @ n) p = Some w"
  using put_frame [of s q v t] by (auto intro!: load_append simp: load_update)

lemma put_through:
  assumes "put s p v = Some t" and "put (t @ n) p w = Some x"
  obtains u where "put s p w = Some u" "x = u @ n"
  using put_over [OF assms(1), of w n] assms(2) by auto

end

section \<open>Deep readings\<close>

lemma those_map_iff: "those (map f xs) = Some ys \<longleftrightarrow> list_all2 (\<lambda>x y. f x = Some y) xs ys"
  by (induction xs arbitrary: ys) (auto simp: list_all2_Cons1 split: option.splits)

locale deep_value =
  fixes ok :: bool
    and view :: "'x store \<Rightarrow> 'a \<Rightarrow> 'd option"
    and reach :: "'x store \<Rightarrow> 'a \<Rightarrow> addr set"
  assumes view_append: "ok \<Longrightarrow> view s v = Some d \<Longrightarrow> view (s @ n) v = Some d"
    and reach_append: "ok \<Longrightarrow> view s v = Some d \<Longrightarrow> reach (s @ n) v = reach s v"
    and view_update: "ok \<Longrightarrow> view s v = Some d \<Longrightarrow> a \<notin> reach s v \<Longrightarrow> view (s[a := c]) v = Some d"
    and reach_update: "ok \<Longrightarrow> view s v = Some d \<Longrightarrow> a \<notin> reach s v \<Longrightarrow> reach (s[a := c]) v = reach s v"
    and reach_bound: "ok \<Longrightarrow> view s v = Some d \<Longrightarrow> reach s v \<subseteq> {..<length s}"
begin

text \<open>Several arrays changed, and some allocated: what is read elsewhere stays.\<close>

lemma view_agree:
  assumes ok "view s v = Some d" "length s \<le> length s'"
    and "\<And>a. a \<in> reach s v \<Longrightarrow> s' ! a = s ! a"
  shows "view s' v = Some d \<and> reach s' v = reach s v"
proof -
  define upd where "upd k = map (\<lambda>a. if a < k \<and> a \<notin> reach s v then s' ! a else s ! a) [0..<length s]" for k
  have "view (upd k) v = Some d \<and> reach (upd k) v = reach s v" for k
  proof (induction k)
    case 0
    have "upd 0 = s" by (simp add: upd_def map_nth)
    with assms(2) show ?case by simp
  next
    case (Suc k)
    show ?case
    proof (cases "k \<in> reach s v \<or> k \<ge> length s")
      case True
      then have "upd (Suc k) = upd k" by (auto simp: upd_def less_Suc_eq)
      with Suc show ?thesis by simp
    next
      case False
      then have "upd (Suc k) = (upd k)[k := s' ! k]"
        by (auto simp: upd_def less_Suc_eq nth_list_update intro!: nth_equalityI)
      with False Suc view_update [OF assms(1), of "upd k" v d k "s' ! k"]
        reach_update [OF assms(1), of "upd k" v d k "s' ! k"] show ?thesis by simp
    qed
  qed
  moreover have "s' = upd (length s) @ drop (length s) s'"
    using assms(3,4) by (auto simp: upd_def nth_append intro!: nth_equalityI)
  ultimately show ?thesis
    using view_append [OF assms(1)] reach_append [OF assms(1)] by metis
qed

end

text \<open>A load reads the array of its pointer only.\<close>

context variable
begin

lemma load_agree:
  assumes "load s p = Some v" and "length s \<le> length s'" and "s' ! base p = s ! base p"
  shows "load s' p = Some v"
proof -
  have "deep_value True load (\<lambda>s p. {base p})"
    by unfold_locales (auto simp: load_append load_update dest: load_bound)
  from deep_value.view_agree [OF this TrueI assms(1,2)] assms(3) show ?thesis by simp
qed

end

section \<open>Copies\<close>

locale copier = variable load put base + deep_value ok view reach
  for load :: "'x store \<Rightarrow> 'p \<Rightarrow> 'a option"
    and put :: "'x store \<Rightarrow> 'p \<Rightarrow> 'a \<Rightarrow> 'x store option"
    and base :: "'p \<Rightarrow> addr"
    and ok :: bool
    and view :: "'x store \<Rightarrow> 'a \<Rightarrow> 'd option"
    and reach :: "'x store \<Rightarrow> 'a \<Rightarrow> addr set" +
  fixes into :: "'x store \<Rightarrow> 'p \<Rightarrow> 'p \<Rightarrow> 'x store option"
  assumes into_copies:
    "ok \<Longrightarrow> load s i = Some v \<Longrightarrow> view s v = Some d \<Longrightarrow> load s q = Some u \<Longrightarrow>
       base i \<noteq> base q \<Longrightarrow> base q \<notin> reach s v \<Longrightarrow>
       \<exists>w t n. into s i q = Some (t @ n) \<and> put s q w = Some t \<and> view (t @ n) w = Some d \<and>
               reach (t @ n) w \<subseteq> {length s..<length (t @ n)}"
begin

text \<open>A copy into a fresh variable: the old store is left as it is, the copy is all fresh.\<close>

lemma copy_fresh:
  assumes ok and "load s i = Some v" and "view s v = Some d"
    and "base q = length s" and "load (s @ [c]) q = Some u"
  shows "\<exists>w n. into (s @ [c]) i q = Some (s @ n) \<and> load (s @ n) q = Some w \<and>
                view (s @ n) w = Some d \<and> reach (s @ n) w \<subseteq> {length s..<length (s @ n)}"
proof -
  have "load (s @ [c]) i = Some v" using assms(2) by (rule load_append)
  moreover have "view (s @ [c]) v = Some d" using assms(1,3) by (rule view_append)
  moreover have "base i \<noteq> base q" using load_bound [OF assms(2)] assms(4) by simp
  moreover have "base q \<notin> reach (s @ [c]) v"
    using reach_append [OF assms(1,3)] reach_bound [OF assms(1,3)] assms(4) by auto
  ultimately obtain w t n where *: "into (s @ [c]) i q = Some (t @ n)" "put (s @ [c]) q w = Some t"
      "view (t @ n) w = Some d" "reach (t @ n) w \<subseteq> {length (s @ [c])..<length (t @ n)}"
    using into_copies [OF assms(1), of "s @ [c]" i v d q u] assms(5) by blast
  from put_frame [OF *(2)] assms(4) obtain c' where t: "t = s @ [c']" by auto
  with * load_append [OF load_put [OF *(2)], of n] show ?thesis
    by (intro exI [of _ w] exI [of _ "c' # n"]) auto
qed

end


section \<open>Loops over the elements of two arrays\<close>

lemma for_range_append:
  "for_range body (is @ js) s = do { s \<leftarrow> for_range body is s; for_range body js s }"
proof (induction "is" arbitrary: s)
  case (Cons i "is")
  then show ?case by (cases "body i s") simp_all
qed simp

locale element_copier = copier load put base ok view reach into
  for load :: "'x store \<Rightarrow> 'p \<Rightarrow> 'a option"
    and put :: "'x store \<Rightarrow> 'p \<Rightarrow> 'a \<Rightarrow> 'x store option"
    and base :: "'p \<Rightarrow> addr"
    and ok :: bool
    and view :: "'x store \<Rightarrow> 'a \<Rightarrow> 'd option"
    and reach :: "'x store \<Rightarrow> 'a \<Rightarrow> addr set"
    and into :: "'x store \<Rightarrow> 'p \<Rightarrow> 'p \<Rightarrow> 'x store option" +
  fixes mk :: "'a list \<Rightarrow> 'x cell"
    and dest :: "'x cell \<Rightarrow> 'a list option"
    and at :: "loc \<Rightarrow> 'p"
  assumes dest_mk: "dest (mk vs) = Some vs"
    and load_at: "load s (at l) = load_elem dest s l"
    and put_at: "put s (at l) v = put_elem mk dest s l v"
    and base_at: "base (at l) = fst l"
begin

text \<open>
  The state in the middle of a loop that copies the elements \<open>vs\<close> of one array into the array
  \<open>b\<close>, made before the loop from the state \<open>s\<close>: the first \<open>k\<close> elements are copied.
\<close>

definition midway :: "'x store \<Rightarrow> addr \<Rightarrow> 'd list \<Rightarrow> nat \<Rightarrow> 'x store \<Rightarrow> bool" where
  "midway s b ds k u \<longleftrightarrow>
     (\<exists>ws n. u = s[b := mk ws] @ n \<and> length ws = length ds \<and>
        (\<forall>j<k. view u (ws ! j) = Some (ds ! j) \<and> reach u (ws ! j) \<subseteq> {length s..<length u}))"

lemma midway_step:
  assumes ok and mid: "midway s b ds k u" and k: "k < length ds" and b: "b < length s" "a \<noteq> b"
    and src: "load_elem dest s (a, k) = Some v" "view s v = Some (ds ! k)" "b \<notin> reach s v"
  shows "\<exists>u'. into u (at (a, k)) (at (b, k)) = Some u' \<and> midway s b ds (Suc k) u'"
proof -
  from mid obtain ws n where u: "u = s[b := mk ws] @ n" and ws: "length ws = length ds"
    and copied: "\<And>j. j < k \<Longrightarrow> view u (ws ! j) = Some (ds ! j) \<and>
                                reach u (ws ! j) \<subseteq> {length s..<length u}"
    unfolding midway_def by blast
  have agree: "length s \<le> length u" "\<And>x. x \<in> reach s v \<Longrightarrow> u ! x = s ! x"
    using src(3) reach_bound [OF \<open>ok\<close> src(2)] by (auto simp: u nth_append) (metis nth_list_update_neq)
  have v: "view u v = Some (ds ! k)" "reach u v = reach s v"
    using view_agree [OF \<open>ok\<close> src(2) agree] by auto
  have "load u (at (a, k)) = Some v"
    using src(1) b(2) by (simp add: u load_at load_elem_append load_elem_update)
  moreover have "load u (at (b, k)) = Some (ws ! k)"
    using k ws b(1) by (simp add: u load_at load_elem_iff cell_at_def nth_append dest_mk)
  ultimately obtain w t n' where step: "into u (at (a, k)) (at (b, k)) = Some (t @ n')"
      "put u (at (b, k)) w = Some t" "view (t @ n') w = Some (ds ! k)"
      "reach (t @ n') w \<subseteq> {length u..<length (t @ n')}"
    using into_copies [OF \<open>ok\<close> _ v(1), of "at (a, k)" "at (b, k)"] src(3) b(2) v(2)
    by (auto simp: base_at)
  have "cell_at u b = Some (mk ws)" using b(1) by (simp add: u cell_at_def nth_append)
  with step(2) k ws b(1) have t: "t = s[b := mk (ws[k := w])] @ n"
    by (simp add: put_at put_elem_def dest_mk u list_update_append)
  have "view (t @ n') (ws[k := w] ! j) = Some (ds ! j) \<and>
        reach (t @ n') (ws[k := w] ! j) \<subseteq> {length s..<length (t @ n')}" if j: "j < Suc k" for j
  proof (cases "j = k")
    case True
    with step(3,4) k ws agree(1) show ?thesis by auto
  next
    case False
    with j copied [of j] have old: "view u (ws ! j) = Some (ds ! j)"
        "reach u (ws ! j) \<subseteq> {length s..<length u}" by auto
    have "length u \<le> length (t @ n')" by (simp add: t u)
    moreover have "(t @ n') ! x = u ! x" if "x \<in> reach u (ws ! j)" for x
      using that old(2) b(1) by (auto simp: t u nth_append)
    ultimately have "view (t @ n') (ws ! j) = Some (ds ! j) \<and> reach (t @ n') (ws ! j) = reach u (ws ! j)"
      by (rule view_agree [OF \<open>ok\<close> old(1)])
    with old(2) False show ?thesis by (auto simp: t u)
  qed
  with step(1) show ?thesis
    unfolding midway_def by (intro exI [of _ "t @ n'"] conjI exI [of _ "ws[k := w]"] exI [of _ "n @ n'"])
      (auto simp: t ws)
qed

lemma copy_loop:
  assumes ok and s: "cell_at s b = Some (mk zs)" "length zs = length ds" "a \<noteq> b"
    and src: "list_all2 (\<lambda>v d. view s v = Some d \<and> b \<notin> reach s v) vs ds"
      "\<And>j. j < length ds \<Longrightarrow> load_elem dest s (a, j) = Some (vs ! j)"
    and body: "\<And>j u. j < length ds \<Longrightarrow> midway s b ds j u \<Longrightarrow> body j u = into u (at (a, j)) (at (b, j))"
  shows "\<exists>u. for_range body [0..<length ds] s = Some u \<and> midway s b ds (length ds) u"
proof -
  have b: "b < length s" using s(1) by (rule cell_at_bound)
  have "k \<le> length ds \<Longrightarrow> \<exists>u. for_range body [0..<k] s = Some u \<and> midway s b ds k u" for k
  proof (induction k)
    case 0
    have "s ! b = mk zs" using s(1) by (simp add: cell_at_def split: if_splits)
    then have "s = s[b := mk zs] @ []" by (metis append_Nil2 list_update_id)
    with s(2) have "midway s b ds 0 s" unfolding midway_def by blast
    then show ?case by simp
  next
    case (Suc k)
    then obtain u where u: "for_range body [0..<k] s = Some u" "midway s b ds k u" by auto
    have "view s (vs ! k) = Some (ds ! k)" "b \<notin> reach s (vs ! k)"
      using src(1) Suc.prems by (auto simp: list_all2_conv_all_nth)
    with midway_step [OF \<open>ok\<close> u(2) _ b s(3)] Suc.prems src(2) obtain u' where
      "into u (at (a, k)) (at (b, k)) = Some u'" "midway s b ds (Suc k) u'" by fastforce
    with u Suc.prems body [of k u] show ?case by (auto simp: for_range_append)
  qed
  then show ?thesis by blast
qed

text \<open>What is left when the loop is done.\<close>

lemma midway_done:
  assumes "midway s b ds (length ds) u" "b < length s"
  shows "\<exists>ws n. u = s[b := mk ws] @ n \<and> length ws = length ds \<and>
           list_all2 (\<lambda>w d. view u w = Some d \<and> reach u w \<subseteq> {length s..<length u}) ws ds"
proof -
  from assms obtain ws n where "u = s[b := mk ws] @ n" "length ws = length ds"
      "\<And>j. j < length ds \<Longrightarrow> view u (ws ! j) = Some (ds ! j) \<and>
         reach u (ws ! j) \<subseteq> {length s..<length u}"
    unfolding midway_def by blast
  then show ?thesis by (intro exI [of _ ws] exI [of _ n]) (simp add: list_all2_conv_all_nth)
qed

end

end
