(* ===== verification/HeapViews.thy ===== *)
theory HeapViews
  imports HeapLaws
begin

text \<open>
  What the structs in memory stand for. The \<open>view\<close> of a struct follows its pointers and gives the
  value of theory \<open>ApiTypes\<close>, with a flag for a nil slice where Go tells it from an empty one; it is
  \<open>None\<close> when a pointer leads nowhere. The \<open>reach\<close> of a struct is the set of arrays it is read
  from. The third-party part of the metadata has its own reading \<open>mv\<close> and reach \<open>mr\<close>.
\<close>

section \<open>Readings\<close>

definition view_cond :: "'x store \<Rightarrow> heap_condition \<Rightarrow> issuer_condition option" where
  "view_cond s c = do {
     t \<leftarrow> (case hc_LastTransitionTime c of
            None \<Rightarrow> Some None | Some l \<Rightarrow> map_option Some (load_time s l));
     Some \<lparr>ic_Type = hc_Type c, ic_Status = hc_Status c, ic_LastTransitionTime = t,
           ic_Reason = hc_Reason c, ic_Message = hc_Message c\<rparr> }"

definition reach_cond :: "'x store \<Rightarrow> heap_condition \<Rightarrow> addr set" where
  "reach_cond s c = (case hc_LastTransitionTime c of None \<Rightarrow> {} | Some l \<Rightarrow> {fst l})"

definition spec_value :: "heap_spec \<Rightarrow> issuer_custom_field list \<Rightarrow> issuer_spec" where
  "spec_value v fs = \<lparr>is_URL = hs_URL v, is_CustomFields = fs,
     is_AuthSecretName = hs_AuthSecretName v, is_ProfileName = hs_ProfileName v,
     is_SubscriberName = hs_SubscriberName v,
     is_IgnoreHostInApiResponse = hs_IgnoreHostInApiResponse v\<rparr>"

definition view_spec :: "'x store \<Rightarrow> heap_spec \<Rightarrow> (bool \<times> issuer_spec) option" where
  "view_spec s v = (case hs_CustomFields v of
     None \<Rightarrow> Some (True, spec_value v [])
   | Some sl \<Rightarrow> map_option (\<lambda>fs. (False, spec_value v fs)) (slice_elems fields_of s sl))"

definition reach_spec :: "'x store \<Rightarrow> heap_spec \<Rightarrow> addr set" where
  "reach_spec s v = (case hs_CustomFields v of None \<Rightarrow> {} | Some sl \<Rightarrow> {sl_array sl})"

text \<open>A slice of structs: the array, and what its elements reach.\<close>

definition view_slice ::
    "('x cell \<Rightarrow> 'a list option) \<Rightarrow> ('x store \<Rightarrow> 'a \<Rightarrow> 'd option) \<Rightarrow> 'x store \<Rightarrow> slice \<Rightarrow> 'd list option" where
  "view_slice dest view s sl = do {
     vs \<leftarrow> slice_elems dest s sl;
     those (map (view s) vs) }"

definition reach_slice ::
    "('x cell \<Rightarrow> 'a list option) \<Rightarrow> ('x store \<Rightarrow> 'a \<Rightarrow> addr set) \<Rightarrow> 'x store \<Rightarrow> slice \<Rightarrow> addr set" where
  "reach_slice dest reach s sl =
     insert (sl_array sl)
       (case slice_elems dest s sl of None \<Rightarrow> {} | Some vs \<Rightarrow> \<Union> (set (map (reach s) vs)))"

definition view_status :: "'x store \<Rightarrow> heap_status \<Rightarrow> (bool \<times> issuer_status) option" where
  "view_status s v = (case hst_Conditions v of
     None \<Rightarrow> Some (True, \<lparr>is_Conditions = []\<rparr>)
   | Some sl \<Rightarrow> map_option (\<lambda>cs. (False, \<lparr>is_Conditions = cs\<rparr>)) (view_slice conds_of view_cond s sl))"

definition reach_status :: "'x store \<Rightarrow> heap_status \<Rightarrow> addr set" where
  "reach_status s v = (case hst_Conditions v of
     None \<Rightarrow> {} | Some sl \<Rightarrow> reach_slice conds_of reach_cond s sl)"

record 'v object_view =
  ov_TypeMeta :: type_meta
  ov_Namespace :: string
  ov_Name :: string
  ov_Meta :: 'v
  ov_Spec :: "bool \<times> issuer_spec"
  ov_Status :: "bool \<times> issuer_status"

definition view_object ::
    "('x store \<Rightarrow> 'x \<Rightarrow> 'v option) \<Rightarrow> 'x store \<Rightarrow> 'x heap_object \<Rightarrow> 'v object_view option" where
  "view_object mv s v = do {
     m \<leftarrow> mv s (om_Rest (ho_ObjectMeta v));
     sp \<leftarrow> view_spec s (ho_Spec v);
     st \<leftarrow> view_status s (ho_Status v);
     Some \<lparr>ov_TypeMeta = ho_TypeMeta v, ov_Namespace = om_Namespace (ho_ObjectMeta v),
           ov_Name = om_Name (ho_ObjectMeta v), ov_Meta = m, ov_Spec = sp, ov_Status = st\<rparr> }"

definition reach_object ::
    "('x store \<Rightarrow> 'x \<Rightarrow> addr set) \<Rightarrow> 'x store \<Rightarrow> 'x heap_object \<Rightarrow> addr set" where
  "reach_object mr s v =
     mr s (om_Rest (ho_ObjectMeta v)) \<union> reach_spec s (ho_Spec v) \<union> reach_status s (ho_Status v)"

record 'v list_view =
  lv_TypeMeta :: type_meta
  lv_Meta :: 'v
  lv_Items :: "'v object_view list option"

definition view_list ::
    "('x store \<Rightarrow> 'x \<Rightarrow> 'v option) \<Rightarrow> object_kind \<Rightarrow> 'x store \<Rightarrow> 'x heap_list \<Rightarrow> 'v list_view option" where
  "view_list mv k s v = do {
     m \<leftarrow> mv s (hl_ListMeta v);
     items \<leftarrow> (case hl_Items v of
                None \<Rightarrow> Some None
              | Some sl \<Rightarrow> map_option Some (view_slice (objects_of k) (view_object mv) s sl));
     Some \<lparr>lv_TypeMeta = hl_TypeMeta v, lv_Meta = m, lv_Items = items\<rparr> }"

definition reach_list ::
    "('x store \<Rightarrow> 'x \<Rightarrow> addr set) \<Rightarrow> object_kind \<Rightarrow> 'x store \<Rightarrow> 'x heap_list \<Rightarrow> addr set" where
  "reach_list mr k s v = mr s (hl_ListMeta v) \<union>
     (case hl_Items v of None \<Rightarrow> {} | Some sl \<Rightarrow> reach_slice (objects_of k) (reach_object mr) s sl)"

section \<open>What the third-party copies are documented to do\<close>

text \<open>
  Reading the metadata depends on the arrays it reaches only; its deep copies allocate, change
  nothing that exists, keep name and namespace and what is read, and reach only what they
  allocated. \<open>metav1.Time.DeepCopy\<close> allocates a variable with the same time.
\<close>

definition only_allocates :: "'x store \<Rightarrow> 'x store \<Rightarrow> bool" where
  "only_allocates s s' \<longleftrightarrow> (\<exists>n. s' = s @ n)"

definition metalib_ok ::
    "'x metalib \<Rightarrow> ('x store \<Rightarrow> 'x \<Rightarrow> 'v option) \<Rightarrow> ('x store \<Rightarrow> 'x \<Rightarrow> addr set) \<Rightarrow> bool" where
  "metalib_ok ml mv mr \<longleftrightarrow>
     (\<forall>s x d. mv s x = Some d \<longrightarrow>
        mr s x \<subseteq> {..<length s} \<and>
        (\<forall>n. mv (s @ n) x = Some d \<and> mr (s @ n) x = mr s x) \<and>
        (\<forall>a c. a \<notin> mr s x \<longrightarrow> mv (s[a := c]) x = Some d \<and> mr (s[a := c]) x = mr s x)) \<and>
     (\<forall>s m d m' s'. mv s (om_Rest m) = Some d \<longrightarrow> ml_ObjectMeta ml s m = (m', s') \<longrightarrow>
        only_allocates s s' \<and> om_Namespace m' = om_Namespace m \<and> om_Name m' = om_Name m \<and>
        mv s' (om_Rest m') = Some d \<and> mr s' (om_Rest m') \<subseteq> {length s..<length s'}) \<and>
     (\<forall>s x d x' s'. mv s x = Some d \<longrightarrow> ml_ListMeta ml s x = (x', s') \<longrightarrow>
        only_allocates s s' \<and> mv s' x' = Some d \<and> mr s' x' \<subseteq> {length s..<length s'}) \<and>
     (\<forall>s l t l' s'. load_time s l = Some t \<longrightarrow> ml_Time ml s l = (l', s') \<longrightarrow>
        only_allocates s s' \<and> load_time s' l' = Some t \<and> length s \<le> fst l')"

lemma metalib_ok_parts:
  assumes "metalib_ok ml mv mr"
  shows "\<forall>s x d. mv s x = Some d \<longrightarrow>
        mr s x \<subseteq> {..<length s} \<and>
        (\<forall>n. mv (s @ n) x = Some d \<and> mr (s @ n) x = mr s x) \<and>
        (\<forall>a c. a \<notin> mr s x \<longrightarrow> mv (s[a := c]) x = Some d \<and> mr (s[a := c]) x = mr s x)"
    and "\<forall>s m d m' s'. mv s (om_Rest m) = Some d \<longrightarrow> ml_ObjectMeta ml s m = (m', s') \<longrightarrow>
        only_allocates s s' \<and> om_Namespace m' = om_Namespace m \<and> om_Name m' = om_Name m \<and>
        mv s' (om_Rest m') = Some d \<and> mr s' (om_Rest m') \<subseteq> {length s..<length s'}"
    and "\<forall>s x d x' s'. mv s x = Some d \<longrightarrow> ml_ListMeta ml s x = (x', s') \<longrightarrow>
        only_allocates s s' \<and> mv s' x' = Some d \<and> mr s' x' \<subseteq> {length s..<length s'}"
    and "\<forall>s l t l' s'. load_time s l = Some t \<longrightarrow> ml_Time ml s l = (l', s') \<longrightarrow>
        only_allocates s s' \<and> load_time s' l' = Some t \<and> length s \<le> fst l'"
  by (insert assms) (unfold metalib_ok_def, (elim conjE, assumption)+)

lemma meta_laws:
  assumes "metalib_ok ml mv mr" and "mv s x = Some d"
  shows "mv (s @ n) x = Some d" "mr (s @ n) x = mr s x"
    and "a \<notin> mr s x \<Longrightarrow> mv (s[a := c]) x = Some d" "a \<notin> mr s x \<Longrightarrow> mr (s[a := c]) x = mr s x"
    and "mr s x \<subseteq> {..<length s}"
  using metalib_ok_parts(1) [OF assms(1)] assms(2) by simp_all

lemma ObjectMeta_copy:
  assumes "metalib_ok ml mv mr" and "mv s (om_Rest m) = Some d" and "ml_ObjectMeta ml s m = (m', s')"
  shows "\<exists>n. s' = s @ n" "om_Namespace m' = om_Namespace m" "om_Name m' = om_Name m"
    "mv s' (om_Rest m') = Some d" "mr s' (om_Rest m') \<subseteq> {length s..<length s'}"
  using metalib_ok_parts(2) [OF assms(1), rule_format, OF assms(2,3)] by (simp_all add: only_allocates_def)

lemma ListMeta_copy:
  assumes "metalib_ok ml mv mr" and "mv s x = Some d" and "ml_ListMeta ml s x = (x', s')"
  shows "\<exists>n. s' = s @ n" "mv s' x' = Some d" "mr s' x' \<subseteq> {length s..<length s'}"
  using metalib_ok_parts(3) [OF assms(1), rule_format, OF assms(2,3)] by (simp_all add: only_allocates_def)

lemma Time_copy:
  assumes "metalib_ok ml mv mr" and "load_time s l = Some t" and "ml_Time ml s l = (l', s')"
  shows "\<exists>n. s' = s @ n" "load_time s' l' = Some t" "length s \<le> fst l'"
  using metalib_ok_parts(4) [OF assms(1), rule_format, OF assms(2,3)] by (simp_all add: only_allocates_def)

section \<open>The readings depend on what they reach\<close>

lemma slice_elems_iff:
  "slice_elems dest s sl = Some vs \<longleftrightarrow>
     (\<exists>c us. cell_at s (sl_array sl) = Some c \<and> dest c = Some us \<and> sl_len sl \<le> length us \<and>
        vs = take (sl_len sl) us)"
  by (auto simp: slice_elems_def bind_eq_Some_conv split: if_splits)

lemma slice_elems_append: "slice_elems dest s sl = Some vs \<Longrightarrow> slice_elems dest (s @ n) sl = Some vs"
  by (auto simp: slice_elems_iff) (blast dest: cell_at_append)

lemma slice_elems_update [simp]:
  "sl_array sl \<noteq> a \<Longrightarrow> slice_elems dest (s[a := c]) sl = slice_elems dest s sl"
  by (simp add: slice_elems_def)

lemma slice_elems_bound: "slice_elems dest s sl = Some vs \<Longrightarrow> sl_array sl < length s"
  by (auto simp: slice_elems_iff dest: cell_at_bound)

lemma load_slice_elem:
  "slice_elems dest s sl = Some vs \<Longrightarrow> j < length vs \<Longrightarrow> load_elem dest s (sl_array sl, j) = Some (vs ! j)"
  by (auto simp: slice_elems_iff load_elem_iff)

lemma slice_elems_length: "slice_elems dest s sl = Some vs \<Longrightarrow> length vs = sl_len sl"
  by (auto simp: slice_elems_iff)

lemma load_time_append: "load_time s l = Some t \<Longrightarrow> load_time (s @ n) l = Some t"
  by (simp add: load_time_def load_elem_append)

lemma load_time_update: "fst l \<noteq> a \<Longrightarrow> load_time (s[a := c]) l = load_time s l"
  by (simp add: load_time_def load_elem_update)

lemma load_time_bound: "load_time s l = Some t \<Longrightarrow> fst l < length s"
  by (simp add: load_time_def load_elem_bound)

interpretation cond_value: deep_value True view_cond reach_cond
  by unfold_locales
    (auto simp: view_cond_def reach_cond_def bind_eq_Some_conv load_time_append load_time_update
          dest: load_time_bound split: option.splits)

interpretation spec_value: deep_value True view_spec reach_spec
  by unfold_locales
    (auto simp: view_spec_def reach_spec_def slice_elems_append slice_elems_bound
          split: option.splits)

text \<open>It is enough to show the laws for any state that agrees on what is reached.\<close>

lemma deep_valueI:
  assumes bound: "\<And>s v d. ok \<Longrightarrow> view s v = Some d \<Longrightarrow> reach s v \<subseteq> {..<length s}"
    and agree: "\<And>s s' v d. ok \<Longrightarrow> view s v = Some d \<Longrightarrow> length s \<le> length s' \<Longrightarrow>
      (\<And>a. a \<in> reach s v \<Longrightarrow> s' ! a = s ! a) \<Longrightarrow> view s' v = Some d \<and> reach s' v = reach s v"
  shows "deep_value ok view reach"
proof
  fix s v d n a c
  assume *: ok "view s v = Some d"
  have "(s @ n) ! x = s ! x" if "x \<in> reach s v" for x
    using bound [OF *] that by (auto simp: nth_append)
  then show "view (s @ n) v = Some d" "reach (s @ n) v = reach s v"
    using agree [OF *, of "s @ n"] by auto
  show "reach s v \<subseteq> {..<length s}" by (rule bound [OF *])
  assume "a \<notin> reach s v"
  then have "s[a := c] ! x = s ! x" if "x \<in> reach s v" for x
    using that by (metis nth_list_update_neq)
  then show "view (s[a := c]) v = Some d" "reach (s[a := c]) v = reach s v"
    using agree [OF *, of "s[a := c]"] by auto
qed

text \<open>A slice of values with a deep reading has one.\<close>

lemma list_all2_left: "list_all2 P xs ys \<Longrightarrow> x \<in> set xs \<Longrightarrow> \<exists>y. P x y"
  by (induction rule: list_all2_induct) auto

context deep_value
begin

lemma view_slice_agree:
  assumes ok "view_slice dest view s sl = Some ds" "length s \<le> length s'"
    and "\<And>a. a \<in> reach_slice dest reach s sl \<Longrightarrow> s' ! a = s ! a"
  shows "view_slice dest view s' sl = Some ds \<and> reach_slice dest reach s' sl = reach_slice dest reach s sl"
proof -
  from assms(2) obtain vs where vs: "slice_elems dest s sl = Some vs"
      "list_all2 (\<lambda>v d. view s v = Some d) vs ds"
    by (auto simp: view_slice_def bind_eq_Some_conv those_map_iff)
  have "cell_at s' (sl_array sl) = cell_at s (sl_array sl)"
    using slice_elems_bound [OF vs(1)] assms(3,4) by (simp add: cell_at_def reach_slice_def)
  with vs(1) have vs': "slice_elems dest s' sl = Some vs" by (simp add: slice_elems_def)
  have *: "view s' v = view s v \<and> reach s' v = reach s v" if v: "v \<in> set vs" for v
  proof -
    from list_all2_left [OF vs(2) v] obtain d where "view s v = Some d" by blast
    moreover have "s' ! a = s ! a" if "a \<in> reach s v" for a
      using assms(4) that v vs(1) by (auto simp: reach_slice_def)
    ultimately show ?thesis using view_agree [OF assms(1) _ assms(3)] by metis
  qed
  have "list_all2 (\<lambda>v d. view s' v = Some d) vs ds"
    using vs(2) * by (auto simp: list_all2_conv_all_nth)
  with vs(1) vs' * show ?thesis
    by (simp add: view_slice_def reach_slice_def those_map_iff)
qed

lemma view_slice_bound:
  assumes ok "view_slice dest view s sl = Some ds"
  shows "reach_slice dest reach s sl \<subseteq> {..<length s}"
proof -
  from assms(2) obtain vs where vs: "slice_elems dest s sl = Some vs"
      "list_all2 (\<lambda>v d. view s v = Some d) vs ds"
    by (auto simp: view_slice_def bind_eq_Some_conv those_map_iff)
  have "reach s v \<subseteq> {..<length s}" if "v \<in> set vs" for v
  proof -
    from list_all2_left [OF vs(2) that] obtain d where "view s v = Some d" by blast
    then show ?thesis by (rule reach_bound [OF assms(1)])
  qed
  with vs(1) slice_elems_bound [OF vs(1)] show ?thesis by (auto simp: reach_slice_def)
qed

lemma slice_value: "deep_value ok (view_slice dest view) (reach_slice dest reach)"
  by (rule deep_valueI) (rule view_slice_bound view_slice_agree, assumption+)+

end

interpretation conds_value: deep_value True "view_slice conds_of view_cond" "reach_slice conds_of reach_cond"
  by (rule cond_value.slice_value)

lemma view_status_agree:
  assumes "view_status s v = Some d" "length s \<le> length s'"
    and "\<And>a. a \<in> reach_status s v \<Longrightarrow> s' ! a = s ! a"
  shows "view_status s' v = Some d \<and> reach_status s' v = reach_status s v"
proof (cases "hst_Conditions v")
  case (Some sl)
  with assms(1) obtain cs where "view_slice conds_of view_cond s sl = Some cs"
    by (auto simp: view_status_def)
  with Some assms conds_value.view_agree [OF TrueI this assms(2)] show ?thesis
    by (simp add: view_status_def reach_status_def)
qed (use assms in \<open>simp add: view_status_def reach_status_def\<close>)

interpretation status_value: deep_value True view_status reach_status
  by (rule deep_valueI, rule_tac [2] view_status_agree)
    (auto simp: view_status_def reach_status_def
      dest: conds_value.reach_bound [OF TrueI, THEN subsetD] split: option.splits)

interpretation meta_value: deep_value "metalib_ok ml mv mr" mv mr
  by unfold_locales (simp_all add: meta_laws)

lemma view_objectE:
  assumes "view_object mv s v = Some d"
  obtains m sp st where "mv s (om_Rest (ho_ObjectMeta v)) = Some m"
    "view_spec s (ho_Spec v) = Some sp" "view_status s (ho_Status v) = Some st"
    "d = \<lparr>ov_TypeMeta = ho_TypeMeta v, ov_Namespace = om_Namespace (ho_ObjectMeta v),
          ov_Name = om_Name (ho_ObjectMeta v), ov_Meta = m, ov_Spec = sp, ov_Status = st\<rparr>"
  using assms by (auto simp: view_object_def bind_eq_Some_conv)

lemma view_object_agree:
  assumes ok: "metalib_ok ml mv mr" and v: "view_object mv s v = Some d"
    and l: "length s \<le> length s'" and a: "\<And>a. a \<in> reach_object mr s v \<Longrightarrow> s' ! a = s ! a"
  shows "view_object mv s' v = Some d \<and> reach_object mr s' v = reach_object mr s v"
proof -
  from v obtain m sp st where parts: "mv s (om_Rest (ho_ObjectMeta v)) = Some m"
      "view_spec s (ho_Spec v) = Some sp" "view_status s (ho_Status v) = Some st"
    by (rule view_objectE)
  have "mv s' (om_Rest (ho_ObjectMeta v)) = Some m \<and>
        mr s' (om_Rest (ho_ObjectMeta v)) = mr s (om_Rest (ho_ObjectMeta v))"
    by (rule meta_value.view_agree [OF ok parts(1) l]) (simp add: a reach_object_def)
  moreover have "view_spec s' (ho_Spec v) = Some sp \<and> reach_spec s' (ho_Spec v) = reach_spec s (ho_Spec v)"
    by (rule spec_value.view_agree [OF TrueI parts(2) l]) (simp add: a reach_object_def)
  moreover have "view_status s' (ho_Status v) = Some st \<and>
        reach_status s' (ho_Status v) = reach_status s (ho_Status v)"
    by (rule status_value.view_agree [OF TrueI parts(3) l]) (simp add: a reach_object_def)
  ultimately show ?thesis using v parts by (simp add: view_object_def reach_object_def)
qed

lemma view_object_bound:
  assumes "metalib_ok ml mv mr" and "view_object mv s v = Some d"
  shows "reach_object mr s v \<subseteq> {..<length s}"
proof -
  from assms(2) obtain m sp st where parts: "mv s (om_Rest (ho_ObjectMeta v)) = Some m"
      "view_spec s (ho_Spec v) = Some sp" "view_status s (ho_Status v) = Some st"
    by (rule view_objectE)
  from meta_laws(5) [OF assms(1) parts(1)] spec_value.reach_bound [OF TrueI parts(2)]
    status_value.reach_bound [OF TrueI parts(3)]
  show ?thesis by (simp add: reach_object_def)
qed

interpretation object_value: deep_value "metalib_ok ml mv mr" "view_object mv" "reach_object mr"
  by (rule deep_valueI) (rule view_object_bound view_object_agree, assumption+)+

interpretation objects_value: deep_value "metalib_ok ml mv mr"
    "view_slice (objects_of k) (view_object mv)" "reach_slice (objects_of k) (reach_object mr)"
  by (rule object_value.slice_value)

lemma view_list_agree:
  assumes ok: "metalib_ok ml mv mr" and v: "view_list mv k s v = Some d"
    and l: "length s \<le> length s'" and a: "\<And>a. a \<in> reach_list mr k s v \<Longrightarrow> s' ! a = s ! a"
  shows "view_list mv k s' v = Some d \<and> reach_list mr k s' v = reach_list mr k s v"
proof -
  from v obtain m where m: "mv s (hl_ListMeta v) = Some m"
    by (auto simp: view_list_def bind_eq_Some_conv)
  have m': "mv s' (hl_ListMeta v) = Some m \<and> mr s' (hl_ListMeta v) = mr s (hl_ListMeta v)"
    by (rule meta_value.view_agree [OF ok m l]) (simp add: a reach_list_def)
  show ?thesis
  proof (cases "hl_Items v")
    case None
    with v m m' show ?thesis by (simp add: view_list_def reach_list_def)
  next
    case (Some sl)
    with v obtain ds where ds: "view_slice (objects_of k) (view_object mv) s sl = Some ds"
      by (auto simp: view_list_def bind_eq_Some_conv)
    have "view_slice (objects_of k) (view_object mv) s' sl = Some ds \<and>
          reach_slice (objects_of k) (reach_object mr) s' sl = reach_slice (objects_of k) (reach_object mr) s sl"
      by (rule objects_value.view_agree [OF ok ds l]) (simp add: a reach_list_def Some)
    with v m m' ds Some show ?thesis by (simp add: view_list_def reach_list_def)
  qed
qed

lemma view_list_bound:
  assumes "metalib_ok ml mv mr" and "view_list mv k s v = Some d"
  shows "reach_list mr k s v \<subseteq> {..<length s}"
proof -
  from assms(2) obtain m where m: "mv s (hl_ListMeta v) = Some m"
    by (auto simp: view_list_def bind_eq_Some_conv)
  have items: "reach_slice (objects_of k) (reach_object mr) s sl \<subseteq> {..<length s}" if "hl_Items v = Some sl" for sl
  proof -
    from assms(2) that obtain ds where "view_slice (objects_of k) (view_object mv) s sl = Some ds"
      by (auto simp: view_list_def bind_eq_Some_conv)
    then show ?thesis by (rule objects_value.reach_bound [OF assms(1)])
  qed
  with meta_laws(5) [OF assms(1) m] show ?thesis
    by (auto simp: reach_list_def split: option.splits)
qed

interpretation list_value: deep_value "metalib_ok ml mv mr" "view_list mv k" "reach_list mr k"
  by (rule deep_valueI) (rule view_list_bound view_list_agree, assumption+)+

end
