(* ===== verification/DeepCopyProps.thy ===== *)
theory DeepCopyProps
  imports HeapViews
begin

text \<open>
  Every \<open>DeepCopyInto\<close> of the API types keeps the contract \<open>copier\<close>: the interpretations below,
  from the conditions up to the lists.
\<close>

section \<open>The variables\<close>

lemma dest_simps [simp]:
  "times_of (Times ts) = Some ts" "fields_of (Fields fs) = Some fs" "conds_of (Conds cs) = Some cs"
  "specs_of (Specs sps) = Some sps" "statuses_of (Statuses sts) = Some sts"
  "objects_of k (Objects k obs) = Some obs" "lists_of k (Lists k ls) = Some ls"
  by simp_all

lemma element_variable:
  assumes "\<And>vs. dest (mk vs) = Some vs"
  shows "variable (load_elem dest) (put_elem mk dest) fst"
proof (unfold_locales, goal_cases)
  case 1
  then show ?case by (rule load_elem_append)
next
  case 2
  then show ?case by (rule load_elem_update)
next
  case 3
  then show ?case by (rule load_elem_bound)
next
  case 4
  then show ?case by (rule put_elem_defined)
next
  case 5
  then show ?case by (rule put_elem_loaded)
next
  case 6
  then show ?case by (rule put_elem_frame)
next
  case 7
  then show ?case by (rule put_elem_append)
next
  case 8
  then show ?case by (rule load_put_elem [OF assms])
next
  case 9
  then show ?case by (rule put_put_elem [OF assms])
qed

interpretation cond_var: variable load_cond put_cond fst
  unfolding load_cond_def put_cond_def by (rule element_variable) simp

interpretation field_var: variable load_field put_field fst
  unfolding load_field_def put_field_def by (rule element_variable) simp

interpretation object_var: variable "\<lambda>s l. load_object s (k, l)" "\<lambda>s l. put_object s (k, l)" fst
  unfolding load_object_def put_object_def fst_conv snd_conv by (rule element_variable) simp

interpretation list_var: variable "\<lambda>s l. load_list s (k, l)" "\<lambda>s l. put_list s (k, l)" fst
  unfolding load_list_def put_list_def fst_conv snd_conv by (rule element_variable) simp

text \<open>A field of a variable is a variable.\<close>

lemma field_variable:
  assumes "variable load put base"
    and get_upd: "\<And>f v. get (upd f v) = f" and upd_upd: "\<And>f g v. upd f (upd g v) = upd f v"
  shows "variable (\<lambda>s p. map_option get (load s p))
           (\<lambda>s p f. do { v \<leftarrow> load s p; put s p (upd f v) }) base"
proof -
  note v = assms(1)
  show ?thesis
  proof (unfold_locales, goal_cases)
    case (1 s p f n)
    then show ?case using variable.load_append [OF v] by fastforce
  next
    case (2 p a s c)
    then show ?case using variable.load_update [OF v] by metis
  next
    case (3 s p f)
    then show ?case using variable.load_bound [OF v] by blast
  next
    case (4 s p w f)
    then obtain u where u: "load s p = Some u" by auto
    with variable.put_defined [OF v u] show ?case by auto
  next
    case (5 s p f t)
    then show ?case by (auto simp: bind_eq_Some_conv)
  next
    case (6 s p f t)
    then show ?case using variable.put_frame [OF v] by (auto simp: bind_eq_Some_conv)
  next
    case (7 s p f t n)
    then show ?case using variable.put_append [OF v] variable.load_append [OF v]
      by (fastforce simp: bind_eq_Some_conv)
  next
    case (8 s p f t)
    then show ?case using variable.load_put [OF v] by (fastforce simp: bind_eq_Some_conv get_upd)
  next
    case (9 s p f t g u)
    then obtain w where w: "load s p = Some w" "put s p (upd f w) = Some t" "put s p (upd g w) = Some u"
      by (auto simp: bind_eq_Some_conv)
    from variable.put_put [OF v w(2,3)] variable.load_put [OF v w(2)] show ?case
      by (simp add: upd_upd)
  qed
qed

text \<open>A pointer of one of two kinds is a variable when both kinds are.\<close>

lemma inner_variable:
  assumes at: "variable load1 put1 fst"
    and of: "\<And>k. variable (\<lambda>s l. load2 s (k, l)) (\<lambda>s l. put2 s (k, l)) fst"
  shows "variable (\<lambda>s p. case p of At l \<Rightarrow> load1 s l | Of q \<Rightarrow> load2 s q)
           (\<lambda>s p v. case p of At l \<Rightarrow> put1 s l v | Of q \<Rightarrow> put2 s q v) inner_base"
proof -
  show ?thesis
  proof (unfold_locales, goal_cases)
    case (1 s p v n)
    then show ?case using variable.load_append [OF at] variable.load_append [OF of]
      by (auto split: inner_ptr.splits)
  next
    case (2 p a s c)
    then show ?case using variable.load_update [OF at] variable.load_update [OF of]
      by (auto simp: inner_base_def split: inner_ptr.splits)
  next
    case (3 s p v)
    then show ?case using variable.load_bound [OF at] variable.load_bound [OF of]
      by (auto simp: inner_base_def split: inner_ptr.splits)
  next
    case (4 s p w v)
    then show ?case using variable.put_defined [OF at] variable.put_defined [OF of]
      by (auto split: inner_ptr.splits)
  next
    case (5 s p v t)
    then show ?case using variable.put_loaded [OF at] variable.put_loaded [OF of]
      by (auto split: inner_ptr.splits)
  next
    case (6 s p v t)
    then show ?case using variable.put_frame [OF at] variable.put_frame [OF of]
      by (auto simp: inner_base_def split: inner_ptr.splits)
  next
    case (7 s p v t n)
    then show ?case using variable.put_append [OF at] variable.put_append [OF of]
      by (auto split: inner_ptr.splits)
  next
    case (8 s p v t)
    then show ?case using variable.load_put [OF at] variable.load_put [OF of]
      by (auto split: inner_ptr.splits)
  next
    case (9 s p v t w u)
    show ?case
    proof (cases p)
      case (At l)
      with 9 variable.put_put [OF at, of s l v t w u] show ?thesis by simp
    next
      case (Of q)
      with 9 variable.put_put [OF of, of s "fst q" "snd q" v t w u] show ?thesis by simp
    qed
  qed
qed

lemma spec_of_object: "variable (\<lambda>s l. map_option ho_Spec (load_object s (k, l)))
    (\<lambda>s l f. do { v \<leftarrow> load_object s (k, l); put_object s (k, l) (v\<lparr>ho_Spec := f\<rparr>) }) fst"
  by (rule field_variable [OF object_var.variable_axioms]) simp_all

lemma spec_alone: "variable (load_elem specs_of) (put_elem Specs specs_of) fst"
  by (rule element_variable) simp

interpretation spec_var: variable load_spec put_spec inner_base
  unfolding load_spec_def put_spec_def
  by (rule inner_variable [OF spec_alone spec_of_object])

lemma status_of_object: "variable (\<lambda>s l. map_option ho_Status (load_object s (k, l)))
    (\<lambda>s l f. do { v \<leftarrow> load_object s (k, l); put_object s (k, l) (v\<lparr>ho_Status := f\<rparr>) }) fst"
  by (rule field_variable [OF object_var.variable_axioms]) simp_all

lemma status_alone: "variable (load_elem statuses_of) (put_elem Statuses statuses_of) fst"
  by (rule element_variable) simp

interpretation status_var: variable load_status put_status_at inner_base
  unfolding load_status_def put_status_at_def
  by (rule inner_variable [OF status_alone status_of_object])

section \<open>Conditions and custom fields\<close>

lemma deep_value_when: "deep_value True view reach \<Longrightarrow> deep_value ok view reach"
  by (simp add: deep_value_def)

lemma cond_into_copies:
  assumes lib: "metalib_ok ml mv mr"
    and i: "load_cond s i = Some v" "view_cond s v = Some d"
    and q: "load_cond s q = Some u" "fst i \<noteq> fst q" "fst q \<notin> reach_cond s v"
  shows "\<exists>w t n. IssuerCondition_DeepCopyInto ml s i q = Some (t @ n) \<and> put_cond s q w = Some t \<and>
           view_cond (t @ n) w = Some d \<and> reach_cond (t @ n) w \<subseteq> {length s..<length (t @ n)}"
proof -
  obtain t where t: "put_cond s q v = Some t" using cond_var.put_defined [OF q(1)] by blast
  obtain c where tc: "t = s[fst q := c]" and qs: "fst q < length s"
    using cond_var.put_frame [OF t] by blast
  have li: "load_cond t i = Some v" using i(1) q(2) by (simp add: tc cond_var.load_update)
  show ?thesis
  proof (cases "hc_LastTransitionTime v")
    case None
    with i t li show ?thesis
      by (intro exI [of _ v] exI [of _ t] exI [of _ "[]"])
        (simp add: IssuerCondition_DeepCopyInto_def view_cond_def reach_cond_def)
  next
    case (Some l)
    with i(2) obtain tm where tm: "load_time s l = Some tm"
      and d: "d = \<lparr>ic_Type = hc_Type v, ic_Status = hc_Status v, ic_LastTransitionTime = Some tm,
                  ic_Reason = hc_Reason v, ic_Message = hc_Message v\<rparr>"
      by (auto simp: view_cond_def bind_eq_Some_conv)
    have "load_time t l = Some tm" using q(3) Some tm by (simp add: tc reach_cond_def load_time_update)
    moreover obtain l' s' where copy: "ml_Time ml t l = (l', s')" by (cases "ml_Time ml t l")
    ultimately obtain n where n: "s' = t @ n" "load_time (t @ n) l' = Some tm" "length t \<le> fst l'"
      using Time_copy [OF lib] by metis
    define w where "w = v\<lparr>hc_LastTransitionTime := Some l'\<rparr>"
    from cond_var.put_over [OF t] obtain r c' where r: "put_cond s q w = Some r"
        "put_cond (t @ n) q w = Some (r @ n)" "r @ n = (t @ n)[fst q := c']" by blast
    have "fst q \<noteq> fst l'" using qs n(3) by (simp add: tc)
    with n(2) have l': "load_time (r @ n) l' = Some tm" unfolding r(3) by (simp add: load_time_update)
    have "load_cond (t @ n) q = Some v" using cond_var.load_append [OF cond_var.load_put [OF t]] .
    with i(1) t li Some copy n(1) r(2) have "IssuerCondition_DeepCopyInto ml s i q = Some (r @ n)"
      by (simp add: IssuerCondition_DeepCopyInto_def w_def)
    moreover have "view_cond (r @ n) w = Some d" using l' by (simp add: view_cond_def w_def d)
    moreover have "reach_cond (r @ n) w \<subseteq> {length s..<length (r @ n)}"
      using load_time_bound [OF l'] n(3) by (simp add: reach_cond_def w_def tc)
    ultimately show ?thesis using r(1) by blast
  qed
qed

interpretation cond: element_copier load_cond put_cond fst "metalib_ok ml mv mr" view_cond reach_cond
    "IssuerCondition_DeepCopyInto ml" Conds conds_of "\<lambda>l. l"
proof (intro element_copier.intro copier.intro)
  show "variable load_cond put_cond fst" by (rule cond_var.variable_axioms)
  show "deep_value (metalib_ok ml mv mr) view_cond reach_cond"
    by (rule deep_value_when) (rule cond_value.deep_value_axioms)
  show "copier_axioms load_cond put_cond fst (metalib_ok ml mv mr) view_cond reach_cond
      (IssuerCondition_DeepCopyInto ml)"
    by unfold_locales (rule cond_into_copies)
  show "element_copier_axioms load_cond put_cond fst Conds conds_of (\<lambda>l. l)"
    by unfold_locales (simp_all add: load_cond_def put_cond_def)
qed

interpretation field: copier load_field put_field fst True "\<lambda>s v. Some v" "\<lambda>s v. {}"
    IssuerCustomField_DeepCopyInto
proof (unfold_locales, goal_cases)
  case (6 s i v d q u)
  from field_var.put_defined [OF 6(4)] obtain t where "put_field s q v = Some t" by blast
  with 6(2,3) show ?case
    by (intro exI [of _ v] exI [of _ t] exI [of _ "[]"]) (simp add: IssuerCustomField_DeepCopyInto_def)
qed simp_all

section \<open>Specification\<close>

lemma view_spec_Some:
  "hs_CustomFields v = Some sl \<Longrightarrow>
     view_spec s v = map_option (\<lambda>fs. (False, spec_value v fs)) (slice_elems fields_of s sl)"
  by (simp add: view_spec_def)

lemma spec_value_fields [simp]: "spec_value (v\<lparr>hs_CustomFields := sl\<rparr>) fs = spec_value v fs"
  by (simp add: spec_value_def)

lemma spec_into_copies:
  fixes s :: "'x store"
  assumes i: "load_spec s i = Some v" "view_spec s v = Some d"
    and q: "load_spec s q = Some u" "inner_base i \<noteq> inner_base q" "inner_base q \<notin> reach_spec s v"
  shows "\<exists>w t n. IssuerSpec_DeepCopyInto s i q = Some (t @ n) \<and> put_spec s q w = Some t \<and>
           view_spec (t @ n) w = Some d \<and> reach_spec (t @ n) w \<subseteq> {length s..<length (t @ n)}"
proof -
  obtain t where t: "put_spec s q v = Some t" using spec_var.put_defined [OF q(1)] by blast
  obtain c where tc: "t = s[inner_base q := c]" and qs: "inner_base q < length s"
    using spec_var.put_frame [OF t] by blast
  have li: "load_spec t i = Some v" using i(1) q(2) by (simp add: tc spec_var.load_update)
  show ?thesis
  proof (cases "hs_CustomFields v")
    case None
    with i t li show ?thesis
      by (intro exI [of _ v] exI [of _ t] exI [of _ "[]"])
        (simp add: IssuerSpec_DeepCopyInto_def view_spec_def reach_spec_def)
  next
    case (Some sl)
    with i(2) obtain fs where fs: "slice_elems fields_of s sl = Some fs" and d: "d = (False, spec_value v fs)"
      by (auto simp: view_spec_Some)
    define made :: "'x cell" where "made = Fields (replicate (sl_len sl) zero_field)"
    define w where "w = v\<lparr>hs_CustomFields := Some (Slice (length t) (sl_len sl))\<rparr>"
    from spec_var.put_over [OF t] obtain r c' where r: "put_spec s q w = Some r"
        "put_spec (t @ [made]) q w = Some (r @ [made])" "r @ [made] = (t @ [made])[inner_base q := c']"
        "load_spec (r @ [made]) q = Some w" by blast
    have lr: "length r = length t" using spec_var.put_length [OF r(1)] by (simp add: tc)
    have "load_spec (t @ [made]) q = Some v"
      using spec_var.load_append [OF spec_var.load_put [OF t]] .
    moreover have "load_spec (r @ [made]) i = Some v"
      using spec_var.load_append [OF li, of "[made]"] q(2) unfolding r(3)
      by (simp add: spec_var.load_update)
    moreover have "slice_elems fields_of (r @ [made]) sl = Some fs"
      using slice_elems_append [OF fs] q(3) Some unfolding r(3) tc
      by (simp add: reach_spec_def list_update_append1 [symmetric] qs slice_elems_append fs)
    moreover have "length fs = sl_len sl" using fs by (rule slice_elems_length)
    ultimately have "IssuerSpec_DeepCopyInto s i q = Some (r @ [Fields fs])"
      using i(1) t li Some r(2,4)
      by (simp add: IssuerSpec_DeepCopyInto_def alloc_def made_def [symmetric] w_def [symmetric])
        (simp add: w_def copy_fields_def made_def lr [symmetric])
    moreover have "view_spec (r @ [Fields fs]) w = Some d"
      using \<open>length fs = sl_len sl\<close>
      by (simp add: view_spec_def w_def d slice_elems_iff lr [symmetric])
    moreover have "reach_spec (r @ [Fields fs]) w \<subseteq> {length s..<length (r @ [Fields fs])}"
      by (simp add: reach_spec_def w_def lr) (simp add: tc)
    ultimately show ?thesis using r(1) by blast
  qed
qed

interpretation spec: copier load_spec put_spec inner_base True view_spec reach_spec
    IssuerSpec_DeepCopyInto
  by (intro copier.intro spec_var.variable_axioms spec_value.deep_value_axioms)
    (unfold_locales, rule spec_into_copies)

section \<open>Status\<close>

text \<open>What the loop over a slice needs of the state in which its array has just been made.\<close>

lemma view_slice_elems:
  assumes "view_slice dest view s sl = Some ds"
  obtains vs where "slice_elems dest s sl = Some vs" "list_all2 (\<lambda>v d. view s v = Some d) vs ds"
    "length ds = sl_len sl"
    "\<And>j. j < length ds \<Longrightarrow> load_elem dest s (sl_array sl, j) = Some (vs ! j)"
    "\<And>v. v \<in> set vs \<Longrightarrow> reach s v \<subseteq> reach_slice dest reach s sl"
proof -
  from assms obtain vs where vs: "slice_elems dest s sl = Some vs"
      "list_all2 (\<lambda>v d. view s v = Some d) vs ds"
    by (auto simp: view_slice_def bind_eq_Some_conv those_map_iff)
  moreover have "length ds = sl_len sl"
    using slice_elems_length [OF vs(1)] list_all2_lengthD [OF vs(2)] by simp
  moreover have "length vs = length ds" using list_all2_lengthD [OF vs(2)] .
  ultimately show thesis
    using that [OF vs] load_slice_elem [OF vs(1)] by (fastforce simp: reach_slice_def)
qed

text \<open>The slice that is left when the loop is done, as a fresh copy.\<close>

lemma slice_copied:
  assumes "u = s @ [mk ws] @ n" and dest: "dest (mk ws) = Some ws" and "length ws = k"
    and "list_all2 (\<lambda>w d. view u w = Some d \<and> reach u w \<subseteq> {length s..<length u}) ws ds"
  shows "view_slice dest view u (Slice (length s) k) = Some ds"
    and "reach_slice dest reach u (Slice (length s) k) \<subseteq> {length s..<length u}"
proof -
  have elems: "slice_elems dest u (Slice (length s) k) = Some ws"
    using assms(1,3) dest by (simp add: slice_elems_iff cell_at_def nth_append)
  moreover have "list_all2 (\<lambda>w d. view u w = Some d) ws ds"
    using assms(4) by (rule list_all2_mono) simp
  ultimately show "view_slice dest view u (Slice (length s) k) = Some ds"
    by (simp add: view_slice_def those_map_iff)
  have "reach u w \<subseteq> {length s..<length u}" if "w \<in> set ws" for w
    using list_all2_left [OF assms(4) that] by auto
  with elems show "reach_slice dest reach u (Slice (length s) k) \<subseteq> {length s..<length u}"
    using assms(1) by (auto simp: reach_slice_def)
qed

lemma list_all2_mono_set:
  "list_all2 P xs ys \<Longrightarrow> (\<And>x y. x \<in> set xs \<Longrightarrow> P x y \<Longrightarrow> Q x y) \<Longrightarrow> list_all2 Q xs ys"
  by (induction rule: list_all2_induct) auto

context element_copier
begin

text \<open>
  The loop over a slice, from a state that ends with the new array: it ends with a slice that
  reads the same and reaches only what is new.
\<close>

lemma copy_slice:
  assumes ok and S: "S = r @ [mk zs]" "length zs = sl_len sl"
    and ds: "view_slice dest view S sl = Some ds" "reach_slice dest reach S sl \<subseteq> {..<length r}"
    and body: "\<And>j ws n. j < sl_len sl \<Longrightarrow> length ws = sl_len sl \<Longrightarrow>
      body j (r @ [mk ws] @ n) =
        into (r @ [mk ws] @ n) (at (sl_array sl, j)) (at (length r, j))"
  shows "\<exists>x n. for_range body [0..<sl_len sl] S = Some x \<and> x = r @ n \<and>
           view_slice dest view x (Slice (length r) (sl_len sl)) = Some ds \<and>
           reach_slice dest reach x (Slice (length r) (sl_len sl)) \<subseteq> {length r..<length x}"
proof -
  from ds(1) obtain vs where vs: "slice_elems dest S sl = Some vs"
      "list_all2 (\<lambda>v d. view S v = Some d) vs ds" "length ds = sl_len sl"
      "\<And>j. j < length ds \<Longrightarrow> load_elem dest S (sl_array sl, j) = Some (vs ! j)"
      "\<And>v. v \<in> set vs \<Longrightarrow> reach S v \<subseteq> reach_slice dest reach S sl"
    by (rule view_slice_elems [where reach = reach]) blast
  have all: "list_all2 (\<lambda>v d. view S v = Some d \<and> length r \<notin> reach S v) vs ds"
    using vs(2)
  proof (rule list_all2_mono_set)
    fix v d
    assume "v \<in> set vs" "view S v = Some d"
    with vs(5) ds(2) show "view S v = Some d \<and> length r \<notin> reach S v" by blast
  qed
  have "sl_array sl \<noteq> length r" using ds(2) by (auto simp: reach_slice_def)
  moreover have "body j x = into x (at (sl_array sl, j)) (at (length r, j))"
    if "j < length ds" and mid: "midway S (length r) ds j x" for j x
  proof -
    from mid obtain ws n where "x = S[length r := mk ws] @ n" "length ws = length ds"
      unfolding midway_def by blast
    with body [of j ws n] that(1) vs(3) show ?thesis by (simp add: S)
  qed
  ultimately obtain x where x: "for_range body [0..<length ds] S = Some x"
      "midway S (length r) ds (length ds) x"
    using copy_loop [OF \<open>ok\<close>, of S "length r" zs ds "sl_array sl" vs body] all vs(3,4) S
    by (auto simp: cell_at_def nth_append)
  from midway_done [OF x(2)] obtain ws n where ws: "x = S[length r := mk ws] @ n" "length ws = length ds"
      "list_all2 (\<lambda>w d. view x w = Some d \<and> reach x w \<subseteq> {length S..<length x}) ws ds"
    by (auto simp: S)
  have xr: "x = r @ [mk ws] @ n" by (simp add: ws(1) S)
  have "list_all2 (\<lambda>w d. view x w = Some d \<and> reach x w \<subseteq> {length r..<length x}) ws ds"
    using ws(3) by (rule list_all2_mono) (auto simp: S)
  note sliced = slice_copied [where dest = dest and mk = mk and view = view and reach = reach,
      OF xr dest_mk _ this, of "sl_len sl"]
  from x(1) xr sliced ws(2) vs(3) show ?thesis by auto
qed

end

lemma status_into_copies:
  fixes s :: "'x store"
  assumes lib: "metalib_ok ml mv mr"
    and i: "load_status s i = Some v" "view_status s v = Some d"
    and q: "load_status s q = Some u" "inner_base i \<noteq> inner_base q" "inner_base q \<notin> reach_status s v"
  shows "\<exists>w t n. IssuerStatus_DeepCopyInto ml s i q = Some (t @ n) \<and> put_status_at s q w = Some t \<and>
           view_status (t @ n) w = Some d \<and> reach_status (t @ n) w \<subseteq> {length s..<length (t @ n)}"
proof -
  obtain t where t: "put_status_at s q v = Some t" using status_var.put_defined [OF q(1)] by blast
  obtain c where tc: "t = s[inner_base q := c]" and qs: "inner_base q < length s"
    using status_var.put_frame [OF t] by blast
  have li: "load_status t i = Some v" using i(1) q(2) by (simp add: tc status_var.load_update)
  show ?thesis
  proof (cases "hst_Conditions v")
    case None
    with i t li show ?thesis
      by (intro exI [of _ v] exI [of _ t] exI [of _ "[]"])
        (simp add: IssuerStatus_DeepCopyInto_def view_status_def reach_status_def)
  next
    case (Some sl)
    with i(2) obtain ds where ds: "view_slice conds_of view_cond s sl = Some ds"
      and d: "d = (False, \<lparr>is_Conditions = ds\<rparr>)"
      by (auto simp: view_status_def)
    define zs where "zs = replicate (sl_len sl) zero_cond"
    define made :: "'x cell" where "made = Conds zs"
    define w where "w = v\<lparr>hst_Conditions := Some (Slice (length t) (sl_len sl))\<rparr>"
    from status_var.put_over [OF t] obtain r where r: "put_status_at s q w = Some r"
        "put_status_at (t @ [made]) q w = Some (r @ [made])" by blast
    obtain c' where rc: "r = s[inner_base q := c']" using status_var.put_frame [OF r(1)] by blast
    have lr: "length t = length s" "length r = length s" by (simp_all add: tc rc)
    have lwq: "load_status (t @ [made]) q = Some v"
      using status_var.load_append [OF status_var.load_put [OF t]] .
    have "load_status r i = Some v" using i(1) q(2) by (simp add: rc status_var.load_update)
    then have lx: "load_status (r @ n) i = Some v" "load_status (r @ n) q = Some w" for n
      using status_var.load_put [OF r(1)] by (auto intro: status_var.load_append)
    have free: "inner_base q \<notin> reach_slice conds_of reach_cond s sl"
      using q(3) Some by (simp add: reach_status_def)
    note dr = conds_value.view_update [OF TrueI ds free, of c', folded rc]
      conds_value.reach_update [OF TrueI ds free, of c', folded rc]
    have dS: "view_slice conds_of view_cond (r @ [made]) sl = Some ds"
        "reach_slice conds_of reach_cond (r @ [made]) sl \<subseteq> {..<length r}"
      using conds_value.view_append [OF TrueI dr(1)] conds_value.reach_append [OF TrueI dr(1)]
        conds_value.reach_bound [OF TrueI dr(1)] by simp_all
    have "copy_condition ml i q j (r @ [Conds ws] @ n) =
            IssuerCondition_DeepCopyInto ml (r @ [Conds ws] @ n) (sl_array sl, j) (length r, j)"
      if "j < sl_len sl" for j ws n
      using lx [of "[Conds ws] @ n"] that Some lr by (simp add: copy_condition_def index_def w_def)
    with cond.copy_slice [OF lib, of "r @ [made]" r zs sl ds "copy_condition ml i q"] dS
    obtain x n where x: "for_range (copy_condition ml i q) [0..<sl_len sl] (r @ [made]) = Some x"
        "x = r @ n" "view_slice conds_of view_cond x (Slice (length r) (sl_len sl)) = Some ds"
        "reach_slice conds_of reach_cond x (Slice (length r) (sl_len sl)) \<subseteq> {length r..<length x}"
      by (auto simp: made_def zs_def)
    have "IssuerStatus_DeepCopyInto ml s i q = Some (r @ n)"
      using i(1) t li Some r(2) lwq x(1,2)
      by (simp add: IssuerStatus_DeepCopyInto_def alloc_def zs_def [symmetric] made_def [symmetric]
            w_def [symmetric])
    moreover have "view_status (r @ n) w = Some d" "reach_status (r @ n) w \<subseteq> {length s..<length (r @ n)}"
      using x lr by (simp_all add: view_status_def reach_status_def w_def d)
    ultimately show ?thesis using r(1) by blast
  qed
qed

interpretation status: copier load_status put_status_at inner_base "metalib_ok ml mv mr" view_status
    reach_status "IssuerStatus_DeepCopyInto ml"
  by (intro copier.intro status_var.variable_axioms deep_value_when [OF status_value.deep_value_axioms])
    (unfold_locales, rule status_into_copies)

section \<open>Issuers and cluster issuers\<close>

text \<open>The two copy functions are one, up to the type of the pointers.\<close>

definition object_into ::
    "object_kind \<Rightarrow> 'x metalib \<Rightarrow> 'x store \<Rightarrow> loc \<Rightarrow> loc \<Rightarrow> 'x store option" where
  "object_into k ml s i q = do {
     v \<leftarrow> load_object s (k, i);
     s \<leftarrow> put_object s (k, q) v;
     v \<leftarrow> load_object s (k, i);
     w \<leftarrow> load_object s (k, q);
     s \<leftarrow> put_object s (k, q) (w\<lparr>ho_TypeMeta := ho_TypeMeta v\<rparr>);
     v \<leftarrow> load_object s (k, i);
     let (m, s) = ml_ObjectMeta ml s (ho_ObjectMeta v);
     w \<leftarrow> load_object s (k, q);
     s \<leftarrow> put_object s (k, q) (w\<lparr>ho_ObjectMeta := m\<rparr>);
     s \<leftarrow> IssuerSpec_DeepCopyInto s (Of (k, i)) (Of (k, q));
     IssuerStatus_DeepCopyInto ml s (Of (k, i)) (Of (k, q)) }"

lemma Issuer_DeepCopyInto_eq: "Issuer_DeepCopyInto ml = object_into KIssuer ml"
  by (intro ext) (simp add: Issuer_DeepCopyInto_def object_into_def)

lemma ClusterIssuer_DeepCopyInto_eq: "ClusterIssuer_DeepCopyInto ml = object_into KClusterIssuer ml"
  by (intro ext) (simp add: ClusterIssuer_DeepCopyInto_def object_into_def)

lemma load_of_object [simp]:
  "load_spec s (Of (k, l)) = map_option ho_Spec (load_object s (k, l))"
  "load_status s (Of (k, l)) = map_option ho_Status (load_object s (k, l))"
  "inner_base (Of (k, l)) = fst l"
  by (simp_all add: load_spec_def load_status_def inner_base_def)

lemma put_of_object:
  "load_object s (k, l) = Some w \<Longrightarrow>
     put_spec s (Of (k, l)) sp = put_object s (k, l) (w\<lparr>ho_Spec := sp\<rparr>)"
  "load_object s (k, l) = Some w \<Longrightarrow>
     put_status_at s (Of (k, l)) st = put_object s (k, l) (w\<lparr>ho_Status := st\<rparr>)"
  by (simp_all add: put_spec_def put_status_at_def)

lemma nth_tail:
  "length u = length u' \<Longrightarrow> length u \<le> a \<Longrightarrow> a < length u + length n \<Longrightarrow> (u @ n @ n') ! a = (u' @ n) ! a"
proof -
  assume *: "length u = length u'" "length u \<le> a" "a < length u + length n"
  then have "a - length u' < length n" by arith
  with * show ?thesis by (simp add: nth_append)
qed

text \<open>A write to another object leaves the parts of an object readable.\<close>

lemma object_parts_kept:
  assumes lib: "metalib_ok ml mv mr" and v: "view_object mv s v = Some d"
    and a: "a \<notin> reach_object mr s v"
  shows "mv (s[a := c] @ n) (om_Rest (ho_ObjectMeta v)) = Some (ov_Meta d)"
    and "view_spec (s[a := c] @ n) (ho_Spec v) = Some (ov_Spec d)"
    and "reach_spec (s[a := c] @ n) (ho_Spec v) = reach_spec s (ho_Spec v)"
    and "view_status (s[a := c] @ n) (ho_Status v) = Some (ov_Status d)"
    and "reach_status (s[a := c] @ n) (ho_Status v) = reach_status s (ho_Status v)"
proof -
  note m = meta_laws [OF lib]
  from v have parts: "mv s (om_Rest (ho_ObjectMeta v)) = Some (ov_Meta d)"
      "view_spec s (ho_Spec v) = Some (ov_Spec d)" "view_status s (ho_Status v) = Some (ov_Status d)"
    by (auto elim!: view_objectE)
  from a have free: "a \<notin> mr s (om_Rest (ho_ObjectMeta v))" "a \<notin> reach_spec s (ho_Spec v)"
      "a \<notin> reach_status s (ho_Status v)"
    by (auto simp: reach_object_def)
  show "mv (s[a := c] @ n) (om_Rest (ho_ObjectMeta v)) = Some (ov_Meta d)"
    by (rule m(1)) (rule m(3) [OF parts(1) free(1)])
  note sp = spec_value.view_update [OF TrueI parts(2) free(2), of c]
    spec_value.reach_update [OF TrueI parts(2) free(2), of c]
  show "view_spec (s[a := c] @ n) (ho_Spec v) = Some (ov_Spec d)"
    by (rule spec_value.view_append [OF TrueI sp(1)])
  show "reach_spec (s[a := c] @ n) (ho_Spec v) = reach_spec s (ho_Spec v)"
    using spec_value.reach_append [OF TrueI sp(1)] sp(2) by simp
  note st = status_value.view_update [OF TrueI parts(3) free(3), of c]
    status_value.reach_update [OF TrueI parts(3) free(3), of c]
  show "view_status (s[a := c] @ n) (ho_Status v) = Some (ov_Status d)"
    by (rule status_value.view_append [OF TrueI st(1)])
  show "reach_status (s[a := c] @ n) (ho_Status v) = reach_status s (ho_Status v)"
    using status_value.reach_append [OF TrueI st(1)] st(2) by simp
qed

lemma object_into_copies:
  fixes s :: "'x store"
  assumes lib: "metalib_ok ml mv mr"
    and i: "load_object s (k, i) = Some v" "view_object mv s v = Some d"
    and q: "load_object s (k, q) = Some u" "fst i \<noteq> fst q" "fst q \<notin> reach_object mr s v"
  shows "\<exists>w t n. object_into k ml s i q = Some (t @ n) \<and> put_object s (k, q) w = Some t \<and>
           view_object mv (t @ n) w = Some d \<and> reach_object mr (t @ n) w \<subseteq> {length s..<length (t @ n)}"
proof -
  note ov = object_var.load_put_append object_var.load_put_other [OF _ q(2) i(1)] object_var.put_length
  have keep: "mv (x @ n) (om_Rest (ho_ObjectMeta v)) = Some (ov_Meta d)"
      "view_spec (x @ n) (ho_Spec v) = Some (ov_Spec d)"
      "reach_spec (x @ n) (ho_Spec v) = reach_spec s (ho_Spec v)"
      "view_status (x @ n) (ho_Status v) = Some (ov_Status d)"
      "reach_status (x @ n) (ho_Status v) = reach_status s (ho_Status v)"
    if "put_object s (k, q) w = Some x" for w x n
    using object_var.put_frame [OF that] object_parts_kept [OF lib i(2) q(3)] by auto
  have free: "fst q \<notin> reach_spec s (ho_Spec v)" "fst q \<notin> reach_status s (ho_Status v)"
    using q(3) by (auto simp: reach_object_def)
  \<comment> \<open>the struct, then the metadata\<close>
  obtain u1 where u1: "put_object s (k, q) v = Some u1" using object_var.put_defined [OF q(1)] by blast
  note u1' = ov(1) [OF u1, of "[]"] ov(2) [OF u1, of "[]"] object_var.put_again [OF u1] keep(1) [OF u1, of "[]"]
  obtain m s' where copy: "ml_ObjectMeta ml u1 (ho_ObjectMeta v) = (m, s')"
    by (cases "ml_ObjectMeta ml u1 (ho_ObjectMeta v)")
  note meta = ObjectMeta_copy [OF lib u1'(4) [simplified] copy]
  from meta(1) obtain n1 where n1: "s' = u1 @ n1" by auto
  define w2 where "w2 = v\<lparr>ho_ObjectMeta := m\<rparr>"
  from object_var.put_over [OF u1] obtain u2 where u2: "put_object s (k, q) w2 = Some u2"
      "put_object (u1 @ n1) (k, q) w2 = Some (u2 @ n1)" by blast
  \<comment> \<open>the specification\<close>
  have "\<exists>w t n. IssuerSpec_DeepCopyInto (u2 @ n1) (Of (k, i)) (Of (k, q)) = Some (t @ n) \<and>
          put_spec (u2 @ n1) (Of (k, q)) w = Some t \<and> view_spec (t @ n) w = Some (ov_Spec d) \<and>
          reach_spec (t @ n) w \<subseteq> {length (u2 @ n1)..<length (t @ n)}"
    by (rule spec.into_copies [where v = "ho_Spec v" and u = "ho_Spec w2"])
      (use ov(1) [OF u2(1)] ov(2) [OF u2(1)] keep(2,3) [OF u2(1)] q(2) free in simp_all)
  then obtain sp t3 n3 where sp: "IssuerSpec_DeepCopyInto (u2 @ n1) (Of (k, i)) (Of (k, q)) = Some (t3 @ n3)"
      "put_spec (u2 @ n1) (Of (k, q)) sp = Some t3" "view_spec (t3 @ n3) sp = Some (ov_Spec d)"
      "reach_spec (t3 @ n3) sp \<subseteq> {length (u2 @ n1)..<length (t3 @ n3)}" by blast
  define w3 where "w3 = w2\<lparr>ho_Spec := sp\<rparr>"
  have "put_object (u2 @ n1) (k, q) w3 = Some t3"
    using sp(2) put_of_object(1) [OF ov(1) [OF u2(1)]] by (simp add: w3_def)
  then obtain u3 where u3: "put_object s (k, q) w3 = Some u3" "t3 = u3 @ n1"
    by (rule object_var.put_through [OF u2(1)])
  \<comment> \<open>the status\<close>
  have "\<exists>w t n. IssuerStatus_DeepCopyInto ml (u3 @ n1 @ n3) (Of (k, i)) (Of (k, q)) = Some (t @ n) \<and>
          put_status_at (u3 @ n1 @ n3) (Of (k, q)) w = Some t \<and> view_status (t @ n) w = Some (ov_Status d) \<and>
          reach_status (t @ n) w \<subseteq> {length (u3 @ n1 @ n3)..<length (t @ n)}"
    by (rule status.into_copies [OF lib, where v = "ho_Status v" and u = "ho_Status w3"])
      (use ov(1) [OF u3(1)] ov(2) [OF u3(1)] keep(4,5) [OF u3(1)] q(2) free in simp_all)
  then obtain st t4 n4 where st:
      "IssuerStatus_DeepCopyInto ml (u3 @ n1 @ n3) (Of (k, i)) (Of (k, q)) = Some (t4 @ n4)"
      "put_status_at (u3 @ n1 @ n3) (Of (k, q)) st = Some t4" "view_status (t4 @ n4) st = Some (ov_Status d)"
      "reach_status (t4 @ n4) st \<subseteq> {length (u3 @ n1 @ n3)..<length (t4 @ n4)}" by blast
  define w4 where "w4 = w3\<lparr>ho_Status := st\<rparr>"
  have "put_object (u3 @ n1 @ n3) (k, q) w4 = Some t4"
    using st(2) put_of_object(2) [OF ov(1) [OF u3(1)]] by (simp add: w4_def)
  then obtain u4 where u4: "put_object s (k, q) w4 = Some u4" "t4 = u4 @ n1 @ n3"
    by (rule object_var.put_through [OF u3(1)])
  \<comment> \<open>together\<close>
  note lengths = ov(3) [OF u1] ov(3) [OF u2(1)] ov(3) [OF u3(1)] ov(3) [OF u4(1)]
  define F where "F = u4 @ n1 @ n3 @ n4"
  have "object_into k ml s i q = Some F"
    using i(1) u1 u1' copy n1 u2 ov(1) [OF u1] sp(1) u3(2) st(1) u4(2)
    by (simp add: object_into_def w2_def F_def)
  moreover have "mv F (om_Rest m) = Some (ov_Meta d) \<and> mr F (om_Rest m) = mr (u1 @ n1) (om_Rest m)"
    by (rule meta_value.view_agree [OF lib meta(4) [unfolded n1]])
      (use meta(5) lengths nth_tail [of u4 u1 _ n1 "n3 @ n4"] in \<open>auto simp: n1 F_def\<close>)
  moreover have "view_spec F sp = Some (ov_Spec d) \<and> reach_spec F sp = reach_spec (t3 @ n3) sp"
    by (rule spec_value.view_agree [OF TrueI sp(3)])
      (use sp(4) lengths nth_tail [of u4 u3 _ "n1 @ n3" n4] in \<open>auto simp: u3(2) F_def\<close>)
  moreover have "view_status F st = Some (ov_Status d)" "reach_status F st \<subseteq> {length s..<length F}"
    using st(3,4) lengths by (auto simp: F_def u4(2))
  moreover have "ho_ObjectMeta w4 = m" "ho_Spec w4 = sp" "ho_Status w4 = st" "ho_TypeMeta w4 = ho_TypeMeta v"
    by (simp_all add: w4_def w3_def w2_def)
  ultimately have "object_into k ml s i q = Some F" "view_object mv F w4 = Some d"
      "reach_object mr F w4 \<subseteq> {length s..<length F}"
    using i(2) meta(2,3,5) sp(4) lengths
    by (auto simp: view_object_def reach_object_def bind_eq_Some_conv n1 u3(2) F_def)
  then show ?thesis using u4(1) unfolding F_def by blast
qed

end
