(* ===== verification/DeepCopyLists.thy ===== *)
theory DeepCopyLists
  imports DeepCopyProps
begin

text \<open>
  The copies of \<open>IssuerList\<close> and \<open>ClusterIssuerList\<close> keep the contract \<open>copier\<close>, and \<open>DeepCopy\<close>
  of every type makes a fresh copy.
\<close>

section \<open>Lists\<close>

interpretation object: element_copier "\<lambda>s l. load_object s (k, l)" "\<lambda>s l. put_object s (k, l)" fst
    "metalib_ok ml mv mr" "view_object mv" "reach_object mr" "object_into k ml"
    "Objects k" "objects_of k" "\<lambda>l. l"
proof (intro element_copier.intro copier.intro)
  show "variable (\<lambda>s l. load_object s (k, l)) (\<lambda>s l. put_object s (k, l)) fst"
    by (rule object_var.variable_axioms)
  show "deep_value (metalib_ok ml mv mr) (view_object mv) (reach_object mr)"
    by (rule object_value.deep_value_axioms)
  show "copier_axioms (\<lambda>s l. load_object s (k, l)) (\<lambda>s l. put_object s (k, l)) fst
      (metalib_ok ml mv mr) (view_object mv) (reach_object mr) (object_into k ml)"
    by unfold_locales (rule object_into_copies)
  show "element_copier_axioms (\<lambda>s l. load_object s (k, l)) (\<lambda>s l. put_object s (k, l)) fst
      (Objects k) (objects_of k) (\<lambda>l. l)"
    by unfold_locales (simp_all add: load_object_def put_object_def)
qed

definition copy_item ::
    "object_kind \<Rightarrow> 'x metalib \<Rightarrow> loc \<Rightarrow> loc \<Rightarrow> nat \<Rightarrow> 'x store \<Rightarrow> 'x store option" where
  "copy_item k ml i q n s = do {
     v \<leftarrow> load_list s (k, i);
     w \<leftarrow> load_list s (k, q);
     src \<leftarrow> hl_Items v;
     dst \<leftarrow> hl_Items w;
     p \<leftarrow> index src n;
     q \<leftarrow> index dst n;
     object_into k ml s p q }"

definition list_into ::
    "object_kind \<Rightarrow> 'x metalib \<Rightarrow> 'x store \<Rightarrow> loc \<Rightarrow> loc \<Rightarrow> 'x store option" where
  "list_into k ml s i q = do {
     v \<leftarrow> load_list s (k, i);
     s \<leftarrow> put_list s (k, q) v;
     v \<leftarrow> load_list s (k, i);
     w \<leftarrow> load_list s (k, q);
     s \<leftarrow> put_list s (k, q) (w\<lparr>hl_TypeMeta := hl_TypeMeta v\<rparr>);
     v \<leftarrow> load_list s (k, i);
     let (m, s) = ml_ListMeta ml s (hl_ListMeta v);
     w \<leftarrow> load_list s (k, q);
     s \<leftarrow> put_list s (k, q) (w\<lparr>hl_ListMeta := m\<rparr>);
     v \<leftarrow> load_list s (k, i);
     case hl_Items v of
       None \<Rightarrow> Some s
     | Some sl \<Rightarrow> do {
         let (a, s) = alloc (Objects k (replicate (sl_len sl) (zero_object ml))) s;
         w \<leftarrow> load_list s (k, q);
         s \<leftarrow> put_list s (k, q) (w\<lparr>hl_Items := Some (Slice a (sl_len sl))\<rparr>);
         for_range (copy_item k ml i q) [0..<sl_len sl] s } }"

lemma IssuerList_DeepCopyInto_eq: "IssuerList_DeepCopyInto ml = list_into KIssuer ml"
proof -
  have items: "copy_Issuer_item ml = copy_item KIssuer ml"
    by (intro ext) (simp add: copy_Issuer_item_def copy_item_def Issuer_DeepCopyInto_eq)
  show ?thesis by (intro ext) (unfold IssuerList_DeepCopyInto_def list_into_def items, rule refl)
qed

lemma ClusterIssuerList_DeepCopyInto_eq: "ClusterIssuerList_DeepCopyInto ml = list_into KClusterIssuer ml"
proof -
  have items: "copy_ClusterIssuer_item ml = copy_item KClusterIssuer ml"
    by (intro ext) (simp add: copy_ClusterIssuer_item_def copy_item_def ClusterIssuer_DeepCopyInto_eq)
  show ?thesis by (intro ext) (unfold ClusterIssuerList_DeepCopyInto_def list_into_def items, rule refl)
qed

lemma view_listE:
  assumes "view_list mv k s v = Some d"
  obtains "mv s (hl_ListMeta v) = Some (lv_Meta d)" "lv_TypeMeta d = hl_TypeMeta v"
    "(case hl_Items v of None \<Rightarrow> lv_Items d = None
      | Some sl \<Rightarrow> \<exists>ds. lv_Items d = Some ds \<and> view_slice (objects_of k) (view_object mv) s sl = Some ds)"
  using assms by (auto simp: view_list_def bind_eq_Some_conv split: option.splits)

lemma list_into_copies:
  fixes s :: "'x store"
  assumes lib: "metalib_ok ml mv mr"
    and i: "load_list s (k, i) = Some v" "view_list mv k s v = Some d"
    and q: "load_list s (k, q) = Some u" "fst i \<noteq> fst q" "fst q \<notin> reach_list mr k s v"
  shows "\<exists>w t n. list_into k ml s i q = Some (t @ n) \<and> put_list s (k, q) w = Some t \<and>
           view_list mv k (t @ n) w = Some d \<and> reach_list mr k (t @ n) w \<subseteq> {length s..<length (t @ n)}"
proof -
  note lv = list_var.load_put_append list_var.load_put_other [OF _ q(2) i(1)] list_var.put_length
  from i(2) have parts: "mv s (hl_ListMeta v) = Some (lv_Meta d)" "lv_TypeMeta d = hl_TypeMeta v"
      "(case hl_Items v of None \<Rightarrow> lv_Items d = None
        | Some sl \<Rightarrow> \<exists>ds. lv_Items d = Some ds \<and> view_slice (objects_of k) (view_object mv) s sl = Some ds)"
    by (auto elim: view_listE)
  obtain u1 where u1: "put_list s (k, q) v = Some u1" using list_var.put_defined [OF q(1)] by blast
  have "mv u1 (hl_ListMeta v) = Some (lv_Meta d)"
    using list_var.put_frame [OF u1] meta_laws(3) [OF lib parts(1)] q(3) by (auto simp: reach_list_def)
  note u1' = lv(1) [OF u1, of "[]"] lv(2) [OF u1, of "[]"] list_var.put_again [OF u1] this
  obtain m s' where copy: "ml_ListMeta ml u1 (hl_ListMeta v) = (m, s')"
    by (cases "ml_ListMeta ml u1 (hl_ListMeta v)")
  note meta = ListMeta_copy [OF lib u1'(4) copy]
  from meta(1) obtain n1 where n1: "s' = u1 @ n1" by auto
  define w2 where "w2 = v\<lparr>hl_ListMeta := m\<rparr>"
  from list_var.put_over [OF u1] obtain u2 where u2: "put_list s (k, q) w2 = Some u2"
      "put_list (u1 @ n1) (k, q) w2 = Some (u2 @ n1)" by blast
  note lengths = lv(3) [OF u1] lv(3) [OF u2(1)]
  have mF: "mv (x @ n1 @ n) m = Some (lv_Meta d) \<and> mr (x @ n1 @ n) m \<subseteq> {length s..<length (x @ n1 @ n)}"
    if "length x = length s" for x n
  proof -
    have "mv (x @ n1 @ n) m = Some (lv_Meta d) \<and> mr (x @ n1 @ n) m = mr (u1 @ n1) m"
      by (rule meta_value.view_agree [OF lib meta(2) [unfolded n1]])
        (use meta(3) lengths that nth_tail [of x u1 _ n1 n] in \<open>auto simp: n1\<close>)
    with meta(3) lengths that show ?thesis by (auto simp: n1)
  qed
  show ?thesis
  proof (cases "hl_Items v")
    case None
    then have "list_into k ml s i q = Some (u2 @ n1)"
      using i(1) u1 u1' copy n1 u2 lv(1) [OF u1] lv(2) [OF u2(1)]
      by (simp add: list_into_def w2_def)
    moreover have "view_list mv k (u2 @ n1) w2 = Some d"
        "reach_list mr k (u2 @ n1) w2 \<subseteq> {length s..<length (u2 @ n1)}"
      using None parts mF [of u2 "[]"] lengths by (simp_all add: view_list_def reach_list_def w2_def)
    ultimately show ?thesis using u2(1) by blast
  next
    case (Some sl)
    with parts(3) obtain ds where ds: "view_slice (objects_of k) (view_object mv) s sl = Some ds"
      and items: "lv_Items d = Some ds" by auto
    define zs where "zs = replicate (sl_len sl) (zero_object ml)"
    define made where "made = Objects k zs"
    define w3 where "w3 = w2\<lparr>hl_Items := Some (Slice (length (u2 @ n1)) (sl_len sl))\<rparr>"
    from list_var.put_over [OF u2(1)] obtain u3 where u3: "put_list s (k, q) w3 = Some u3"
        "put_list (u2 @ n1 @ [made]) (k, q) w3 = Some (u3 @ n1 @ [made])" by blast
    obtain c where c: "u3 = s[fst q := c]" using list_var.put_frame [OF u3(1)] by blast
    define r where "r = u3 @ n1"
    have lr: "length r = length (u2 @ n1)" "length u3 = length s" using lengths by (simp_all add: r_def c)
    have free: "fst q \<notin> reach_slice (objects_of k) (reach_object mr) s sl"
      using q(3) Some by (simp add: reach_list_def)
    note dr = objects_value.view_update [OF lib ds free, of c, folded c]
      objects_value.reach_update [OF lib ds free, of c, folded c]
    have dS: "view_slice (objects_of k) (view_object mv) (r @ [made]) sl = Some ds"
        "reach_slice (objects_of k) (reach_object mr) (r @ [made]) sl \<subseteq> {..<length r}"
      using objects_value.view_append [OF lib dr(1), of "n1 @ [made]"]
        objects_value.reach_append [OF lib dr(1), of "n1 @ [made]"]
        objects_value.reach_bound [OF lib dr(1)] by (auto simp: r_def)
    have "copy_item k ml i q j (r @ [Objects k ws] @ n) =
            object_into k ml (r @ [Objects k ws] @ n) (sl_array sl, j) (length r, j)"
      if "j < sl_len sl" for j ws n
      using lv(1) [OF u3(1), of "n1 @ [Objects k ws] @ n"] lv(2) [OF u3(1), of "n1 @ [Objects k ws] @ n"]
        that Some lr(1) by (simp add: copy_item_def index_def w3_def r_def)
    with object.copy_slice [OF lib, of "r @ [made]" r k zs sl ds "copy_item k ml i q"] dS
    obtain x n where x: "for_range (copy_item k ml i q) [0..<sl_len sl] (r @ [made]) = Some x"
        "x = r @ n" "view_slice (objects_of k) (view_object mv) x (Slice (length r) (sl_len sl)) = Some ds"
        "reach_slice (objects_of k) (reach_object mr) x (Slice (length r) (sl_len sl)) \<subseteq> {length r..<length x}"
      by (auto simp: made_def zs_def)
    have "list_into k ml s i q = Some (u3 @ n1 @ n)"
      using i(1) u1 u1' copy n1 u2 lv(1) [OF u1] lv(2) [OF u2(1), of n1] lv(1) [OF u2(1), of "n1 @ [made]"]
        Some u3(2) x(1,2)
      by (simp add: list_into_def w2_def [symmetric] alloc_def zs_def [symmetric] made_def [symmetric]
            w3_def [symmetric, simplified] r_def)
    moreover have "view_list mv k (u3 @ n1 @ n) w3 = Some d"
        "reach_list mr k (u3 @ n1 @ n) w3 \<subseteq> {length s..<length (u3 @ n1 @ n)}"
      using x(2-4) mF [OF lr(2), of n] parts(2) items lr
      by (auto simp: view_list_def reach_list_def w3_def w2_def r_def)
    ultimately show ?thesis using u3(1) by blast
  qed
qed

interpretation lists: copier "\<lambda>s l. load_list s (k, l)" "\<lambda>s l. put_list s (k, l)" fst
    "metalib_ok ml mv mr" "view_list mv k" "reach_list mr k" "list_into k ml"
  by (intro copier.intro list_var.variable_axioms list_value.deep_value_axioms)
    (unfold_locales, rule list_into_copies)

section \<open>DeepCopy\<close>

text \<open>What is read through a pointer, and the arrays it is read from.\<close>

definition read_object ::
    "('x store \<Rightarrow> 'x \<Rightarrow> 'v option) \<Rightarrow> object_kind \<Rightarrow> 'x store \<Rightarrow> loc \<Rightarrow> 'v object_view option" where
  "read_object mv k s p = do { v \<leftarrow> load_object s (k, p); view_object mv s v }"

definition object_arrays ::
    "('x store \<Rightarrow> 'x \<Rightarrow> addr set) \<Rightarrow> object_kind \<Rightarrow> 'x store \<Rightarrow> loc \<Rightarrow> addr set" where
  "object_arrays mr k s p = insert (fst p)
     (case load_object s (k, p) of None \<Rightarrow> {} | Some v \<Rightarrow> reach_object mr s v)"

definition read_list ::
    "('x store \<Rightarrow> 'x \<Rightarrow> 'v option) \<Rightarrow> object_kind \<Rightarrow> 'x store \<Rightarrow> loc \<Rightarrow> 'v list_view option" where
  "read_list mv k s p = do { v \<leftarrow> load_list s (k, p); view_list mv k s v }"

definition list_arrays ::
    "('x store \<Rightarrow> 'x \<Rightarrow> addr set) \<Rightarrow> object_kind \<Rightarrow> 'x store \<Rightarrow> loc \<Rightarrow> addr set" where
  "list_arrays mr k s p = insert (fst p)
     (case load_list s (k, p) of None \<Rightarrow> {} | Some v \<Rightarrow> reach_list mr k s v)"

definition read_status :: "'x store \<Rightarrow> inner_ptr \<Rightarrow> (bool \<times> issuer_status) option" where
  "read_status s p = do { v \<leftarrow> load_status s p; view_status s v }"

definition status_arrays :: "'x store \<Rightarrow> inner_ptr \<Rightarrow> addr set" where
  "status_arrays s p = insert (inner_base p)
     (case load_status s p of None \<Rightarrow> {} | Some v \<Rightarrow> reach_status s v)"

text \<open>A reading stays the same as long as its arrays do.\<close>

lemma read_object_agree:
  assumes lib: "metalib_ok ml mv mr" and d: "read_object mv k s p = Some d"
    and l: "length s \<le> length s'" and a: "\<And>a. a < length s \<Longrightarrow> s' ! a = s ! a"
  shows "read_object mv k s' p = Some d"
proof -
  have "s' = s @ drop (length s) s'" using l a by (auto simp: nth_append intro!: nth_equalityI)
  moreover from d obtain v where v: "load_object s (k, p) = Some v" "view_object mv s v = Some d"
    by (auto simp: read_object_def bind_eq_Some_conv)
  ultimately show ?thesis
    using object_var.load_append [OF v(1)] object_value.view_append [OF lib v(2)]
    by (metis (no_types, lifting) read_object_def bind.bind_lunit)
qed

lemma new_var_object: "load_object (s @ [Objects k [v]]) (k, (length s, 0)) = Some v"
  by (simp add: load_object_def load_elem_iff)

lemma new_var_list: "load_list (s @ [Lists k [v]]) (k, (length s, 0)) = Some v"
  by (simp add: load_list_def load_elem_iff)

lemma object_copy:
  fixes s :: "'x store"
  assumes lib: "metalib_ok ml mv mr" and d: "read_object mv k s p = Some d"
  shows "\<exists>n. object_into k ml (s @ [Objects k [zero_object ml]]) p (length s, 0) = Some (s @ n) \<and>
           read_object mv k (s @ n) (length s, 0) = Some d \<and>
           object_arrays mr k (s @ n) (length s, 0) \<subseteq> {length s..<length (s @ n)}"
proof -
  from d obtain v where v: "load_object s (k, p) = Some v" "view_object mv s v = Some d"
    by (auto simp: read_object_def bind_eq_Some_conv)
  from object.copy_fresh [OF lib v fst_conv new_var_object, of "zero_object ml"]
  obtain w n where w: "object_into k ml (s @ [Objects k [zero_object ml]]) p (length s, 0) = Some (s @ n)"
      "load_object (s @ n) (k, (length s, 0)) = Some w" "view_object mv (s @ n) w = Some d"
      "reach_object mr (s @ n) w \<subseteq> {length s..<length (s @ n)}"
    by auto
  then show ?thesis
    using object_var.load_bound [OF w(2)]
    by (intro exI [of _ n]) (simp add: read_object_def object_arrays_def)
qed

lemma list_copy:
  fixes s :: "'x store"
  assumes lib: "metalib_ok ml mv mr" and d: "read_list mv k s p = Some d"
  shows "\<exists>n. list_into k ml (s @ [Lists k [zero_list ml]]) p (length s, 0) = Some (s @ n) \<and>
           read_list mv k (s @ n) (length s, 0) = Some d \<and>
           list_arrays mr k (s @ n) (length s, 0) \<subseteq> {length s..<length (s @ n)}"
proof -
  from d obtain v where v: "load_list s (k, p) = Some v" "view_list mv k s v = Some d"
    by (auto simp: read_list_def bind_eq_Some_conv)
  from lists.copy_fresh [OF lib v fst_conv new_var_list, of "zero_list ml"]
  obtain w n where w: "list_into k ml (s @ [Lists k [zero_list ml]]) p (length s, 0) = Some (s @ n)"
      "load_list (s @ n) (k, (length s, 0)) = Some w" "view_list mv k (s @ n) w = Some d"
      "reach_list mr k (s @ n) w \<subseteq> {length s..<length (s @ n)}"
    by auto
  then show ?thesis
    using list_var.load_bound [OF w(2)]
    by (intro exI [of _ n]) (simp add: read_list_def list_arrays_def)
qed

text \<open>\<open>DeepCopyObject\<close> of each kind, for a pointer and for nil.\<close>

lemmas object_copy_defs = Issuer_DeepCopyObject_def Issuer_DeepCopy_def Issuer_DeepCopyInto_eq
  ClusterIssuer_DeepCopyObject_def ClusterIssuer_DeepCopy_def ClusterIssuer_DeepCopyInto_eq
  IssuerList_DeepCopyObject_def IssuerList_DeepCopy_def IssuerList_DeepCopyInto_eq
  ClusterIssuerList_DeepCopyObject_def ClusterIssuerList_DeepCopy_def
  ClusterIssuerList_DeepCopyInto_eq new_var_def

end
