(* ===== verification/HeapIssuer.thy ===== *)
theory HeapIssuer
  imports DeepCopyLists IssuerUtil
begin

text \<open>
  \<open>SetReadyCondition\<close> of \<open>internal/issuer/util/util.go\<close> in the memory of the process: the status
  is changed through a pointer, the new condition is appended in place or into a new array, and
  the loop writes into the array the status has. \<open>IssuerUtil\<close> has the same function on values;
  here it is shown what the one on memory changes, and that it computes the one on values.
\<close>

text \<open>
  \<open>GetReadyCondition\<close> returns the address of its loop variable, a variable of its own that holds
  a copy of the condition.
\<close>

definition GetReadyCondition_at :: "'x store \<Rightarrow> inner_ptr \<Rightarrow> (loc option \<times> 'x store) option" where
  "GetReadyCondition_at s p = do {
     st \<leftarrow> load_status s p;
     cs \<leftarrow> (case hst_Conditions st of None \<Rightarrow> Some [] | Some sl \<Rightarrow> slice_elems conds_of s sl);
     Some (case find (\<lambda>c. hc_Type c = IssuerConditionReady) cs of
             None \<Rightarrow> (None, s)
           | Some c \<Rightarrow> (let (q, s) = new_var Conds c s in (Some q, s))) }"

text \<open>
  The built-in \<open>append\<close> of one condition: into the array when it has room, and otherwise into a
  new array, of which the language leaves the spare room (\<open>grow\<close>) to the implementation.
\<close>

definition append_cond ::
    "(nat \<Rightarrow> nat) \<Rightarrow> 'x store \<Rightarrow> slice option \<Rightarrow> heap_condition \<Rightarrow> (slice \<times> 'x store) option" where
  "append_cond grow s xs c = (case xs of
     None \<Rightarrow> Some (Slice (length s) 1, s @ [Conds (c # replicate (grow 0) zero_cond)])
   | Some sl \<Rightarrow> do {
       cell \<leftarrow> cell_at s (sl_array sl);
       cs \<leftarrow> conds_of cell;
       if sl_len sl < length cs
       then Some (Slice (sl_array sl) (Suc (sl_len sl)), s[sl_array sl := Conds (cs[sl_len sl := c])])
       else Some (Slice (length s) (Suc (sl_len sl)),
                  s @ [Conds (cs @ c # replicate (grow (sl_len sl)) zero_cond)]) })"

text \<open>
  The three steps of \<open>SetReadyCondition\<close>: the variable \<open>ready\<close> and the slice that holds such a
  condition, the new contents of the variable, and the loop, in which the first Ready condition
  of the slice is overwritten.
\<close>

definition obtain_ready :: "(nat \<Rightarrow> nat) \<Rightarrow> 'x store \<Rightarrow> inner_ptr \<Rightarrow> (loc \<times> 'x store) option" where
  "obtain_ready grow s p = do {
     (found, s) \<leftarrow> GetReadyCondition_at s p;
     case found of
       Some q \<Rightarrow> Some (q, s)
     | None \<Rightarrow> do {
         let (q, s) = new_var Conds (zero_cond\<lparr>hc_Type := IssuerConditionReady\<rparr>) s;
         st \<leftarrow> load_status s p;
         c \<leftarrow> load_cond s q;
         (xs, s) \<leftarrow> append_cond grow s (hst_Conditions st) c;
         st \<leftarrow> load_status s p;
         s \<leftarrow> put_status_at s p (st\<lparr>hst_Conditions := Some xs\<rparr>);
         Some (q, s) } }"

definition change_status :: "'x store \<Rightarrow> loc \<Rightarrow> go_time \<Rightarrow> string \<Rightarrow> 'x store option" where
  "change_status s ready now conditionStatus = do {
     c \<leftarrow> load_cond s ready;
     if hc_Status c \<noteq> conditionStatus
     then do {
       s \<leftarrow> put_cond s ready (c\<lparr>hc_Status := conditionStatus\<rparr>);
       let (t, s) = new_var Times now s;
       c \<leftarrow> load_cond s ready;
       put_cond s ready (c\<lparr>hc_LastTransitionTime := Some t\<rparr>) }
     else Some s }"

definition update_ready ::
    "'x store \<Rightarrow> loc \<Rightarrow> go_time \<Rightarrow> string \<Rightarrow> string \<Rightarrow> string \<Rightarrow> 'x store option" where
  "update_ready s ready now conditionStatus reason message = do {
     s \<leftarrow> change_status s ready now conditionStatus;
     c \<leftarrow> load_cond s ready;
     s \<leftarrow> put_cond s ready (c\<lparr>hc_Reason := reason\<rparr>);
     c \<leftarrow> load_cond s ready;
     put_cond s ready (c\<lparr>hc_Message := message\<rparr>) }"

fun write_back :: "inner_ptr \<Rightarrow> loc \<Rightarrow> slice \<Rightarrow> nat list \<Rightarrow> 'x store \<Rightarrow> 'x store option" where
  "write_back p ready xs [] s = Some s"
| "write_back p ready xs (i # is) s = do {
     l \<leftarrow> index xs i;
     c \<leftarrow> load_cond s l;
     if hc_Type c = IssuerConditionReady
     then do {
       st \<leftarrow> load_status s p;
       ys \<leftarrow> hst_Conditions st;
       l' \<leftarrow> index ys i;
       rc \<leftarrow> load_cond s ready;
       put_cond s l' rc }
     else write_back p ready xs is s }"

definition SetReadyCondition_at ::
    "(nat \<Rightarrow> nat) \<Rightarrow> 'x store \<Rightarrow> inner_ptr \<Rightarrow> go_time \<Rightarrow> string \<Rightarrow> string \<Rightarrow> string \<Rightarrow> 'x store option" where
  "SetReadyCondition_at grow s p now conditionStatus reason message = do {
     (ready, s) \<leftarrow> obtain_ready grow s p;
     s \<leftarrow> update_ready s ready now conditionStatus reason message;
     st \<leftarrow> load_status s p;
     case hst_Conditions st of
       None \<Rightarrow> Some s
     | Some xs \<Rightarrow> write_back p ready xs [0..<sl_len xs] s }"

section \<open>Arrays of times are never written\<close>

definition times_kept :: "'x store \<Rightarrow> 'x store \<Rightarrow> bool" where
  "times_kept s s' \<longleftrightarrow> (\<forall>a ts. cell_at s a = Some (Times ts) \<longrightarrow> cell_at s' a = Some (Times ts))"

lemma times_kept_refl [simp]: "times_kept s s"
  by (simp add: times_kept_def)

lemma times_kept_trans: "times_kept s t \<Longrightarrow> times_kept t u \<Longrightarrow> times_kept s u"
  by (simp add: times_kept_def)

lemma times_kept_append: "times_kept s (s @ n)"
  by (simp add: times_kept_def cell_at_append)

lemma times_kept_update: "cell_at s a = Some c \<Longrightarrow> times_of c = None \<Longrightarrow> times_kept s (s[a := c'])"
  unfolding times_kept_def by (metis cell_at_update option.inject option.simps(3) times_of.simps(1))

lemma load_time_kept: "times_kept s s' \<Longrightarrow> load_time s l = Some t \<Longrightarrow> load_time s' l = Some t"
proof -
  assume *: "times_kept s s'" "load_time s l = Some t"
  then obtain c ts where c: "cell_at s (fst l) = Some c" "times_of c = Some ts" "snd l < length ts" "t = ts ! snd l"
    by (auto simp: load_time_def load_elem_iff)
  then have "c = Times ts" by (cases c) auto
  with * c show ?thesis by (simp add: times_kept_def load_time_def load_elem_iff)
qed

lemma view_cond_kept: "times_kept s s' \<Longrightarrow> view_cond s c = Some d \<Longrightarrow> view_cond s' c = Some d"
  by (auto simp: view_cond_def bind_eq_Some_conv load_time_kept split: option.splits)

lemma view_conds_kept:
  "times_kept s s' \<Longrightarrow> list_all2 (\<lambda>c d. view_cond s c = Some d) cs ds \<Longrightarrow>
     list_all2 (\<lambda>c d. view_cond s' c = Some d) cs ds"
  by (erule list_all2_mono) (rule view_cond_kept)

lemma view_cond_Type: "view_cond s c = Some d \<Longrightarrow> ic_Type d = hc_Type c \<and> ic_Status d = hc_Status c"
  by (auto simp: view_cond_def bind_eq_Some_conv)

text \<open>The variable a status pointer points to holds no conditions and no times.\<close>

lemma status_base:
  assumes "load_status s p = Some st"
  obtains c where "cell_at s (inner_base p) = Some c" "times_of c = None" "conds_of c = None"
proof (cases p)
  case (At l)
  with assms obtain c vs where c: "cell_at s (fst l) = Some c" "statuses_of c = Some vs"
    by (auto simp: load_status_def load_elem_iff)
  then have "times_of c = None" "conds_of c = None" by (cases c; simp)+
  with c(1) At that show thesis by (simp add: inner_base_def)
next
  case (Of q)
  with assms obtain c vs where c: "cell_at s (fst (snd q)) = Some c" "objects_of (fst q) c = Some vs"
    by (auto simp: load_status_def load_object_def load_elem_iff)
  then have "times_of c = None" "conds_of c = None" by (cases c; simp)+
  with c(1) Of that show thesis by (simp add: inner_base_def)
qed

section \<open>The three steps\<close>

text \<open>The contents of \<open>ready\<close> after the second step; \<open>a\<close> is the address the new time gets.\<close>

definition updated_cond :: "addr \<Rightarrow> string \<Rightarrow> string \<Rightarrow> string \<Rightarrow> heap_condition \<Rightarrow> heap_condition" where
  "updated_cond a conditionStatus reason message c =
     (if hc_Status c \<noteq> conditionStatus
      then c\<lparr>hc_Status := conditionStatus, hc_LastTransitionTime := Some (a, 0)\<rparr> else c)
       \<lparr>hc_Reason := reason, hc_Message := message\<rparr>"

lemma load_cond_var: "cell_at s q = Some (Conds [c]) \<Longrightarrow> load_cond s (q, 0) = Some c"
  by (simp add: load_cond_def load_elem_iff)

lemma put_cond_var: "cell_at s q = Some (Conds [c]) \<Longrightarrow> put_cond s (q, 0) d = Some (s[q := Conds [d]])"
  by (simp add: put_cond_def put_elem_def)

lemma cell_at_set: "cell_at s q = Some c \<Longrightarrow> cell_at (s[q := d] @ n) q = Some d"
  by (auto simp: cell_at_def nth_append split: if_splits)

lemma update_ready_eq:
  assumes q: "cell_at s q = Some (Conds [c])"
  shows "update_ready s (q, 0) now cs r m =
     Some (s[q := Conds [updated_cond (length s) cs r m c]] @
           (if hc_Status c \<noteq> cs then [Times [now]] else []))"
proof -
  have set: "load_cond (s[q := Conds [d]] @ n) (q, 0) = Some d"
      "put_cond (s[q := Conds [d]] @ n) (q, 0) e = Some (s[q := Conds [e]] @ n)" for d e n
    using cell_at_set [OF q, of "Conds [d]" n] cell_at_bound [OF q]
    by (simp_all add: load_cond_var put_cond_var list_update_append1)
  show ?thesis
    using set [where n = "[]"] set [where n = "[Times [now]]"]
    by (simp add: update_ready_def change_status_def updated_cond_def load_cond_var [OF q] put_cond_var [OF q] new_var_def)
qed

text \<open>The loop finds the first Ready condition.\<close>

lemma write_back_first:
  assumes p: "load_status s p = Some st" "hst_Conditions st = Some xs"
    and ready: "load_cond s ready = Some rc"
    and xs: "slice_elems conds_of s xs = Some cs"
    and k: "k < sl_len xs" "hc_Type (cs ! k) = IssuerConditionReady"
      "\<And>j. j < k \<Longrightarrow> hc_Type (cs ! j) \<noteq> IssuerConditionReady"
  shows "write_back p ready xs [0..<sl_len xs] s = put_cond s (sl_array xs, k) rc"
proof -
  have load: "load_cond s (sl_array xs, j) = Some (cs ! j)" if "j < sl_len xs" for j
    using load_slice_elem [OF xs] slice_elems_length [OF xs] that by (simp add: load_cond_def)
  have "write_back p ready xs [i..<sl_len xs] s = put_cond s (sl_array xs, k) rc" if "i \<le> k" for i
    using that
  proof (induction "k - i" arbitrary: i)
    case 0
    then have "[i..<sl_len xs] = k # [Suc k..<sl_len xs]" using k(1) by (simp add: upt_conv_Cons)
    then show ?case using k p ready load [OF k(1)] by (simp add: index_def)
  next
    case (Suc m)
    then have i: "i < k" by simp
    then have "[i..<sl_len xs] = i # [Suc i..<sl_len xs]" using k(1) by (simp add: upt_conv_Cons)
    then show ?case using Suc i k load [of i] by (simp add: index_def)
  qed
  then show ?thesis by simp
qed

lemma write_ready_first:
  "k < length ds \<Longrightarrow> is_ready_cond (ds ! k) \<Longrightarrow> (\<And>j. j < k \<Longrightarrow> \<not> is_ready_cond (ds ! j)) \<Longrightarrow>
     write_ready r ds = ds[k := r]"
proof (induction ds arbitrary: k)
  case (Cons d ds)
  show ?case
  proof (cases k)
    case (Suc j)
    with Cons.prems(3) [of 0] Cons.prems(3) [of "Suc _"] Cons.prems(1,2) Cons.IH [of j] show ?thesis
      by fastforce
  qed (use Cons.prems in simp)
qed simp

text \<open>
  What the first step leaves: \<open>ready\<close> is the fresh variable at the old end of the store and holds
  a copy of the first Ready condition (element \<open>k\<close>) of the slice \<open>xs\<close>; the elements read as \<open>ds\<close>.
\<close>

definition obtained ::
    "'x store \<Rightarrow> inner_ptr \<Rightarrow> issuer_condition list \<Rightarrow> 'x store \<Rightarrow> slice \<Rightarrow> heap_condition list \<Rightarrow> nat \<Rightarrow> bool" where
  "obtained s p ds t xs us k \<longleftrightarrow>
     (\<exists>st. load_status t p = Some st \<and> hst_Conditions st = Some xs) \<and>
     cell_at t (sl_array xs) = Some (Conds us) \<and> sl_len xs \<le> length us \<and> sl_array xs \<noteq> length s \<and>
     cell_at t (length s) = Some (Conds [us ! k]) \<and>
     list_all2 (\<lambda>c d. view_cond t c = Some d) (take (sl_len xs) us) ds \<and>
     k < length ds \<and> is_ready_cond (ds ! k) \<and> (\<forall>j<k. \<not> is_ready_cond (ds ! j)) \<and>
     length s < length t \<and> (\<forall>a<length s. a \<notin> status_arrays s p \<longrightarrow> t ! a = s ! a) \<and>
     (sl_array xs \<in> status_arrays s p \<or> length s \<le> sl_array xs) \<and>
     (\<forall>c \<in> set (take (sl_len xs) us). reach_cond t c \<subseteq> status_arrays s p)"

lemma reach_cond_any: "reach_cond (s :: 'x store) c \<subseteq> A \<Longrightarrow> reach_cond (t :: 'x store) c \<subseteq> A"
  by (simp add: reach_cond_def)

text \<open>The conditions a status shows, nil slice or not.\<close>

definition status_elems :: "'x store \<Rightarrow> heap_status \<Rightarrow> heap_condition list option" where
  "status_elems s st = (case hst_Conditions st of None \<Rightarrow> Some [] | Some sl \<Rightarrow> slice_elems conds_of s sl)"

lemma read_statusE:
  assumes "read_status s p = Some (b, d)"
  obtains st cs where "load_status s p = Some st" "status_elems s st = Some cs"
    "list_all2 (\<lambda>c d. view_cond s c = Some d) cs (is_Conditions d)"
    "\<And>c. c \<in> set cs \<Longrightarrow> reach_cond s c \<subseteq> status_arrays s p"
    "\<And>sl. hst_Conditions st = Some sl \<Longrightarrow> sl_array sl \<in> status_arrays s p"
proof -
  from assms obtain st where st: "load_status s p = Some st" "view_status s st = Some (b, d)"
    by (auto simp: read_status_def bind_eq_Some_conv)
  then obtain cs where "status_elems s st = Some cs"
      "list_all2 (\<lambda>c d. view_cond s c = Some d) cs (is_Conditions d)"
    by (auto simp: view_status_def status_elems_def view_slice_def bind_eq_Some_conv those_map_iff
        split: option.splits)
  moreover from this(1) have "reach_cond s c \<subseteq> status_arrays s p" if "c \<in> set cs" for c
    using that st(1)
    by (auto simp: status_elems_def status_arrays_def reach_status_def reach_slice_def split: option.splits)
  moreover have "sl_array sl \<in> status_arrays s p" if "hst_Conditions st = Some sl" for sl
    using that st(1) by (simp add: status_arrays_def reach_status_def reach_slice_def)
  ultimately show thesis using that st(1) by blast
qed

lemma find_first:
  "find P xs = Some x \<Longrightarrow> \<exists>k<length xs. x = xs ! k \<and> P x \<and> (\<forall>j<k. \<not> P (xs ! j))"
  by (auto simp: find_Some_iff)

lemma obtain_ready_found:
  fixes s :: "'x store"
  assumes d: "read_status s p = Some (b, d)" and g: "GetReadyCondition d = Some rd"
  shows "\<exists>t xs us k. obtain_ready grow s p = Some ((length s, 0), t) \<and>
           obtained s p (is_Conditions d) t xs us k"
proof -
  from d obtain st cs where st: "load_status s p = Some st" "status_elems s st = Some cs"
      "list_all2 (\<lambda>c d. view_cond s c = Some d) cs (is_Conditions d)"
      "\<And>c. c \<in> set cs \<Longrightarrow> reach_cond s c \<subseteq> status_arrays s p"
      "\<And>sl. hst_Conditions st = Some sl \<Longrightarrow> sl_array sl \<in> status_arrays s p"
    by (rule read_statusE) blast
  from g obtain k where k: "k < length (is_Conditions d)" "is_ready_cond (is_Conditions d ! k)"
      "\<And>j. j < k \<Longrightarrow> \<not> is_ready_cond (is_Conditions d ! j)"
    by (auto simp: GetReadyCondition_def find_Some_iff)
  have len: "length cs = length (is_Conditions d)" using list_all2_lengthD [OF st(3)] .
  have type: "hc_Type (cs ! j) = ic_Type (is_Conditions d ! j)" if "j < length cs" for j
    using list_all2_nthD [OF st(3) that] view_cond_Type by metis
  have "find (\<lambda>c. hc_Type c = IssuerConditionReady) cs = Some (cs ! k)"
    using k len type by (auto simp: find_Some_iff is_ready_cond_def intro!: exI [of _ k])
  then have "obtain_ready grow s p = Some ((length s, 0), s @ [Conds [cs ! k]])"
    using st(1,2) by (simp add: obtain_ready_def GetReadyCondition_at_def status_elems_def new_var_def)
  moreover from st(2) k(1) len obtain sl where sl: "hst_Conditions st = Some sl" "slice_elems conds_of s sl = Some cs"
    by (cases "hst_Conditions st") (auto simp: status_elems_def)
  then obtain c us where us: "cell_at s (sl_array sl) = Some c" "conds_of c = Some us" "sl_len sl \<le> length us"
      "cs = take (sl_len sl) us"
    by (auto simp: slice_elems_iff)
  from us(2) have "c = Conds us" by (cases c) auto
  with us have "obtained s p (is_Conditions d) (s @ [Conds [cs ! k]]) sl us k"
    unfolding obtained_def
    using sl st k len status_var.load_append [OF st(1)] cell_at_append [OF us(1)] cell_at_bound [OF us(1)]
      view_conds_kept [OF times_kept_append st(3)] reach_cond_any [OF st(4)]
    by (auto simp: nth_append)
  ultimately show ?thesis by blast
qed

text \<open>\<open>append\<close> of a condition, in place or not.\<close>

lemma append_cond_ok:
  fixes s :: "'x store"
  assumes xs: "(case sl of None \<Rightarrow> Some [] | Some x \<Rightarrow> slice_elems conds_of s x) = Some cs"
  shows "\<exists>xs t us. append_cond grow s sl c = Some (xs, t) \<and> sl_len xs = Suc (length cs) \<and>
           cell_at t (sl_array xs) = Some (Conds us) \<and> take (sl_len xs) us = cs @ [c] \<and>
           sl_len xs \<le> length us \<and> length s \<le> length t \<and> times_kept s t \<and>
           (\<forall>a<length s. Some a \<noteq> map_option sl_array sl \<longrightarrow> t ! a = s ! a) \<and>
           (Some (sl_array xs) = map_option sl_array sl \<or> length s \<le> sl_array xs)"
proof (cases sl)
  case None
  with xs show ?thesis
    by (intro exI [of _ "Slice (length s) 1"] exI [of _ "s @ [Conds (c # replicate (grow 0) zero_cond)]"]
        exI [of _ "c # replicate (grow 0) zero_cond"])
      (auto simp: append_cond_def nth_append times_kept_append)
next
  case (Some x)
  with xs obtain cell us where us: "cell_at s (sl_array x) = Some cell" "conds_of cell = Some us"
      "sl_len x \<le> length us" "cs = take (sl_len x) us"
    by (auto simp: slice_elems_iff)
  have cell: "cell = Conds us" using us(2) by (cases cell) auto
  have x: "sl_array x < length s" using us(1) by (rule cell_at_bound)
  show ?thesis
  proof (cases "sl_len x < length us")
    case True
    let ?us = "us[sl_len x := c]"
    have "take (Suc (sl_len x)) ?us = cs @ [c]"
      using True us(4) by (simp add: take_Suc_conv_app_nth)
    with Some us x cell True show ?thesis
      by (intro exI [of _ "Slice (sl_array x) (Suc (sl_len x))"] exI [of _ "s[sl_array x := Conds ?us]"]
          exI [of _ ?us])
        (auto simp: append_cond_def cell_at_def nth_list_update intro!: times_kept_update)
  next
    case False
    with us(3,4) have "cs = us" "sl_len x = length us" by simp_all
    with Some us cell False show ?thesis
      by (intro exI [of _ "Slice (length s) (Suc (sl_len x))"]
          exI [of _ "s @ [Conds (us @ c # replicate (grow (sl_len x)) zero_cond)]"]
          exI [of _ "us @ c # replicate (grow (sl_len x)) zero_cond"])
        (auto simp: append_cond_def nth_append times_kept_append)
  qed
qed

lemma view_new_ready: "view_cond s (zero_cond\<lparr>hc_Type := IssuerConditionReady\<rparr>) = Some new_ready"
  by (simp add: view_cond_def zero_cond_def new_ready_def)

lemma obtain_ready_new:
  fixes s :: "'x store"
  assumes d: "read_status s p = Some (b, d)" and g: "GetReadyCondition d = None"
  shows "\<exists>t xs us k. obtain_ready grow s p = Some ((length s, 0), t) \<and>
           obtained s p (is_Conditions d @ [new_ready]) t xs us k"
proof -
  from d obtain st cs where st: "load_status s p = Some st" "status_elems s st = Some cs"
      "list_all2 (\<lambda>c d. view_cond s c = Some d) cs (is_Conditions d)"
      "\<And>c. c \<in> set cs \<Longrightarrow> reach_cond s c \<subseteq> status_arrays s p"
      "\<And>sl. hst_Conditions st = Some sl \<Longrightarrow> sl_array sl \<in> status_arrays s p"
    by (rule read_statusE) blast
  have len: "length cs = length (is_Conditions d)" using list_all2_lengthD [OF st(3)] .
  have no: "\<not> is_ready_cond (is_Conditions d ! j)" if "j < length cs" for j
    using g that len by (auto simp: GetReadyCondition_def find_None_iff)
  define c where "c = zero_cond\<lparr>hc_Type := IssuerConditionReady\<rparr>"
  define s1 where "s1 = s @ [Conds [c]]"
  have "find (\<lambda>c. hc_Type c = IssuerConditionReady) cs = None"
    using no list_all2_nthD [OF st(3)] view_cond_Type
    by (fastforce simp: find_None_iff in_set_conv_nth is_ready_cond_def)
  then have get: "GetReadyCondition_at s p = Some (None, s)"
    using st(1,2) by (simp add: GetReadyCondition_at_def status_elems_def)
  have l1: "load_status s1 p = Some st" unfolding s1_def by (rule status_var.load_append [OF st(1)])
  obtain cell where base: "cell_at s (inner_base p) = Some cell" "times_of cell = None" "conds_of cell = None"
    using st(1) by (rule status_base)
  note bp = cell_at_bound [OF base(1)]
  have bne: "sl_array sl \<noteq> inner_base p \<and> sl_array sl < length s" if "hst_Conditions st = Some sl" for sl
    using that st(2) base(1,3) by (auto simp: status_elems_def slice_elems_iff dest: cell_at_bound)
  have ne: "Some (inner_base p) \<noteq> map_option sl_array (hst_Conditions st)"
      "Some (length s) \<noteq> map_option sl_array (hst_Conditions st)"
    by (cases "hst_Conditions st"; use bne in force)+
  have "(case hst_Conditions st of None \<Rightarrow> Some [] | Some x \<Rightarrow> slice_elems conds_of s1 x) = Some cs"
    using st(2) by (auto simp: status_elems_def s1_def slice_elems_append split: option.splits)
  from append_cond_ok [OF this, of grow c] obtain xs t us where
    app: "append_cond grow s1 (hst_Conditions st) c = Some (xs, t)" "sl_len xs = Suc (length cs)"
      "cell_at t (sl_array xs) = Some (Conds us)" "take (sl_len xs) us = cs @ [c]"
      "sl_len xs \<le> length us" "length s1 \<le> length t" "times_kept s1 t"
      "\<And>a. a < length s1 \<Longrightarrow> Some a \<noteq> map_option sl_array (hst_Conditions st) \<Longrightarrow> t ! a = s1 ! a"
      "Some (sl_array xs) = map_option sl_array (hst_Conditions st) \<or> length s1 \<le> sl_array xs"
    by blast
  have "t ! inner_base p = s1 ! inner_base p"
    using app(8) [of "inner_base p"] ne(1) bp by (simp add: s1_def)
  then have lt: "load_status t p = Some st" by (rule status_var.load_agree [OF l1 app(6)])
  then obtain u where u: "put_status_at t p (st\<lparr>hst_Conditions := Some xs\<rparr>) = Some u"
    using status_var.put_defined by blast
  then obtain c' where uc: "u = t[inner_base p := c']" using status_var.put_frame by blast
  have "obtain_ready grow s p = Some ((length s, 0), u)"
    using get app(1) lt u l1
    by (simp add: obtain_ready_def new_var_def c_def [symmetric] s1_def [symmetric])
      (simp add: s1_def load_cond_var)
  moreover have "obtained s p (is_Conditions d @ [new_ready]) u xs us (length cs)"
  proof -
    have arr: "sl_array xs \<noteq> inner_base p" "sl_array xs \<noteq> length s"
        "sl_array xs \<in> status_arrays s p \<or> length s \<le> sl_array xs"
      by (cases "hst_Conditions st"; use app(9) bne st(5) bp in \<open>force simp: s1_def\<close>)+
    have "t ! length s = Conds [c]" using app(8) [of "length s"] ne(2) by (simp add: s1_def)
    moreover have "us ! length cs = c"
      using app(2,4) by (metis lessI nth_append_length nth_take)
    ultimately have cell: "cell_at u (length s) = Some (Conds [us ! length cs])"
      using bp app(6) by (simp add: uc cell_at_def s1_def)
    have "cell_at s1 (inner_base p) = Some cell" unfolding s1_def by (rule cell_at_append [OF base(1)])
    moreover have "cell_at t (inner_base p) = Some cell"
      using \<open>t ! inner_base p = s1 ! inner_base p\<close> calculation app(6) by (simp add: cell_at_def split: if_splits)
    ultimately have "times_kept s u"
      using times_kept_append [of s "[Conds [c]]"] app(7) times_kept_update [of t "inner_base p" cell c'] base(2)
      unfolding uc s1_def by (blast intro: times_kept_trans)
    then have views: "list_all2 (\<lambda>c d. view_cond u c = Some d) (cs @ [c]) (is_Conditions d @ [new_ready])"
      using view_conds_kept [OF _ st(3)] by (simp add: list_all2_appendI c_def view_new_ready)
    have "u ! a = s ! a" if "a < length s" "a \<notin> status_arrays s p" for a
    proof -
      have "a \<noteq> inner_base p" using that(2) by (auto simp: status_arrays_def)
      moreover have "Some a \<noteq> map_option sl_array (hst_Conditions st)"
        by (cases "hst_Conditions st") (use that(2) st(5) in auto)
      ultimately show ?thesis using app(8) [of a] that(1) by (simp add: uc s1_def nth_append)
    qed
    moreover have "reach_cond u e \<subseteq> status_arrays s p" if "e \<in> set (cs @ [c])" for e
      using that reach_cond_any [OF st(4)] by (auto simp: c_def reach_cond_def zero_cond_def)
    ultimately show ?thesis
      unfolding obtained_def
      using status_var.load_put [OF u] app(2,3,4,5,6) arr cell views no len
      by (auto simp: uc s1_def nth_append)
  qed
  ultimately show ?thesis by blast
qed

text \<open>The function on values, with the first Ready condition named by its position.\<close>

definition updated_value :: "go_time \<Rightarrow> string \<Rightarrow> string \<Rightarrow> string \<Rightarrow> issuer_condition \<Rightarrow> issuer_condition" where
  "updated_value now cs r m c =
     (if ic_Status c \<noteq> cs then c\<lparr>ic_Status := cs, ic_LastTransitionTime := Some now\<rparr> else c)
       \<lparr>ic_Reason := r, ic_Message := m\<rparr>"

definition conditions_with_ready :: "issuer_status \<Rightarrow> issuer_condition list" where
  "conditions_with_ready d =
     (if GetReadyCondition d = None then is_Conditions d @ [new_ready] else is_Conditions d)"

lemma SetReadyCondition_first:
  assumes ds: "ds = conditions_with_ready d"
    and k: "k < length ds" "is_ready_cond (ds ! k)" "\<And>j. j < k \<Longrightarrow> \<not> is_ready_cond (ds ! j)"
  shows "SetReadyCondition now cs r m d = \<lparr>is_Conditions = ds[k := updated_value now cs r m (ds ! k)]\<rparr>"
proof -
  have ready: "(case GetReadyCondition d of None \<Rightarrow> new_ready | Some c \<Rightarrow> c) = ds ! k"
  proof (cases "GetReadyCondition d")
    case None
    then have "k = length (is_Conditions d)"
      using k(1,2) ds
      by (auto simp: conditions_with_ready_def GetReadyCondition_def find_None_iff nth_append less_Suc_eq
            split: if_splits)
    with None ds show ?thesis by (simp add: conditions_with_ready_def)
  next
    case (Some c)
    with ds have "find is_ready_cond ds = Some c"
      by (simp add: conditions_with_ready_def GetReadyCondition_def)
    then obtain i where "i < length ds" "c = ds ! i" "is_ready_cond (ds ! i)"
        "\<And>j. j < i \<Longrightarrow> \<not> is_ready_cond (ds ! j)"
      by (auto simp: find_Some_iff)
    moreover from this k have "i = k" by (metis linorder_neqE_nat)
    ultimately show ?thesis using Some by simp
  qed
  have conds: "(case GetReadyCondition d of None \<Rightarrow> is_Conditions d @ [new_ready] | Some c \<Rightarrow> is_Conditions d) = ds"
    using ds by (simp add: conditions_with_ready_def split: option.splits)
  have "SetReadyCondition now cs r m d =
      d\<lparr>is_Conditions := write_ready (updated_value now cs r m (ds ! k)) ds\<rparr>"
    unfolding SetReadyCondition_def Let_def conds ready by (simp add: updated_value_def)
  with write_ready_first [OF k] show ?thesis by (cases d) simp
qed

lemma view_updated_cond:
  assumes c: "view_cond s c = Some e" and kept: "times_kept s t"
    and t: "hc_Status c \<noteq> cs \<Longrightarrow> load_time t (a, 0) = Some now"
  shows "view_cond t (updated_cond a cs r m c) = Some (updated_value now cs r m e)"
  using view_cond_kept [OF kept c] c t
  by (auto simp: view_cond_def updated_cond_def updated_value_def bind_eq_Some_conv split: option.splits)

text \<open>
  What \<open>SetReadyCondition\<close> computes in memory, and what it leaves alone: every array that
  existed and does not belong to the status, and no array of others is drawn in.
\<close>

lemma SetReadyCondition_at_ok:
  fixes s :: "'x store"
  assumes d: "read_status s p = Some (b, d)"
  shows "\<exists>t. SetReadyCondition_at grow s p now cs r m = Some t \<and>
           read_status t p = Some (False, SetReadyCondition now cs r m d) \<and>
           length s \<le> length t \<and> (\<forall>a<length s. a \<notin> status_arrays s p \<longrightarrow> t ! a = s ! a) \<and>
           status_arrays t p \<subseteq> status_arrays s p \<union> {length s..<length t}"
proof -
  define ds where "ds = conditions_with_ready d"
  define q where "q = length s"
  from obtain_ready_new [OF d, of grow] obtain_ready_found [OF d, of _ grow]
  have "\<exists>t xs us k. obtain_ready grow s p = Some ((length s, 0), t) \<and> obtained s p ds t xs us k"
    by (cases "GetReadyCondition d") (simp_all add: ds_def conditions_with_ready_def)
  then obtain t xs us k where step1: "obtain_ready grow s p = Some ((q, 0), t)"
    and ob: "obtained s p ds t xs us k" by (auto simp: q_def)
  from ob obtain st where st: "load_status t p = Some st" "hst_Conditions st = Some xs"
    unfolding obtained_def by blast
  from ob have arr: "cell_at t (sl_array xs) = Some (Conds us)" "sl_len xs \<le> length us" "sl_array xs \<noteq> q"
    and ready: "cell_at t q = Some (Conds [us ! k])"
    and views: "list_all2 (\<lambda>c d. view_cond t c = Some d) (take (sl_len xs) us) ds"
    and k: "k < length ds" "is_ready_cond (ds ! k)" "\<And>j. j < k \<Longrightarrow> \<not> is_ready_cond (ds ! j)"
    and frame: "length s < length t" "\<And>a. a < length s \<Longrightarrow> a \<notin> status_arrays s p \<Longrightarrow> t ! a = s ! a"
      "sl_array xs \<in> status_arrays s p \<or> length s \<le> sl_array xs"
      "\<And>c. c \<in> set (take (sl_len xs) us) \<Longrightarrow> reach_cond t c \<subseteq> status_arrays s p"
    unfolding obtained_def q_def by blast+
  have len: "length ds = sl_len xs" using list_all2_lengthD [OF views] arr(2) by simp
  have kus: "view_cond t (us ! k) = Some (ds ! k)"
    using list_all2_nthD2 [OF views k(1)] k(1) len by simp
  \<comment> \<open>the second step\<close>
  define c1 where "c1 = updated_cond (length t) cs r m (us ! k)"
  define ts :: "'x cell list" where "ts = (if hc_Status (us ! k) \<noteq> cs then [Times [now]] else [])"
  define t2 where "t2 = t[q := Conds [c1]] @ ts"
  have step2: "update_ready t (q, 0) now cs r m = Some t2"
    unfolding update_ready_eq [OF ready] t2_def c1_def ts_def ..
  obtain cell where base: "cell_at t (inner_base p) = Some cell" "times_of cell = None" "conds_of cell = None"
    using st(1) by (rule status_base)
  have pq: "inner_base p \<noteq> q" "inner_base p \<noteq> sl_array xs"
    using base(1,3) ready arr(1) by auto
  have l2: "load_status t2 p = Some st"
    unfolding t2_def by (rule status_var.load_append) (simp add: status_var.load_update pq st(1))
  have arr2: "cell_at t2 (sl_array xs) = Some (Conds us)"
    unfolding t2_def by (rule cell_at_append) (simp add: arr)
  have elems: "slice_elems conds_of t2 xs = Some (take (sl_len xs) us)"
    using arr2 arr(2) by (simp add: slice_elems_iff)
  have ready2: "load_cond t2 (q, 0) = Some c1"
    unfolding t2_def by (rule load_cond_var) (rule cell_at_set [OF ready])
  have type: "hc_Type (take (sl_len xs) us ! j) = ic_Type (ds ! j)" if "j < length ds" for j
    using list_all2_nthD2 [OF views that] view_cond_Type by metis
  \<comment> \<open>the loop\<close>
  have "write_back p (q, 0) xs [0..<sl_len xs] t2 = put_cond t2 (sl_array xs, k) c1"
    by (rule write_back_first [OF l2 st(2) ready2 elems])
      (use k len type in \<open>auto simp: is_ready_cond_def\<close>)
  also define t3 where "t3 = t2[sl_array xs := Conds (us[k := c1])]"
  have "put_cond t2 (sl_array xs, k) c1 = Some t3"
    using arr2 arr(2) k(1) len by (simp add: put_cond_def put_elem_def t3_def)
  finally have step3: "write_back p (q, 0) xs [0..<sl_len xs] t2 = Some t3" .
  \<comment> \<open>what the status reads now\<close>
  have "times_kept t t2"
    unfolding t2_def using times_kept_update [OF ready] times_kept_append by (auto intro: times_kept_trans)
  moreover have "times_kept t2 t3"
    unfolding t3_def using times_kept_update [OF arr2] by simp
  ultimately have kept: "times_kept t t3" by (rule times_kept_trans)
  have new: "load_time t3 (length t, 0) = Some now" if "hc_Status (us ! k) \<noteq> cs"
    using that cell_at_bound [OF arr(1)]
    by (simp add: t3_def t2_def ts_def load_time_def load_elem_iff cell_at_def nth_append nth_list_update)
  have c1: "view_cond t3 c1 = Some (updated_value now cs r m (ds ! k))"
    unfolding c1_def by (rule view_updated_cond [OF kus kept]) (rule new)
  have l3: "load_status t3 p = Some st"
    unfolding t3_def by (simp add: status_var.load_update pq l2)
  have elems3: "slice_elems conds_of t3 xs = Some ((take (sl_len xs) us)[k := c1])"
    using arr2 arr(2) cell_at_bound [OF arr2]
    by (simp add: slice_elems_iff t3_def cell_at_def take_update_swap)
  have "list_all2 (\<lambda>c d. view_cond t3 c = Some d) ((take (sl_len xs) us)[k := c1])
          (ds[k := updated_value now cs r m (ds ! k)])"
    by (rule list_all2_update_cong) (use view_conds_kept [OF kept views] c1 in simp_all)
  with l3 st(2) elems3
  have "read_status t3 p = Some (False, \<lparr>is_Conditions = ds[k := updated_value now cs r m (ds ! k)]\<rparr>)"
    by (simp add: read_status_def view_status_def view_slice_def those_map_iff)
  moreover have "SetReadyCondition_at grow s p now cs r m = Some t3"
    by (simp add: SetReadyCondition_at_def step1 step2 l2 st(2) step3)
  moreover have "length s \<le> length t3" using frame(1) by (simp add: t3_def t2_def)
  moreover have "t3 ! a = s ! a" if "a < length s" "a \<notin> status_arrays s p" for a
  proof -
    have "a \<noteq> sl_array xs" "a \<noteq> q" using that frame(3) by (auto simp: q_def)
    with that frame(1,2) show ?thesis by (simp add: t3_def t2_def nth_append)
  qed
  moreover have "status_arrays t3 p \<subseteq> status_arrays s p \<union> {length s..<length t3}"
  proof -
    have "inner_base p \<in> status_arrays s p" by (simp add: status_arrays_def)
    moreover have "sl_array xs \<in> status_arrays s p \<union> {length s..<length t3}"
      using frame(3) cell_at_bound [OF arr(1)] by (auto simp: t3_def t2_def)
    moreover have "reach_cond t3 c \<subseteq> status_arrays s p \<union> {length s..<length t3}"
      if "c \<in> set ((take (sl_len xs) us)[k := c1])" for c
    proof -
      have old: "reach_cond t3 e \<subseteq> status_arrays s p" if "e \<in> set (take (sl_len xs) us)" for e
        using frame(4) [OF that] by (rule reach_cond_any)
      have "us ! k \<in> set (take (sl_len xs) us)"
        using k(1) len arr(2) by (metis in_set_conv_nth length_take min.absorb2 nth_take)
      from old [OF this] have "reach_cond t3 c1 \<subseteq> status_arrays s p \<union> {length s..<length t3}"
        using frame(1) by (auto simp: c1_def updated_cond_def reach_cond_def t3_def t2_def ts_def)
      with that old set_update_subset_insert show ?thesis by fastforce
    qed
    ultimately show ?thesis
      using l3 st(2) elems3 by (auto simp: status_arrays_def reach_status_def reach_slice_def)
  qed
  ultimately show ?thesis
    using SetReadyCondition_first [OF ds_def k, of now cs r m] by auto
qed

end
