(* ===== verification/HeapTyping.thy ===== *)
theory HeapTyping
  imports HeapIssuer
begin

text \<open>
  A typing of the store: every pointer and slice in it leads to an array of the right type and
  length. Go's type system keeps it; here it is an invariant of the copies and of
  \<open>SetReadyCondition\<close>, and where it holds they do not panic.
\<close>

section \<open>Conformance\<close>

definition cond_ok :: "'x store \<Rightarrow> heap_condition \<Rightarrow> bool" where
  "cond_ok s c = (case hc_LastTransitionTime c of None \<Rightarrow> True | Some l \<Rightarrow> load_time s l \<noteq> None)"

definition spec_ok :: "'x store \<Rightarrow> heap_spec \<Rightarrow> bool" where
  "spec_ok s v = (case hs_CustomFields v of None \<Rightarrow> True | Some sl \<Rightarrow> slice_elems fields_of s sl \<noteq> None)"

definition status_ok :: "'x store \<Rightarrow> heap_status \<Rightarrow> bool" where
  "status_ok s v = (case hst_Conditions v of None \<Rightarrow> True | Some sl \<Rightarrow> slice_elems conds_of s sl \<noteq> None)"

text \<open>When the third-party part of the metadata is well typed is the argument \<open>mok\<close>.\<close>

definition object_ok :: "('x store \<Rightarrow> 'x \<Rightarrow> bool) \<Rightarrow> 'x store \<Rightarrow> 'x heap_object \<Rightarrow> bool" where
  "object_ok mok s v \<longleftrightarrow>
     mok s (om_Rest (ho_ObjectMeta v)) \<and> spec_ok s (ho_Spec v) \<and> status_ok s (ho_Status v)"

definition list_ok :: "('x store \<Rightarrow> 'x \<Rightarrow> bool) \<Rightarrow> object_kind \<Rightarrow> 'x store \<Rightarrow> 'x heap_list \<Rightarrow> bool" where
  "list_ok mok k s v \<longleftrightarrow> mok s (hl_ListMeta v) \<and>
     (case hl_Items v of None \<Rightarrow> True | Some sl \<Rightarrow> slice_elems (objects_of k) s sl \<noteq> None)"

fun cell_ok :: "('x store \<Rightarrow> 'x \<Rightarrow> bool) \<Rightarrow> 'x store \<Rightarrow> 'x cell \<Rightarrow> bool" where
  "cell_ok mok s (Times ts) = True"
| "cell_ok mok s (Fields fs) = True"
| "cell_ok mok s (Conds cs) = list_all (cond_ok s) cs"
| "cell_ok mok s (Specs vs) = list_all (spec_ok s) vs"
| "cell_ok mok s (Statuses vs) = list_all (status_ok s) vs"
| "cell_ok mok s (Objects k vs) = list_all (object_ok mok s) vs"
| "cell_ok mok s (Lists k vs) = list_all (list_ok mok k s) vs"
| "cell_ok mok s (Foreign x) = mok s x"

definition store_ok :: "('x store \<Rightarrow> 'x \<Rightarrow> bool) \<Rightarrow> 'x store \<Rightarrow> bool" where
  "store_ok mok s = list_all (cell_ok mok s) s"

text \<open>A pointer to an object or a list of a kind, nil or to a variable of that type.\<close>

fun ref_ok :: "'x store \<Rightarrow> runtime_ref \<Rightarrow> bool" where
  "ref_ok s (RefObject k None) = True"
| "ref_ok s (RefObject k (Some p)) = (load_object s (k, p) \<noteq> None)"
| "ref_ok s (RefList k None) = True"
| "ref_ok s (RefList k (Some p)) = (load_list s (k, p) \<noteq> None)"

section \<open>Stores of the same shape\<close>

datatype cell_type =
    TTimes | TFields | TConds | TSpecs | TStatuses
  | TObjects object_kind | TLists object_kind | TForeign

fun shape :: "'x cell \<Rightarrow> cell_type \<times> nat" where
  "shape (Times vs) = (TTimes, length vs)"
| "shape (Fields vs) = (TFields, length vs)"
| "shape (Conds vs) = (TConds, length vs)"
| "shape (Specs vs) = (TSpecs, length vs)"
| "shape (Statuses vs) = (TStatuses, length vs)"
| "shape (Objects k vs) = (TObjects k, length vs)"
| "shape (Lists k vs) = (TLists k, length vs)"
| "shape (Foreign x) = (TForeign, 0)"

text \<open>\<open>t\<close> has the arrays of \<open>s\<close>, with the same types and lengths, and perhaps more.\<close>

definition extends :: "'x store \<Rightarrow> 'x store \<Rightarrow> bool" where
  "extends s t \<longleftrightarrow> (\<exists>n. map shape t = map shape s @ n)"

lemma extends_refl [simp]: "extends s s"
  by (simp add: extends_def)

lemma extends_trans [trans]: "extends s t \<Longrightarrow> extends t u \<Longrightarrow> extends s u"
  by (auto simp: extends_def)

lemma extends_append [simp]: "extends s (s @ n)"
  by (simp add: extends_def)

lemma extends_update: "a < length s \<Longrightarrow> shape c = shape (s ! a) \<Longrightarrow> extends s (s[a := c])"
  unfolding extends_def
  by (intro exI [of _ "[]"]) (simp add: map_update, metis list_update_id nth_map length_map)

lemma extends_cell:
  assumes "extends s t" and "cell_at s a = Some c"
  obtains c' where "cell_at t a = Some c'" "shape c' = shape c"
proof -
  from assms(1) obtain n where n: "map shape t = map shape s @ n" by (auto simp: extends_def)
  from assms(2) have a: "a < length s" "c = s ! a" by (auto simp: cell_at_def split: if_splits)
  have "length s \<le> length t" using n by (metis length_append length_map le_add1)
  with a have "a < length t" by simp
  moreover have "shape (t ! a) = shape (s ! a)"
    using n a(1) \<open>a < length t\<close> by (metis length_map nth_append nth_map)
  ultimately show thesis using that a(2) by (simp add: cell_at_def)
qed

text \<open>A destructor that depends on the shape only, as far as being defined goes.\<close>

definition shapely :: "('x cell \<Rightarrow> 'a list option) \<Rightarrow> bool" where
  "shapely dest \<longleftrightarrow> (\<forall>c c' vs. shape c = shape c' \<longrightarrow> dest c = Some vs \<longrightarrow>
     (\<exists>vs'. dest c' = Some vs' \<and> length vs' = length vs))"

lemma shapely_dests [simp]:
  "shapely times_of" "shapely fields_of" "shapely conds_of" "shapely specs_of"
  "shapely statuses_of" "shapely (objects_of k)" "shapely (lists_of k)"
  unfolding shapely_def
  by (intro allI impI; case_tac c; case_tac c'; auto split: if_splits)+

lemma load_extends:
  assumes "extends s t" "shapely dest" "load_elem dest s l \<noteq> None"
  shows "load_elem dest t l \<noteq> None"
proof -
  from assms(3) obtain c vs where c: "cell_at s (fst l) = Some c" "dest c = Some vs" "snd l < length vs"
    by (auto simp: load_elem_iff)
  from extends_cell [OF assms(1) c(1)] obtain c' where c': "cell_at t (fst l) = Some c'" "shape c' = shape c" .
  with assms(2) c show ?thesis unfolding shapely_def by (metis load_elem_iff option.distinct(1))
qed

lemma slice_extends:
  assumes "extends s t" "shapely dest" "slice_elems dest s sl \<noteq> None"
  shows "slice_elems dest t sl \<noteq> None"
proof -
  from assms(3) obtain c vs where c: "cell_at s (sl_array sl) = Some c" "dest c = Some vs" "sl_len sl \<le> length vs"
    by (auto simp: slice_elems_iff)
  from extends_cell [OF assms(1) c(1)] obtain c' where c': "cell_at t (sl_array sl) = Some c'" "shape c' = shape c" .
  with assms(2) c show ?thesis unfolding shapely_def by (metis slice_elems_iff option.distinct(1))
qed

lemma cond_ok_extends: "extends s t \<Longrightarrow> cond_ok s c \<Longrightarrow> cond_ok t c"
  using load_extends [of s t times_of] by (auto simp: cond_ok_def load_time_def split: option.splits)

lemma spec_ok_extends: "extends s t \<Longrightarrow> spec_ok s v \<Longrightarrow> spec_ok t v"
  using slice_extends [of s t fields_of] by (auto simp: spec_ok_def split: option.splits)

lemma status_ok_extends: "extends s t \<Longrightarrow> status_ok s v \<Longrightarrow> status_ok t v"
  using slice_extends [of s t conds_of] by (auto simp: status_ok_def split: option.splits)

section \<open>Steps that keep a store well typed\<close>

definition meta_mono :: "('x store \<Rightarrow> 'x \<Rightarrow> bool) \<Rightarrow> bool" where
  "meta_mono mok \<longleftrightarrow> (\<forall>s t x. extends s t \<longrightarrow> mok s x \<longrightarrow> mok t x)"

definition keeps_types :: "('x store \<Rightarrow> 'x \<Rightarrow> bool) \<Rightarrow> 'x store \<Rightarrow> 'x store \<Rightarrow> bool" where
  "keeps_types mok s t \<longleftrightarrow> store_ok mok t \<and> extends s t"

lemma object_ok_extends: "meta_mono mok \<Longrightarrow> extends s t \<Longrightarrow> object_ok mok s v \<Longrightarrow> object_ok mok t v"
  by (auto simp: object_ok_def meta_mono_def spec_ok_extends status_ok_extends)

lemma list_ok_extends: "meta_mono mok \<Longrightarrow> extends s t \<Longrightarrow> list_ok mok k s v \<Longrightarrow> list_ok mok k t v"
  using slice_extends [of s t "objects_of k"]
  by (auto simp: list_ok_def meta_mono_def split: option.splits)

lemma cell_ok_extends: "meta_mono mok \<Longrightarrow> extends s t \<Longrightarrow> cell_ok mok s c \<Longrightarrow> cell_ok mok t c"
  by (cases c)
    (auto simp: meta_mono_def elim!: list.pred_mono_strong
       intro: cond_ok_extends spec_ok_extends status_ok_extends
         object_ok_extends [unfolded meta_mono_def] list_ok_extends [unfolded meta_mono_def])

lemma store_ok_cell: "store_ok mok s \<Longrightarrow> cell_at s a = Some c \<Longrightarrow> cell_ok mok s c"
  by (auto simp: store_ok_def cell_at_def list_all_iff split: if_splits)

lemma store_ok_append:
  "meta_mono mok \<Longrightarrow> store_ok mok s \<Longrightarrow> cell_ok mok (s @ [c]) c \<Longrightarrow> keeps_types mok s (s @ [c])"
  using cell_ok_extends [OF _ extends_append, of mok s _ "[c]"]
  by (auto simp: keeps_types_def store_ok_def list_all_iff)

lemma store_ok_update:
  assumes "meta_mono mok" "store_ok mok s" "a < length s" "shape c = shape (s ! a)" "cell_ok mok s c"
  shows "keeps_types mok s (s[a := c])"
proof -
  have ext: "extends s (s[a := c])" using assms(3,4) by (rule extends_update)
  have "cell_ok mok s x" if "x \<in> set (s[a := c])" for x
    using that assms(2,5) set_update_subset_insert [of s a c] by (auto simp: store_ok_def list_all_iff)
  then have "cell_ok mok (s[a := c]) x" if "x \<in> set (s[a := c])" for x
    using that cell_ok_extends [OF assms(1) ext] by blast
  with ext show ?thesis by (simp add: keeps_types_def store_ok_def list_all_iff)
qed

text \<open>Arrays of elements of one type: what is loaded conforms, what conforms may be put.\<close>

lemma dest_cell:
  "conds_of c = Some cs \<Longrightarrow> c = Conds cs" "specs_of c = Some vs \<Longrightarrow> c = Specs vs"
  "statuses_of c = Some sts \<Longrightarrow> c = Statuses sts" "objects_of k c = Some obs \<Longrightarrow> c = Objects k obs"
  "lists_of k c = Some ls \<Longrightarrow> c = Lists k ls"
  by (cases c; simp split: if_splits)+

lemma load_elem_ok:
  assumes s: "store_ok mok s" and v: "load_elem dest s l = Some v"
    and dest: "\<And>c vs. dest c = Some vs \<Longrightarrow> c = mk vs"
    and ok: "\<And>vs. cell_ok mok s (mk vs) = list_all P vs"
  shows "P v"
proof -
  from v obtain c vs where c: "cell_at s (fst l) = Some c" "dest c = Some vs" "snd l < length vs" "v = vs ! snd l"
    by (auto simp: load_elem_iff)
  with store_ok_cell [OF s c(1)] dest [OF c(2)] ok show ?thesis by (simp add: list_all_length)
qed

lemma put_elem_ok:
  assumes mono: "meta_mono mok" and s: "store_ok mok s" and v: "P v" and t: "put_elem mk dest s l v = Some t"
    and dest: "\<And>c vs. dest c = Some vs \<Longrightarrow> c = mk vs"
    and ok: "\<And>vs. cell_ok mok s (mk vs) = list_all P vs"
    and shape: "\<And>vs us. length vs = length us \<Longrightarrow> shape (mk vs) = shape (mk us)"
  shows "keeps_types mok s t"
proof -
  from t obtain c vs where c: "cell_at s (fst l) = Some c" "dest c = Some vs" "snd l < length vs"
      "t = s[fst l := mk (vs[snd l := v])]"
    by (auto simp: put_elem_def bind_eq_Some_conv split: if_splits)
  have cm: "s ! fst l = mk vs" "fst l < length s" using c(1) dest [OF c(2)] by (auto simp: cell_at_def split: if_splits)
  have "list_all P vs" using store_ok_cell [OF s c(1)] dest [OF c(2)] ok by simp
  then have "list_all P (vs[snd l := v])"
    using v set_update_subset_insert [of vs "snd l" v] by (auto simp: list_all_iff)
  moreover have "shape (mk (vs[snd l := v])) = shape (s ! fst l)"
    unfolding cm(1) by (rule shape) simp
  ultimately show ?thesis
    unfolding c(4) by (intro store_ok_update [OF mono s cm(2)]) (simp_all only: ok)
qed

lemma load_cond_ok: "store_ok mok s \<Longrightarrow> load_cond s l = Some v \<Longrightarrow> cond_ok s v"
  unfolding load_cond_def by (erule (1) load_elem_ok) (erule dest_cell, simp)

lemma load_object_ok: "store_ok mok s \<Longrightarrow> load_object s q = Some v \<Longrightarrow> object_ok mok s v"
  unfolding load_object_def by (erule (1) load_elem_ok) (erule dest_cell, simp)

lemma load_list_ok: "store_ok mok s \<Longrightarrow> load_list s q = Some v \<Longrightarrow> list_ok mok (fst q) s v"
  unfolding load_list_def by (erule (1) load_elem_ok) (erule dest_cell, simp)

lemma load_spec_ok: "store_ok mok s \<Longrightarrow> load_spec s p = Some v \<Longrightarrow> spec_ok s v"
proof (cases p)
  case (At l)
  assume s: "store_ok mok s" and "load_spec s p = Some v"
  with At have "load_elem specs_of s l = Some v" by (simp add: load_spec_def)
  with s show ?thesis by (rule load_elem_ok) (erule dest_cell, simp)
next
  case (Of q)
  assume "store_ok mok s" "load_spec s p = Some v"
  with Of show ?thesis by (auto simp: load_spec_def object_ok_def dest: load_object_ok)
qed

lemma load_status_ok: "store_ok mok s \<Longrightarrow> load_status s p = Some v \<Longrightarrow> status_ok s v"
proof (cases p)
  case (At l)
  assume s: "store_ok mok s" and "load_status s p = Some v"
  with At have "load_elem statuses_of s l = Some v" by (simp add: load_status_def)
  with s show ?thesis by (rule load_elem_ok) (erule dest_cell, simp)
next
  case (Of q)
  assume "store_ok mok s" "load_status s p = Some v"
  with Of show ?thesis by (auto simp: load_status_def object_ok_def dest: load_object_ok)
qed

lemma put_cond_ok:
  "meta_mono mok \<Longrightarrow> store_ok mok s \<Longrightarrow> cond_ok s v \<Longrightarrow> put_cond s l v = Some t \<Longrightarrow> keeps_types mok s t"
  unfolding put_cond_def by (erule (3) put_elem_ok) (erule dest_cell, simp_all)

lemma put_object_ok:
  "meta_mono mok \<Longrightarrow> store_ok mok s \<Longrightarrow> object_ok mok s v \<Longrightarrow> put_object s q v = Some t \<Longrightarrow>
     keeps_types mok s t"
  unfolding put_object_def by (erule (3) put_elem_ok) (erule dest_cell, simp_all)

lemma put_list_ok:
  "meta_mono mok \<Longrightarrow> store_ok mok s \<Longrightarrow> list_ok mok (fst q) s v \<Longrightarrow> put_list s q v = Some t \<Longrightarrow>
     keeps_types mok s t"
  unfolding put_list_def by (erule (3) put_elem_ok) (erule dest_cell, simp_all)

lemma put_spec_ok:
  assumes "meta_mono mok" "store_ok mok s" "spec_ok s v" "put_spec s p v = Some t"
  shows "keeps_types mok s t"
proof (cases p)
  case (At l)
  with assms(4) have "put_elem Specs specs_of s l v = Some t" by (simp add: put_spec_def)
  with assms(1-3) show ?thesis by (rule put_elem_ok) (erule dest_cell, simp_all)
next
  case (Of q)
  with assms(4) obtain ob where ob: "load_object s q = Some ob" "put_object s q (ob\<lparr>ho_Spec := v\<rparr>) = Some t"
    by (auto simp: put_spec_def bind_eq_Some_conv)
  from load_object_ok [OF assms(2) ob(1)] assms(3) show ?thesis
    by (intro put_object_ok [OF assms(1,2) _ ob(2)]) (simp add: object_ok_def)
qed

lemma put_status_ok:
  assumes "meta_mono mok" "store_ok mok s" "status_ok s v" "put_status_at s p v = Some t"
  shows "keeps_types mok s t"
proof (cases p)
  case (At l)
  with assms(4) have "put_elem Statuses statuses_of s l v = Some t" by (simp add: put_status_at_def)
  with assms(1-3) show ?thesis by (rule put_elem_ok) (erule dest_cell, simp_all)
next
  case (Of q)
  with assms(4) obtain ob where ob: "load_object s q = Some ob" "put_object s q (ob\<lparr>ho_Status := v\<rparr>) = Some t"
    by (auto simp: put_status_at_def bind_eq_Some_conv)
  from load_object_ok [OF assms(2) ob(1)] assms(3) show ?thesis
    by (intro put_object_ok [OF assms(1,2) _ ob(2)]) (simp add: object_ok_def)
qed

end
