(* ===== verification/HeapSafety.thy ===== *)
theory HeapSafety
  imports HeapTyping
begin

text \<open>The copies and \<open>SetReadyCondition\<close> keep the store well typed.\<close>

text \<open>
  What the third-party copies are documented to do with types: they extend the store, keep it
  well typed and return a well-typed value, and a well-typed value can be read.
\<close>

definition metalib_typed ::
    "'x metalib \<Rightarrow> ('x store \<Rightarrow> 'x \<Rightarrow> 'v option) \<Rightarrow> ('x store \<Rightarrow> 'x \<Rightarrow> bool) \<Rightarrow> bool" where
  "metalib_typed ml mv mok \<longleftrightarrow>
     meta_mono mok \<and> (\<forall>s. mok s (ml_zero ml)) \<and>
     (\<forall>s x. store_ok mok s \<longrightarrow> mok s x \<longrightarrow> mv s x \<noteq> None) \<and>
     (\<forall>s m m' s'. store_ok mok s \<longrightarrow> mok s (om_Rest m) \<longrightarrow> ml_ObjectMeta ml s m = (m', s') \<longrightarrow>
        keeps_types mok s s' \<and> mok s' (om_Rest m')) \<and>
     (\<forall>s x x' s'. store_ok mok s \<longrightarrow> mok s x \<longrightarrow> ml_ListMeta ml s x = (x', s') \<longrightarrow>
        keeps_types mok s s' \<and> mok s' x') \<and>
     (\<forall>s l l' s'. store_ok mok s \<longrightarrow> load_time s l \<noteq> None \<longrightarrow> ml_Time ml s l = (l', s') \<longrightarrow>
        keeps_types mok s s' \<and> load_time s' l' \<noteq> None)"

lemma metalib_typedD:
  assumes "metalib_typed ml mv mok"
  shows "meta_mono mok" and "mok s (ml_zero ml)"
    and "store_ok mok s \<Longrightarrow> mok s x \<Longrightarrow> mv s x \<noteq> None"
    and "store_ok mok s \<Longrightarrow> mok s (om_Rest m) \<Longrightarrow> ml_ObjectMeta ml s m = (m', s') \<Longrightarrow>
      keeps_types mok s s' \<and> mok s' (om_Rest m')"
    and "store_ok mok s \<Longrightarrow> mok s x \<Longrightarrow> ml_ListMeta ml s x = (x', s') \<Longrightarrow>
      keeps_types mok s s' \<and> mok s' x'"
    and "store_ok mok s \<Longrightarrow> load_time s l \<noteq> None \<Longrightarrow> ml_Time ml s l = (l', s') \<Longrightarrow>
      keeps_types mok s s' \<and> load_time s' l' \<noteq> None"
proof -
  note lib = assms [unfolded metalib_typed_def]
  from lib show "meta_mono mok" by (elim conjE)
  from lib show "mok s (ml_zero ml)" by (elim conjE) blast
  from lib show "store_ok mok s \<Longrightarrow> mok s x \<Longrightarrow> mv s x \<noteq> None" by (elim conjE) blast
  from lib show "store_ok mok s \<Longrightarrow> mok s (om_Rest m) \<Longrightarrow> ml_ObjectMeta ml s m = (m', s') \<Longrightarrow>
      keeps_types mok s s' \<and> mok s' (om_Rest m')" by (elim conjE) blast
  from lib show "store_ok mok s \<Longrightarrow> mok s x \<Longrightarrow> ml_ListMeta ml s x = (x', s') \<Longrightarrow>
      keeps_types mok s s' \<and> mok s' x'" by (elim conjE) blast
  from lib show "store_ok mok s \<Longrightarrow> load_time s l \<noteq> None \<Longrightarrow> ml_Time ml s l = (l', s') \<Longrightarrow>
      keeps_types mok s s' \<and> load_time s' l' \<noteq> None" by (elim conjE) blast
qed

lemma keeps_trans: "keeps_types mok s t \<Longrightarrow> keeps_types mok t u \<Longrightarrow> keeps_types mok s u"
  by (auto simp: keeps_types_def intro: extends_trans)

lemma keeps_store: "keeps_types mok s t \<Longrightarrow> store_ok mok t"
  by (simp add: keeps_types_def)

lemma keeps_refl: "store_ok mok s \<Longrightarrow> keeps_types mok s s"
  by (simp add: keeps_types_def)

lemma for_range_typed:
  assumes "\<And>i u t. store_ok mok u \<Longrightarrow> body i u = Some t \<Longrightarrow> keeps_types mok u t"
  shows "store_ok mok s \<Longrightarrow> for_range body is s = Some t \<Longrightarrow> keeps_types mok s t"
proof (induction "is" arbitrary: s)
  case (Cons i "is")
  from Cons.prems(2) obtain u where u: "body i s = Some u" "for_range body is u = Some t"
    by (auto simp: bind_eq_Some_conv)
  from assms [OF Cons.prems(1) u(1)] have "keeps_types mok s u" .
  moreover from Cons.IH [OF keeps_store [OF this] u(2)] have "keeps_types mok u t" .
  ultimately show ?case by (rule keeps_trans)
qed (simp add: keeps_refl)

lemma cond_into_typed:
  assumes lib: "metalib_typed ml mv mok" and s: "store_ok mok s"
    and t: "IssuerCondition_DeepCopyInto ml s i q = Some t"
  shows "keeps_types mok s t"
proof -
  note mono = metalib_typedD(1) [OF lib]
  from t obtain v s1 v1 where v: "load_cond s i = Some v" "put_cond s q v = Some s1" "load_cond s1 i = Some v1"
    and rest: "(case hc_LastTransitionTime v1 of None \<Rightarrow> Some s1
      | Some l \<Rightarrow> (let (l', s) = ml_Time ml s1 l
                 in load_cond s q \<bind> (\<lambda>w. put_cond s q (w\<lparr>hc_LastTransitionTime := Some l'\<rparr>)))) = Some t"
    by (auto simp: IssuerCondition_DeepCopyInto_def bind_eq_Some_conv)
  have s1: "keeps_types mok s s1" by (rule put_cond_ok [OF mono s load_cond_ok [OF s v(1)] v(2)])
  show ?thesis
  proof (cases "hc_LastTransitionTime v1")
    case None
    with rest s1 show ?thesis by simp
  next
    case (Some l)
    obtain l' s2 where copy: "ml_Time ml s1 l = (l', s2)" by (cases "ml_Time ml s1 l")
    with rest Some obtain w where w: "load_cond s2 q = Some w"
        "put_cond s2 q (w\<lparr>hc_LastTransitionTime := Some l'\<rparr>) = Some t"
      by (auto simp: bind_eq_Some_conv)
    have "load_time s1 l \<noteq> None"
      using load_cond_ok [OF keeps_store [OF s1] v(3)] Some by (simp add: cond_ok_def)
    from metalib_typedD(6) [OF lib keeps_store [OF s1] this copy]
    have s2: "keeps_types mok s1 s2" "load_time s2 l' \<noteq> None" by auto
    then have "cond_ok s2 (w\<lparr>hc_LastTransitionTime := Some l'\<rparr>)" by (simp add: cond_ok_def)
    from put_cond_ok [OF mono keeps_store [OF s2(1)] this w(2)] s1 s2(1) show ?thesis
      by (blast intro: keeps_trans)
  qed
qed

lemma slice_made: "dest c = Some vs \<Longrightarrow> n \<le> length vs \<Longrightarrow> slice_elems dest (s @ [c]) (Slice (length s) n) \<noteq> None"
  by (simp add: slice_elems_def)

lemma spec_into_typed:
  assumes mono: "meta_mono mok" and s: "store_ok mok s" and t: "IssuerSpec_DeepCopyInto s i q = Some t"
  shows "keeps_types mok s t"
proof -
  from t obtain v s1 v1 where v: "load_spec s i = Some v" "put_spec s q v = Some s1" "load_spec s1 i = Some v1"
    by (auto simp: IssuerSpec_DeepCopyInto_def bind_eq_Some_conv)
  have s1: "keeps_types mok s s1" by (rule put_spec_ok [OF mono s load_spec_ok [OF s v(1)] v(2)])
  show ?thesis
  proof (cases "hs_CustomFields v1")
    case None
    with t v s1 show ?thesis by (simp add: IssuerSpec_DeepCopyInto_def)
  next
    case (Some sl)
    define c :: "'a cell" where "c = Fields (replicate (sl_len sl) zero_field)"
    from t v Some obtain w s3 v3 w3 where w: "load_spec (s1 @ [c]) q = Some w"
        "put_spec (s1 @ [c]) q (w\<lparr>hs_CustomFields := Some (Slice (length s1) (sl_len sl))\<rparr>) = Some s3"
        "load_spec s3 i = Some v3" "load_spec s3 q = Some w3"
        "copy_fields s3 (hs_CustomFields w3) (hs_CustomFields v3) = Some t"
      by (auto simp: IssuerSpec_DeepCopyInto_def bind_eq_Some_conv alloc_def c_def)
    have s2: "keeps_types mok s1 (s1 @ [c])"
      by (rule store_ok_append [OF mono keeps_store [OF s1]]) (simp add: c_def)
    have "spec_ok (s1 @ [c]) (w\<lparr>hs_CustomFields := Some (Slice (length s1) (sl_len sl))\<rparr>)"
      using slice_made [of fields_of c] by (simp add: spec_ok_def c_def)
    note s3 = put_spec_ok [OF mono keeps_store [OF s2] this w(2)]
    have "keeps_types mok s3 t"
    proof (cases "hs_CustomFields w3 = None \<or> hs_CustomFields v3 = None")
      case True
      with w(5) keeps_refl [OF keeps_store [OF s3]] show ?thesis
        by (auto simp: copy_fields_def split: option.splits)
    next
      case False
      then obtain d e where de: "hs_CustomFields w3 = Some d" "hs_CustomFields v3 = Some e" by auto
      with w(5) obtain es c' vs where c': "slice_elems fields_of s3 e = Some es" "cell_at s3 (sl_array d) = Some c'"
          "fields_of c' = Some vs"
          "t = s3[sl_array d := Fields (take (min (sl_len d) (sl_len e)) es @ drop (min (sl_len d) (sl_len e)) vs)]"
        by (auto simp: copy_fields_def bind_eq_Some_conv Let_def)
      have "slice_elems fields_of s3 d \<noteq> None"
        using load_spec_ok [OF keeps_store [OF s3] w(4)] de(1) by (simp add: spec_ok_def)
      with c'(2,3) have "sl_len d \<le> length vs" by (auto simp: slice_elems_iff)
      moreover have "length es = sl_len e" using c'(1) by (rule slice_elems_length)
      moreover have "c' = Fields vs" using c'(3) by (cases c') auto
      ultimately show ?thesis
        using c'(2) unfolding c'(4)
        by (intro store_ok_update [OF mono keeps_store [OF s3]]) (auto simp: cell_at_def split: if_splits)
    qed
    with s1 s2 s3 show ?thesis by (blast intro: keeps_trans)
  qed
qed

lemma status_into_typed:
  assumes lib: "metalib_typed ml mv mok" and s: "store_ok mok s" and t: "IssuerStatus_DeepCopyInto ml s i q = Some t"
  shows "keeps_types mok s t"
proof -
  note mono = metalib_typedD(1) [OF lib]
  from t obtain v s1 v1 where v: "load_status s i = Some v" "put_status_at s q v = Some s1"
      "load_status s1 i = Some v1"
    by (auto simp: IssuerStatus_DeepCopyInto_def bind_eq_Some_conv)
  have s1: "keeps_types mok s s1" by (rule put_status_ok [OF mono s load_status_ok [OF s v(1)] v(2)])
  show ?thesis
  proof (cases "hst_Conditions v1")
    case None
    with t v s1 show ?thesis by (simp add: IssuerStatus_DeepCopyInto_def)
  next
    case (Some sl)
    define c :: "'a cell" where "c = Conds (replicate (sl_len sl) zero_cond)"
    from t v Some obtain w s3 where w: "load_status (s1 @ [c]) q = Some w"
        "put_status_at (s1 @ [c]) q (w\<lparr>hst_Conditions := Some (Slice (length s1) (sl_len sl))\<rparr>) = Some s3"
        "for_range (copy_condition ml i q) [0..<sl_len sl] s3 = Some t"
      by (auto simp: IssuerStatus_DeepCopyInto_def bind_eq_Some_conv alloc_def c_def)
    have s2: "keeps_types mok s1 (s1 @ [c])"
      by (rule store_ok_append [OF mono keeps_store [OF s1]])
        (simp add: c_def list_all_iff cond_ok_def zero_cond_def)
    have "status_ok (s1 @ [c]) (w\<lparr>hst_Conditions := Some (Slice (length s1) (sl_len sl))\<rparr>)"
      using slice_made [of conds_of c] by (simp add: status_ok_def c_def)
    note s3 = put_status_ok [OF mono keeps_store [OF s2] this w(2)]
    have "keeps_types mok s3 t"
      by (rule for_range_typed [OF _ keeps_store [OF s3] w(3)])
        (auto simp: copy_condition_def bind_eq_Some_conv intro: cond_into_typed [OF lib])
    with s1 s2 s3 show ?thesis by (blast intro: keeps_trans)
  qed
qed

lemma object_into_typed:
  assumes lib: "metalib_typed ml mv mok" and s: "store_ok mok s" and t: "object_into k ml s i q = Some t"
  shows "keeps_types mok s t"
proof -
  note mono = metalib_typedD(1) [OF lib]
  from t obtain v s1 v1 w1 s2 v2 where v: "load_object s (k, i) = Some v" "put_object s (k, q) v = Some s1"
      "load_object s1 (k, i) = Some v1" "load_object s1 (k, q) = Some w1"
      "put_object s1 (k, q) (w1\<lparr>ho_TypeMeta := ho_TypeMeta v1\<rparr>) = Some s2"
      "load_object s2 (k, i) = Some v2"
    by (auto simp: object_into_def bind_eq_Some_conv)
  obtain m s3 where copy: "ml_ObjectMeta ml s2 (ho_ObjectMeta v2) = (m, s3)"
    by (cases "ml_ObjectMeta ml s2 (ho_ObjectMeta v2)")
  with t v obtain w3 s4 s5 where w: "load_object s3 (k, q) = Some w3"
      "put_object s3 (k, q) (w3\<lparr>ho_ObjectMeta := m\<rparr>) = Some s4"
      "IssuerSpec_DeepCopyInto s4 (Of (k, i)) (Of (k, q)) = Some s5"
      "IssuerStatus_DeepCopyInto ml s5 (Of (k, i)) (Of (k, q)) = Some t"
    by (auto simp: object_into_def bind_eq_Some_conv)
  have s1: "keeps_types mok s s1" by (rule put_object_ok [OF mono s load_object_ok [OF s v(1)] v(2)])
  note ok1 = keeps_store [OF s1]
  have "object_ok mok s1 (w1\<lparr>ho_TypeMeta := ho_TypeMeta v1\<rparr>)"
    using load_object_ok [OF ok1 v(4)] by (simp add: object_ok_def)
  note s2 = put_object_ok [OF mono ok1 this v(5)]
  note ok2 = keeps_store [OF s2]
  have "mok s2 (om_Rest (ho_ObjectMeta v2))"
    using load_object_ok [OF ok2 v(6)] by (simp add: object_ok_def)
  from metalib_typedD(4) [OF lib ok2 this copy] have s3: "keeps_types mok s2 s3" "mok s3 (om_Rest m)" by auto
  note ok3 = keeps_store [OF s3(1)]
  have "object_ok mok s3 (w3\<lparr>ho_ObjectMeta := m\<rparr>)"
    using load_object_ok [OF ok3 w(1)] s3(2) by (simp add: object_ok_def)
  note s4 = put_object_ok [OF mono ok3 this w(2)]
  note s5 = spec_into_typed [OF mono keeps_store [OF s4] w(3)]
  note s6 = status_into_typed [OF lib keeps_store [OF s5] w(4)]
  from s1 s2 s3(1) s4 s5 s6 show ?thesis by (blast intro: keeps_trans)
qed

lemma list_into_typed:
  assumes lib: "metalib_typed ml mv mok" and s: "store_ok mok s" and t: "list_into k ml s i q = Some t"
  shows "keeps_types mok s t"
proof -
  note mono = metalib_typedD(1) [OF lib]
  have load_ok: "list_ok mok k x v" if "store_ok mok x" "load_list x (k, l) = Some v" for x l v
    using load_list_ok [OF that] by simp
  have put_ok: "keeps_types mok x y" if "store_ok mok x" "list_ok mok k x v" "put_list x (k, l) v = Some y"
    for x y l v
    using put_list_ok [OF mono that(1) _ that(3)] that(2) by simp
  from t obtain v s1 v1 w1 s2 v2 where v: "load_list s (k, i) = Some v" "put_list s (k, q) v = Some s1"
      "load_list s1 (k, i) = Some v1" "load_list s1 (k, q) = Some w1"
      "put_list s1 (k, q) (w1\<lparr>hl_TypeMeta := hl_TypeMeta v1\<rparr>) = Some s2"
      "load_list s2 (k, i) = Some v2"
    by (auto simp: list_into_def bind_eq_Some_conv)
  obtain m s3 where copy: "ml_ListMeta ml s2 (hl_ListMeta v2) = (m, s3)"
    by (cases "ml_ListMeta ml s2 (hl_ListMeta v2)")
  with t v obtain w3 s4 v4 where w: "load_list s3 (k, q) = Some w3"
      "put_list s3 (k, q) (w3\<lparr>hl_ListMeta := m\<rparr>) = Some s4" "load_list s4 (k, i) = Some v4"
    by (auto simp: list_into_def bind_eq_Some_conv)
  have s1: "keeps_types mok s s1" by (rule put_ok [OF s load_ok [OF s v(1)] v(2)])
  note ok1 = keeps_store [OF s1]
  have "list_ok mok k s1 (w1\<lparr>hl_TypeMeta := hl_TypeMeta v1\<rparr>)"
    using load_ok [OF ok1 v(4)] by (simp add: list_ok_def)
  note s2 = put_ok [OF ok1 this v(5)]
  note ok2 = keeps_store [OF s2]
  have "mok s2 (hl_ListMeta v2)" using load_ok [OF ok2 v(6)] by (simp add: list_ok_def)
  from metalib_typedD(5) [OF lib ok2 this copy] have s3: "keeps_types mok s2 s3" "mok s3 m" by auto
  note ok3 = keeps_store [OF s3(1)]
  have "list_ok mok k s3 (w3\<lparr>hl_ListMeta := m\<rparr>)"
    using load_ok [OF ok3 w(1)] s3(2) by (simp add: list_ok_def)
  note s4 = put_ok [OF ok3 this w(2)]
  note ok4 = keeps_store [OF s4]
  show ?thesis
  proof (cases "hl_Items v4")
    case None
    with t v copy w have "t = s4" by (simp add: list_into_def)
    with s1 s2 s3(1) s4 show ?thesis by (blast intro: keeps_trans)
  next
    case (Some sl)
    define c where "c = Objects k (replicate (sl_len sl) (zero_object ml))"
    from t v copy w Some obtain w5 s5 where w5: "load_list (s4 @ [c]) (k, q) = Some w5"
        "put_list (s4 @ [c]) (k, q) (w5\<lparr>hl_Items := Some (Slice (length s4) (sl_len sl))\<rparr>) = Some s5"
        "for_range (copy_item k ml i q) [0..<sl_len sl] s5 = Some t"
      by (auto simp: list_into_def bind_eq_Some_conv alloc_def c_def)
    have made: "keeps_types mok s4 (s4 @ [c])"
      by (rule store_ok_append [OF mono ok4])
        (simp add: c_def list_all_iff object_ok_def zero_object_def spec_ok_def zero_spec_def
           status_ok_def zero_status_def metalib_typedD(2) [OF lib])
    note okm = keeps_store [OF made]
    have "list_ok mok k (s4 @ [c]) (w5\<lparr>hl_Items := Some (Slice (length s4) (sl_len sl))\<rparr>)"
      using slice_made [of "objects_of k" c] load_ok [OF okm w5(1)] by (simp add: list_ok_def c_def)
    note s5 = put_ok [OF okm this w5(2)]
    have "keeps_types mok s5 t"
      by (rule for_range_typed [OF _ keeps_store [OF s5] w5(3)])
        (auto simp: copy_item_def bind_eq_Some_conv intro: object_into_typed [OF lib])
    with s1 s2 s3(1) s4 made s5 show ?thesis by (blast intro: keeps_trans)
  qed
qed

text \<open>The method \<open>DeepCopyObject\<close> of the interface \<open>runtime.Object\<close>, by the type of its receiver.\<close>

fun DeepCopyObject ::
    "'x metalib \<Rightarrow> 'x store \<Rightarrow> runtime_ref \<Rightarrow> (runtime_ref option \<times> 'x store) option" where
  "DeepCopyObject ml s (RefObject KIssuer p) = Issuer_DeepCopyObject ml s p"
| "DeepCopyObject ml s (RefObject KClusterIssuer p) = ClusterIssuer_DeepCopyObject ml s p"
| "DeepCopyObject ml s (RefList KIssuer p) = IssuerList_DeepCopyObject ml s p"
| "DeepCopyObject ml s (RefList KClusterIssuer p) = ClusterIssuerList_DeepCopyObject ml s p"

lemma DeepCopyObject_nil:
  "DeepCopyObject ml s (RefObject k None) = Some (None, s)"
  "DeepCopyObject ml s (RefList k None) = Some (None, s)"
  by (cases k; simp add: object_copy_defs)+

lemma DeepCopyObject_eq:
  "DeepCopyObject ml s (RefObject k (Some p)) =
     map_option (\<lambda>t. (Some (RefObject k (Some (length s, 0))), t))
       (object_into k ml (s @ [Objects k [zero_object ml]]) p (length s, 0))"
  "DeepCopyObject ml s (RefList k (Some p)) =
     map_option (\<lambda>t. (Some (RefList k (Some (length s, 0))), t))
       (list_into k ml (s @ [Lists k [zero_list ml]]) p (length s, 0))"
   apply (cases k; cases "object_into k ml (s @ [Objects k [zero_object ml]]) p (length s, 0)";
      simp add: object_copy_defs)
  apply (cases k; cases "list_into k ml (s @ [Lists k [zero_list ml]]) p (length s, 0)";
      simp add: object_copy_defs)
  done

section \<open>What conforms can be read\<close>

lemma view_cond_defined: "cond_ok s c \<Longrightarrow> view_cond s c \<noteq> None"
  by (auto simp: cond_ok_def view_cond_def split: option.splits)

lemma view_spec_defined: "spec_ok s v \<Longrightarrow> view_spec s v \<noteq> None"
  by (auto simp: spec_ok_def view_spec_def split: option.splits)

lemma those_defined: "(\<And>x. x \<in> set xs \<Longrightarrow> f x \<noteq> None) \<Longrightarrow> those (map f xs) \<noteq> None"
  by (induction xs) (auto split: option.splits)

lemma view_slice_defined:
  assumes s: "store_ok mok s" and sl: "slice_elems dest s sl \<noteq> None"
    and dest: "\<And>c vs. dest c = Some vs \<Longrightarrow> c = mk vs"
    and ok: "\<And>vs. cell_ok mok s (mk vs) = list_all P vs"
    and view: "\<And>v. P v \<Longrightarrow> view s v \<noteq> None"
  shows "view_slice dest view s sl \<noteq> None"
proof -
  from sl obtain c vs where c: "cell_at s (sl_array sl) = Some c" "dest c = Some vs" "sl_len sl \<le> length vs"
    and e: "slice_elems dest s sl = Some (take (sl_len sl) vs)"
    by (auto simp: slice_elems_iff)
  have "list_all P vs" using store_ok_cell [OF s c(1)] dest [OF c(2)] ok by simp
  then have "P v" if "v \<in> set (take (sl_len sl) vs)" for v
    using that by (auto simp: list_all_iff dest: in_set_takeD)
  with view have "those (map (view s) (take (sl_len sl) vs)) \<noteq> None" by (intro those_defined) blast
  then show ?thesis by (simp add: view_slice_def e)
qed

lemma view_status_defined: "store_ok mok s \<Longrightarrow> status_ok s v \<Longrightarrow> view_status s v \<noteq> None"
proof (cases "hst_Conditions v")
  case (Some sl)
  assume "store_ok mok s" "status_ok s v"
  with Some have "view_slice conds_of view_cond s sl \<noteq> None"
    by (intro view_slice_defined [where mk = Conds and P = "cond_ok s"])
      (auto simp: status_ok_def dest: dest_cell view_cond_defined)
  with Some show ?thesis by (auto simp: view_status_def)
qed (simp add: view_status_def)

lemma view_object_defined:
  "metalib_typed ml mv mok \<Longrightarrow> store_ok mok s \<Longrightarrow> object_ok mok s v \<Longrightarrow> view_object mv s v \<noteq> None"
  using metalib_typedD(3) [of ml mv mok s "om_Rest (ho_ObjectMeta v)"]
    view_spec_defined [of s "ho_Spec v"] view_status_defined [of mok s "ho_Status v"]
  by (auto simp: object_ok_def view_object_def)

lemma view_list_defined:
  assumes lib: "metalib_typed ml mv mok" and s: "store_ok mok s" and v: "list_ok mok k s v"
  shows "view_list mv k s v \<noteq> None"
proof -
  have m: "mv s (hl_ListMeta v) \<noteq> None" using metalib_typedD(3) [OF lib s] v by (simp add: list_ok_def)
  have "view_slice (objects_of k) (view_object mv) s sl \<noteq> None" if "hl_Items v = Some sl" for sl
    using that v
    by (intro view_slice_defined [where mk = "Objects k" and P = "object_ok mok s", OF s])
      (auto simp: list_ok_def dest: dest_cell dest!: view_object_defined [OF lib s])
  with m show ?thesis by (auto simp: view_list_def split: option.splits)
qed

lemma read_object_defined:
  assumes lib: "metalib_typed ml mv mok" and s: "store_ok mok s" and p: "load_object s (k, p) \<noteq> None"
  shows "\<exists>d. read_object mv k s p = Some d"
proof -
  from p obtain v where v: "load_object s (k, p) = Some v" by blast
  from view_object_defined [OF lib s load_object_ok [OF s v]] v show ?thesis
    by (auto simp: read_object_def)
qed

lemma read_list_defined:
  assumes lib: "metalib_typed ml mv mok" and s: "store_ok mok s" and p: "load_list s (k, p) \<noteq> None"
  shows "\<exists>d. read_list mv k s p = Some d"
proof -
  from p obtain v where v: "load_list s (k, p) = Some v" by blast
  from view_list_defined [OF lib s, of k v] load_list_ok [OF s v] v show ?thesis
    by (auto simp: read_list_def)
qed

lemma read_status_defined:
  assumes s: "store_ok mok s" and p: "load_status s p \<noteq> None"
  shows "\<exists>b d. read_status s p = Some (b, d)"
proof -
  from p obtain v where v: "load_status s p = Some v" by blast
  from view_status_defined [OF s load_status_ok [OF s v]] v show ?thesis
    by (auto simp: read_status_def)
qed

section \<open>SetReadyCondition\<close>

lemma cond_slice_ok:
  assumes "store_ok mok s" "slice_elems conds_of s sl = Some cs" "c \<in> set cs"
  shows "cond_ok s c"
proof -
  from assms(2) obtain e us where e: "cell_at s (sl_array sl) = Some e" "conds_of e = Some us"
      "cs = take (sl_len sl) us"
    by (auto simp: slice_elems_iff)
  with store_ok_cell [OF assms(1) e(1)] dest_cell(1) [OF e(2)] assms(3) show ?thesis
    by (auto simp: list_all_iff dest: in_set_takeD)
qed

lemma append_cond_typed:
  assumes mono: "meta_mono mok" and s: "store_ok mok s" and c: "cond_ok s c"
    and sl: "\<And>x. sl = Some x \<Longrightarrow> slice_elems conds_of s x \<noteq> None"
    and t: "append_cond grow s sl c = Some (xs, t)"
  shows "keeps_types mok s t \<and> slice_elems conds_of t xs \<noteq> None"
proof (cases sl)
  case None
  define n :: "'a cell" where "n = Conds (c # replicate (grow 0) zero_cond)"
  from t None have t': "t = s @ [n]" "xs = Slice (length s) 1" by (auto simp: append_cond_def n_def)
  have "keeps_types mok s (s @ [n])"
    by (rule store_ok_append [OF mono s])
      (auto simp: n_def list_all_iff cond_ok_def zero_cond_def intro: cond_ok_extends [OF extends_append c, unfolded cond_ok_def])
  with t' slice_made [of conds_of n _ 1 s] show ?thesis by (simp add: n_def)
next
  case (Some x)
  from t Some obtain e us where e: "cell_at s (sl_array x) = Some e" "conds_of e = Some us"
    by (auto simp: append_cond_def bind_eq_Some_conv)
  have us: "list_all (cond_ok s) us" using store_ok_cell [OF s e(1)] dest_cell(1) [OF e(2)] by simp
  show ?thesis
  proof (cases "sl_len x < length us")
    case True
    with t Some e have t': "t = s[sl_array x := Conds (us[sl_len x := c])]" "xs = Slice (sl_array x) (Suc (sl_len x))"
      by (auto simp: append_cond_def bind_eq_Some_conv)
    have "keeps_types mok s t"
      unfolding t'
      using e(1) dest_cell(1) [OF e(2)] us c set_update_subset_insert [of us "sl_len x" c]
      by (intro store_ok_update [OF mono s]) (auto simp: cell_at_def list_all_iff split: if_splits)
    moreover have "slice_elems conds_of t xs \<noteq> None"
      using True cell_at_bound [OF e(1)] by (simp add: t' slice_elems_def cell_at_def)
    ultimately show ?thesis by blast
  next
    case False
    define n :: "'a cell" where "n = Conds (us @ c # replicate (grow (sl_len x)) zero_cond)"
    from t Some e False have t': "t = s @ [n]" "xs = Slice (length s) (Suc (sl_len x))"
      by (auto simp: append_cond_def bind_eq_Some_conv n_def)
    have "cell_ok mok (s @ [n]) n"
      using us c by (auto simp: n_def list_all_iff intro!: cond_ok_extends [OF extends_append])
        (simp add: cond_ok_def zero_cond_def)
    from store_ok_append [OF mono s this]
    have "keeps_types mok s t" by (simp add: t')
    moreover have "slice_elems conds_of t xs \<noteq> None"
      using sl [OF Some] e False
      by (simp add: t'(1) t'(2) slice_elems_def cell_at_def n_def split: if_splits)
    ultimately show ?thesis by blast
  qed
qed

lemma obtain_ready_typed:
  assumes mono: "meta_mono mok" and s: "store_ok mok s" and t: "obtain_ready grow s p = Some (q, t)"
  shows "keeps_types mok s t"
proof -
  obtain found s1 where get: "GetReadyCondition_at s p = Some (found, s1)"
    using t by (auto simp: obtain_ready_def bind_eq_Some_conv)
  then obtain st cs where st: "load_status s p = Some st"
      "(case hst_Conditions st of None \<Rightarrow> Some [] | Some sl \<Rightarrow> slice_elems conds_of s sl) = Some cs"
      "(found, s1) = (case find (\<lambda>c. hc_Type c = IssuerConditionReady) cs of None \<Rightarrow> (None, s)
         | Some c \<Rightarrow> (let (q, s) = new_var Conds c s in (Some q, s)))"
    by (auto simp: GetReadyCondition_at_def bind_eq_Some_conv)
  have fresh: "keeps_types mok s (s @ [Conds [c]])" if "cond_ok s c" for c
    by (rule store_ok_append [OF mono s]) (simp add: cond_ok_extends [OF extends_append that])
  show ?thesis
  proof (cases "find (\<lambda>c. hc_Type c = IssuerConditionReady) cs")
    case (Some c)
    then have "c \<in> set cs" by (auto simp: find_Some_iff)
    with st(2) have "cond_ok s c" by (auto split: option.splits intro: cond_slice_ok [OF s])
    with fresh st(3) Some get t show ?thesis by (auto simp: obtain_ready_def new_var_def)
  next
    case None
    define c where "c = zero_cond\<lparr>hc_Type := IssuerConditionReady\<rparr>"
    define s2 where "s2 = s @ [Conds [c]]"
    from None st(3) get t obtain st2 xs s3 st3 where w: "load_status s2 p = Some st2"
        "append_cond grow s2 (hst_Conditions st2) c = Some (xs, s3)" "load_status s3 p = Some st3"
        "put_status_at s3 p (st3\<lparr>hst_Conditions := Some xs\<rparr>) = Some t"
      by (auto simp: obtain_ready_def bind_eq_Some_conv new_var_def s2_def c_def load_cond_var)
    have c: "cond_ok x c" for x :: "'a store" by (simp add: c_def cond_ok_def zero_cond_def)
    have s2: "keeps_types mok s s2" unfolding s2_def using c by (rule fresh)
    note ok2 = keeps_store [OF s2]
    from append_cond_typed [OF mono ok2 c _ w(2)] load_status_ok [OF ok2 w(1)]
    have s3: "keeps_types mok s2 s3" "slice_elems conds_of s3 xs \<noteq> None"
      by (auto simp: status_ok_def split: option.splits)
    then have "status_ok s3 (st3\<lparr>hst_Conditions := Some xs\<rparr>)" by (simp add: status_ok_def)
    note put_status_ok [OF mono keeps_store [OF s3(1)] this w(4)]
    with s2 s3(1) show ?thesis by (blast intro: keeps_trans)
  qed
qed

lemma cond_ok_fields [simp]:
  "cond_ok s (c\<lparr>hc_Status := x\<rparr>) = cond_ok s c" "cond_ok s (c\<lparr>hc_Reason := x\<rparr>) = cond_ok s c"
  "cond_ok s (c\<lparr>hc_Message := x\<rparr>) = cond_ok s c"
  by (simp_all add: cond_ok_def)

lemma change_status_typed:
  assumes mono: "meta_mono mok" and s: "store_ok mok s" and t: "change_status s q now cs = Some t"
  shows "keeps_types mok s t"
proof -
  note put = put_cond_ok [OF mono]
  from t obtain c where c: "load_cond s q = Some c" by (auto simp: change_status_def bind_eq_Some_conv)
  show ?thesis
  proof (cases "hc_Status c = cs")
    case True
    with t c keeps_refl [OF s] show ?thesis by (simp add: change_status_def)
  next
    case False
    with t c obtain u d where u: "put_cond s q (c\<lparr>hc_Status := cs\<rparr>) = Some u"
        "load_cond (u @ [Times [now]]) q = Some d"
        "put_cond (u @ [Times [now]]) q (d\<lparr>hc_LastTransitionTime := Some (length u, 0)\<rparr>) = Some t"
      by (auto simp: change_status_def bind_eq_Some_conv new_var_def)
    have ku: "keeps_types mok s u" by (rule put [OF s _ u(1)]) (use load_cond_ok [OF s c] in simp)
    have kt: "keeps_types mok u (u @ [Times [now]])"
      by (rule store_ok_append [OF mono keeps_store [OF ku]]) simp
    have "keeps_types mok (u @ [Times [now]]) t"
      by (rule put [OF keeps_store [OF kt] _ u(3)]) (simp add: cond_ok_def load_time_def load_elem_iff)
    with ku kt show ?thesis by (blast intro: keeps_trans)
  qed
qed

lemma update_ready_typed:
  assumes mono: "meta_mono mok" and s: "store_ok mok s" and t: "update_ready s q now cs r m = Some t"
  shows "keeps_types mok s t"
proof -
  note put = put_cond_ok [OF mono]
  from t obtain s1 d u e where u: "change_status s q now cs = Some s1" "load_cond s1 q = Some d"
      "put_cond s1 q (d\<lparr>hc_Reason := r\<rparr>) = Some u"
      "load_cond u q = Some e" "put_cond u q (e\<lparr>hc_Message := m\<rparr>) = Some t"
    by (auto simp: update_ready_def bind_eq_Some_conv)
  note s1 = change_status_typed [OF mono s u(1)]
  note ok1 = keeps_store [OF s1]
  have ku: "keeps_types mok s1 u" by (rule put [OF ok1 _ u(3)]) (use load_cond_ok [OF ok1 u(2)] in simp)
  note oku = keeps_store [OF ku]
  have "keeps_types mok u t" by (rule put [OF oku _ u(5)]) (use load_cond_ok [OF oku u(4)] in simp)
  with s1 ku show ?thesis by (blast intro: keeps_trans)
qed

lemma write_back_typed:
  assumes mono: "meta_mono mok" and s: "store_ok mok s"
  shows "write_back p q xs is s = Some t \<Longrightarrow> keeps_types mok s t"
  by (induction "is")
    (use keeps_refl [OF s] in \<open>auto simp: bind_eq_Some_conv split: if_splits
       intro: put_cond_ok [OF mono s] load_cond_ok [OF s]\<close>)

lemma SetReadyCondition_at_typed:
  assumes mono: "meta_mono mok" and s: "store_ok mok s"
    and t: "SetReadyCondition_at grow s p now cs r m = Some t"
  shows "keeps_types mok s t"
proof -
  from t obtain q s1 s2 st where w: "obtain_ready grow s p = Some (q, s1)"
      "update_ready s1 q now cs r m = Some s2" "load_status s2 p = Some st"
      "(case hst_Conditions st of None \<Rightarrow> Some s2 | Some xs \<Rightarrow> write_back p q xs [0..<sl_len xs] s2) = Some t"
    by (auto simp: SetReadyCondition_at_def bind_eq_Some_conv)
  note s1 = obtain_ready_typed [OF mono s w(1)]
  note s2 = update_ready_typed [OF mono keeps_store [OF s1] w(2)]
  have "keeps_types mok s2 t"
    using w(4) write_back_typed [OF mono keeps_store [OF s2]] keeps_refl [OF keeps_store [OF s2]]
    by (auto split: option.splits)
  with s1 s2 show ?thesis by (blast intro: keeps_trans)
qed

lemma DeepCopyObject_typed:
  assumes lib: "metalib_ok ml mv mr" and typed: "metalib_typed ml mv mok" and s: "store_ok mok s"
    and x: "ref_ok s x"
  shows "\<exists>y t. DeepCopyObject ml s x = Some (y, t) \<and> store_ok mok t \<and> extends s t \<and>
           (case y of None \<Rightarrow> True | Some z \<Rightarrow> ref_ok t z)"
proof -
  note mono = metalib_typedD(1) [OF typed]
  note zero = metalib_typedD(2) [OF typed]
  have zs: "object_ok mok u (zero_object ml)" "list_ok mok k u (zero_list ml)" for u k
    using zero by (simp_all add: object_ok_def list_ok_def zero_object_def zero_list_def zero_spec_def
        zero_status_def spec_ok_def status_ok_def)
  show ?thesis
  proof (cases x)
    case (RefObject k o')
    show ?thesis
    proof (cases o')
      case None
      with RefObject s show ?thesis by (simp add: DeepCopyObject_nil)
    next
      case (Some p)
      with RefObject x have "load_object s (k, p) \<noteq> None" by simp
      from read_object_defined [OF typed s this] obtain d where d: "read_object mv k s p = Some d" ..
      from object_copy [OF lib d] obtain n where
        n: "object_into k ml (s @ [Objects k [zero_object ml]]) p (length s, 0) = Some (s @ n)"
          "read_object mv k (s @ n) (length s, 0) = Some d" by blast
      have "keeps_types mok s (s @ [Objects k [zero_object ml]])"
        by (rule store_ok_append [OF mono s]) (simp add: zs)
      from object_into_typed [OF typed keeps_store [OF this] n(1)] have "store_ok mok (s @ n)"
        by (rule keeps_store)
      with n RefObject Some show ?thesis
        by (auto simp: DeepCopyObject_eq read_object_def bind_eq_Some_conv)
    qed
  next
    case (RefList k o')
    show ?thesis
    proof (cases o')
      case None
      with RefList s show ?thesis by (simp add: DeepCopyObject_nil)
    next
      case (Some p)
      with RefList x have "load_list s (k, p) \<noteq> None" by simp
      from read_list_defined [OF typed s this] obtain d where d: "read_list mv k s p = Some d" ..
      from list_copy [OF lib d] obtain n where
        n: "list_into k ml (s @ [Lists k [zero_list ml]]) p (length s, 0) = Some (s @ n)"
          "read_list mv k (s @ n) (length s, 0) = Some d" by blast
      have "keeps_types mok s (s @ [Lists k [zero_list ml]])"
        by (rule store_ok_append [OF mono s]) (simp add: zs)
      from list_into_typed [OF typed keeps_store [OF this] n(1)] have "store_ok mok (s @ n)"
        by (rule keeps_store)
      with n RefList Some show ?thesis
        by (auto simp: DeepCopyObject_eq read_list_def bind_eq_Some_conv)
    qed
  qed
qed

end
