(* ===== verification/HeapTheorems.thy ===== *)
theory HeapTheorems
  imports HeapSafety Examples
begin

text \<open>
  The properties of the deep copies and of the Ready condition in memory, with a small store as
  their witness: an issuer whose deletion time and whose condition share a variable.
\<close>

section \<open>What is done with a copy\<close>

type_synonym ready_report = "go_time \<times> string \<times> string \<times> string"

fun report_all ::
    "(nat \<Rightarrow> nat) \<Rightarrow> inner_ptr \<Rightarrow> ready_report list \<Rightarrow> 'x store \<Rightarrow> 'x store option" where
  "report_all grow p [] s = Some s"
| "report_all grow p ((now, cs, r, m) # rs) s = do {
     s \<leftarrow> SetReadyCondition_at grow s p now cs r m;
     report_all grow p rs s }"

fun reported :: "ready_report list \<Rightarrow> issuer_status \<Rightarrow> issuer_status" where
  "reported [] d = d"
| "reported ((now, cs, r, m) # rs) d = reported rs (SetReadyCondition now cs r m d)"

lemma report_all_ok:
  "read_status s p = Some (b, d) \<Longrightarrow>
     \<exists>t b'. report_all grow p rs s = Some t \<and> read_status t p = Some (b', reported rs d) \<and>
       length s \<le> length t \<and> (\<forall>a<length s. a \<notin> status_arrays s p \<longrightarrow> t ! a = s ! a)"
proof (induction rs arbitrary: s b d)
  case Nil
  then show ?case by simp
next
  case (Cons x rs)
  obtain now cs r m where x: "x = (now, cs, r, m)" by (cases x)
  from SetReadyCondition_at_ok [OF Cons.prems, of grow now cs r m] obtain u where
    u: "SetReadyCondition_at grow s p now cs r m = Some u"
      "read_status u p = Some (False, SetReadyCondition now cs r m d)" "length s \<le> length u"
      "\<And>a. a < length s \<Longrightarrow> a \<notin> status_arrays s p \<Longrightarrow> u ! a = s ! a"
      "status_arrays u p \<subseteq> status_arrays s p \<union> {length s..<length u}"
    by blast
  from Cons.IH [OF u(2)] obtain t b' where
    t: "report_all grow p rs u = Some t" "read_status t p = Some (b', reported rs (SetReadyCondition now cs r m d))"
      "length u \<le> length t" "\<And>a. a < length u \<Longrightarrow> a \<notin> status_arrays u p \<Longrightarrow> t ! a = u ! a"
    by blast
  have "t ! a = s ! a" if "a < length s" "a \<notin> status_arrays s p" for a
  proof -
    have "a < length u" "a \<notin> status_arrays u p" using that u(3,5) by auto
    then show ?thesis using t(4) u(4) that by simp
  qed
  with x u t show ?case by auto
qed

text \<open>The status of an object, read through a pointer to it.\<close>

lemma read_status_of_object:
  assumes "read_object mv k s p = Some d"
  shows "read_status s (Of (k, p)) = Some (ov_Status d)"
    and "status_arrays s (Of (k, p)) \<subseteq> object_arrays mr k s p"
proof -
  from assms obtain v where v: "load_object s (k, p) = Some v" "view_object mv s v = Some d"
    by (auto simp: read_object_def bind_eq_Some_conv)
  then show "read_status s (Of (k, p)) = Some (ov_Status d)"
    by (auto simp: read_status_def elim!: view_objectE)
  from v show "status_arrays s (Of (k, p)) \<subseteq> object_arrays mr k s p"
    by (auto simp: status_arrays_def object_arrays_def reach_object_def)
qed

lemma copy_then_write:
  assumes lib: "metalib_ok ml mv mr" and d: "read_object mv k s p = Some d"
    and copy: "DeepCopyObject ml s (RefObject k (Some p)) = Some (Some (RefObject k (Some q)), s1)"
  obtains "read_status s1 (Of (k, q)) = Some (ov_Status d)" "length s \<le> length s1"
    "\<And>a. a < length s \<Longrightarrow> s1 ! a = s ! a" "\<And>a. a < length s \<Longrightarrow> a \<notin> status_arrays s1 (Of (k, q))"
proof -
  from object_copy [OF lib d] obtain n where
    n: "object_into k ml (s @ [Objects k [zero_object ml]]) p (length s, 0) = Some (s @ n)"
      "read_object mv k (s @ n) (length s, 0) = Some d"
      "object_arrays mr k (s @ n) (length s, 0) \<subseteq> {length s..<length (s @ n)}" by blast
  with copy have "q = (length s, 0)" "s1 = s @ n" by (simp_all add: DeepCopyObject_eq)
  with n(3) read_status_of_object(1) [OF n(2)] read_status_of_object(2) [OF n(2), of mr] show thesis
    by (intro that) (auto simp: nth_append)
qed

text \<open>One report on a copy.\<close>

lemma copy_protects_copy:
  assumes "metalib_ok ml mv mr" and "read_object mv k s p = Some d"
    and "DeepCopyObject ml s (RefObject k (Some p)) = Some (Some (RefObject k (Some q)), s1)"
  shows "\<exists>t. SetReadyCondition_at grow s1 (Of (k, q)) now cs r m = Some t \<and>
    read_status t (Of (k, q)) = Some (False, SetReadyCondition now cs r m (snd (ov_Status d))) \<and>
    read_object mv k t p = Some d"
proof -
  from copy_then_write [OF assms] have c: "read_status s1 (Of (k, q)) = Some (ov_Status d)"
      "length s \<le> length s1" "\<And>a. a < length s \<Longrightarrow> s1 ! a = s ! a"
      "\<And>a. a < length s \<Longrightarrow> a \<notin> status_arrays s1 (Of (k, q))" by blast+
  then have "read_status s1 (Of (k, q)) = Some (fst (ov_Status d), snd (ov_Status d))" by simp
  from SetReadyCondition_at_ok [OF this, of grow now cs r m] obtain t where
    t: "SetReadyCondition_at grow s1 (Of (k, q)) now cs r m = Some t"
      "read_status t (Of (k, q)) = Some (False, SetReadyCondition now cs r m (snd (ov_Status d)))"
      "length s1 \<le> length t"
      "\<And>a. a < length s1 \<Longrightarrow> a \<notin> status_arrays s1 (Of (k, q)) \<Longrightarrow> t ! a = s1 ! a" by blast
  have "read_object mv k t p = Some d"
    by (rule read_object_agree [OF assms(1,2)]) (use c t in auto)
  with t show ?thesis by blast
qed

section \<open>The example\<close>

text \<open>
  Here the rest of the metadata is the deletion time: a pointer to a time, or nil. The copies
  follow the documentation: nil stays nil, a time gets a variable of its own.
\<close>

definition ex_copy_time :: "(loc option) store \<Rightarrow> loc \<Rightarrow> loc \<times> (loc option) store" where
  "ex_copy_time s l = (case load_time s l of
     None \<Rightarrow> (l, s) | Some t \<Rightarrow> ((length s, 0), s @ [Times [t]]))"

definition ex_copy_meta ::
    "(loc option) store \<Rightarrow> loc option \<Rightarrow> loc option \<times> (loc option) store" where
  "ex_copy_meta s x = (case x of
     None \<Rightarrow> (None, s) | Some l \<Rightarrow> (let (l', s') = ex_copy_time s l in (Some l', s')))"

definition ex_metalib :: "(loc option) metalib" where
  "ex_metalib = \<lparr>ml_zero = None,
     ml_ObjectMeta = (\<lambda>s m. let (x, s') = ex_copy_meta s (om_Rest m) in (m\<lparr>om_Rest := x\<rparr>, s')),
     ml_ListMeta = ex_copy_meta, ml_Time = ex_copy_time\<rparr>"

definition ex_mv :: "(loc option) store \<Rightarrow> loc option \<Rightarrow> go_time option option" where
  "ex_mv s x = (case x of None \<Rightarrow> Some None | Some l \<Rightarrow> map_option Some (load_time s l))"

definition ex_mr :: "(loc option) store \<Rightarrow> loc option \<Rightarrow> addr set" where
  "ex_mr s x = (case x of None \<Rightarrow> {} | Some l \<Rightarrow> {fst l})"

definition ex_mok :: "(loc option) store \<Rightarrow> loc option \<Rightarrow> bool" where
  "ex_mok s x = (case x of None \<Rightarrow> True | Some l \<Rightarrow> load_time s l \<noteq> None)"

lemma load_time_new [simp]: "load_time (s @ [Times [t]]) (length s, 0) = Some t"
  by (simp add: load_time_def load_elem_iff)

lemma ex_copy_meta_ok:
  assumes "ex_mv s x = Some d" and "ex_copy_meta s x = (x', s')"
  shows "only_allocates s s' \<and> ex_mv s' x' = Some d \<and> ex_mr s' x' \<subseteq> {length s..<length s'}"
  using assms
  by (auto simp: ex_copy_meta_def ex_copy_time_def ex_mv_def ex_mr_def only_allocates_def split: option.splits)

lemma ex_metalib_ok: "metalib_ok ex_metalib ex_mv ex_mr"
  unfolding metalib_ok_def
proof (intro conjI allI impI, goal_cases)
  case (1 s x d)
  then show ?case by (auto simp: ex_mv_def ex_mr_def dest: load_time_bound split: option.splits)
next
  case (2 s x d n)
  then show ?case by (auto simp: ex_mv_def load_time_append split: option.splits)
next
  case (3 s x d n)
  show ?case by (simp add: ex_mr_def)
next
  case (4 s x d a c)
  then show ?case by (auto simp: ex_mv_def ex_mr_def load_time_update split: option.splits)
next
  case (5 s x d a c)
  show ?case by (simp add: ex_mr_def)
next
  case (6 s m d m' s')
  then show ?case using ex_copy_meta_ok [of s "om_Rest m" d]
    by (auto simp: ex_metalib_def split: prod.splits)
next
  case (7 s m d m' s')
  then show ?case by (auto simp: ex_metalib_def split: prod.splits)
next
  case (8 s m d m' s')
  then show ?case by (auto simp: ex_metalib_def split: prod.splits)
next
  case (9 s m d m' s')
  then show ?case using ex_copy_meta_ok [of s "om_Rest m" d]
    by (auto simp: ex_metalib_def split: prod.splits)
next
  case (10 s m d m' s')
  then show ?case using ex_copy_meta_ok [of s "om_Rest m" d]
    by (auto simp: ex_metalib_def split: prod.splits)
next
  case (11 s x d x' s')
  then show ?case using ex_copy_meta_ok [of s x d x' s'] by (simp add: ex_metalib_def)
next
  case (12 s x d x' s')
  then show ?case using ex_copy_meta_ok [of s x d x' s'] by (simp add: ex_metalib_def)
next
  case (13 s x d x' s')
  then show ?case using ex_copy_meta_ok [of s x d x' s'] by (simp add: ex_metalib_def)
next
  case (14 s l t l' s')
  then show ?case by (auto simp: ex_metalib_def ex_copy_time_def only_allocates_def)
next
  case (15 s l t l' s')
  then show ?case by (auto simp: ex_metalib_def ex_copy_time_def)
next
  case (16 s l t l' s')
  then show ?case by (auto simp: ex_metalib_def ex_copy_time_def)
qed

lemma load_time_extends: "extends s t \<Longrightarrow> load_time s l \<noteq> None \<Longrightarrow> load_time t l \<noteq> None"
  unfolding load_time_def by (rule load_extends) simp_all

lemma ex_mono: "meta_mono ex_mok"
  unfolding meta_mono_def
proof (intro allI impI)
  fix s t x
  assume "extends s t" "ex_mok s x"
  then show "ex_mok t x" using load_time_extends [of s t] by (cases x) (simp_all add: ex_mok_def)
qed

lemma ex_copy_meta_typed:
  assumes "store_ok ex_mok s" and "ex_mok s x" and "ex_copy_meta s x = (x', s')"
  shows "keeps_types ex_mok s s' \<and> ex_mok s' x'"
  using assms store_ok_append [OF ex_mono assms(1), of "Times [t]" for t] keeps_refl [OF assms(1)]
  by (auto simp: ex_copy_meta_def ex_copy_time_def ex_mok_def split: option.splits)

lemma ex_metalib_typed: "metalib_typed ex_metalib ex_mv ex_mok"
  unfolding metalib_typed_def
proof (intro conjI allI impI, goal_cases)
  case 1
  show ?case by (rule ex_mono)
next
  case (2 s)
  show ?case by (simp add: ex_metalib_def ex_mok_def)
next
  case (3 s x)
  then show ?case by (auto simp: ex_mok_def ex_mv_def split: option.splits)
next
  case (4 s m m' s')
  then show ?case using ex_copy_meta_typed [of s "om_Rest m"]
    by (auto simp: ex_metalib_def split: prod.splits)
next
  case (5 s m m' s')
  then show ?case using ex_copy_meta_typed [of s "om_Rest m"]
    by (auto simp: ex_metalib_def split: prod.splits)
next
  case (6 s x x' s')
  then show ?case using ex_copy_meta_typed [of s x x' s'] by (simp add: ex_metalib_def)
next
  case (7 s x x' s')
  then show ?case using ex_copy_meta_typed [of s x x' s'] by (simp add: ex_metalib_def)
next
  case (8 s l l' s')
  then show ?case using store_ok_append [OF ex_mono 8(1), of "Times [t]" for t]
    by (auto simp: ex_metalib_def ex_copy_time_def)
next
  case (9 s l l' s')
  then show ?case by (auto simp: ex_metalib_def ex_copy_time_def)
qed

text \<open>An issuer whose Ready condition and deletion time point to the same variable.\<close>

definition ex_object :: "(loc option) heap_object" where
  "ex_object = \<lparr>ho_TypeMeta = \<lparr>tm_Kind = ''Issuer'', tm_APIVersion = ''v1''\<rparr>,
     ho_ObjectMeta = \<lparr>om_Namespace = ''ns'', om_Name = ''iss'', om_Rest = Some (0, 0)\<rparr>,
     ho_Spec = \<lparr>hs_URL = ''https://xc'', hs_CustomFields = Some (Slice 2 1),
        hs_AuthSecretName = ''auth'', hs_ProfileName = ''prof'', hs_SubscriberName = ''sub'',
        hs_IgnoreHostInApiResponse = False\<rparr>,
     ho_Status = \<lparr>hst_Conditions = Some (Slice 1 1)\<rparr>\<rparr>"

definition ex_heap_condition :: heap_condition where
  "ex_heap_condition = \<lparr>hc_Type = ''Ready'', hc_Status = ''True'', hc_LastTransitionTime = Some (0, 0),
     hc_Reason = ''r'', hc_Message = ''m''\<rparr>"

definition ex_store :: "(loc option) store" where
  "ex_store = [Times [7], Conds [ex_heap_condition], Fields [\<lparr>cf_Name = ''a'', cf_Value = ''b''\<rparr>],
     Objects KIssuer [ex_object],
     Lists KIssuer [\<lparr>hl_TypeMeta = \<lparr>tm_Kind = ''IssuerList'', tm_APIVersion = ''v1''\<rparr>,
        hl_ListMeta = None, hl_Items = Some (Slice 3 1)\<rparr>]]"

lemma ex_store_ok: "store_ok ex_mok ex_store"
  by (simp add: store_ok_def ex_store_def ex_object_def ex_heap_condition_def object_ok_def ex_mok_def
        spec_ok_def status_ok_def list_ok_def cond_ok_def load_time_def load_elem_def slice_elems_def
        cell_at_def)

lemma ex_loads: "load_object ex_store (KIssuer, (3, 0)) = Some ex_object"
  "load_list ex_store (KIssuer, (4, 0)) \<noteq> None"
  by (simp_all add: load_object_def load_list_def load_elem_def cell_at_def ex_store_def)

definition ex_cached :: "'v object_view \<Rightarrow> issuer" where
  "ex_cached d = \<lparr>iss_Namespace = ov_Namespace d, iss_Name = ov_Name d, iss_Spec = snd (ov_Spec d),
     iss_Status = snd (ov_Status d)\<rparr>"

lemma ex_object_read: "\<exists>d. read_object ex_mv KIssuer ex_store (3, 0) = Some d"
  by (rule read_object_defined [OF ex_metalib_typed ex_store_ok]) (simp add: ex_loads)

section \<open>The properties\<close>

text \<open>C26: \<open>DeepCopyObject\<close> of an issuer or a cluster issuer changes nothing in memory and returns a
  pointer of the same type through which the same value is read (nil and empty slices told
  apart), from arrays that are all new; a nil pointer gives the nil interface.\<close>

theorem copy_reads_the_same:
  assumes "metalib_ok ml mv mr" and "read_object mv k s p = Some d"
  shows "(\<exists>q n. DeepCopyObject ml s (RefObject k (Some p)) = Some (Some (RefObject k (Some q)), s @ n) \<and>
            read_object mv k (s @ n) q = Some d \<and>
            object_arrays mr k (s @ n) q \<subseteq> {length s..<length (s @ n)}) \<and>
    DeepCopyObject ml s (RefObject k None) = Some (None, s)"
proof -
  from object_copy [OF assms] obtain n where
    n: "object_into k ml (s @ [Objects k [zero_object ml]]) p (length s, 0) = Some (s @ n)"
      "read_object mv k (s @ n) (length s, 0) = Some d"
      "object_arrays mr k (s @ n) (length s, 0) \<subseteq> {length s..<length (s @ n)}" by blast
  from n(1) have "DeepCopyObject ml s (RefObject k (Some p)) =
      Some (Some (RefObject k (Some (length s, 0))), s @ n)"
    by (simp add: DeepCopyObject_eq)
  with n(2,3) DeepCopyObject_nil(1) show ?thesis by blast
qed

theorem copy_reads_the_same_witness:
  "\<exists>q n d. DeepCopyObject ex_metalib ex_store (RefObject KIssuer (Some (3, 0))) =
       Some (Some (RefObject KIssuer (Some q)), ex_store @ n) \<and>
     read_object ex_mv KIssuer (ex_store @ n) q = Some d"
proof -
  from ex_object_read obtain d where "read_object ex_mv KIssuer ex_store (3, 0) = Some d" ..
  from copy_reads_the_same [OF ex_metalib_ok this] show ?thesis by blast
qed

text \<open>The same for a list of issuers or cluster issuers: every item of the copy is a deep copy.\<close>

lemma list_copy_reads_the_same:
  assumes "metalib_ok ml mv mr" and "read_list mv k s p = Some d"
  shows "(\<exists>q n. DeepCopyObject ml s (RefList k (Some p)) = Some (Some (RefList k (Some q)), s @ n) \<and>
            read_list mv k (s @ n) q = Some d \<and>
            list_arrays mr k (s @ n) q \<subseteq> {length s..<length (s @ n)}) \<and>
    DeepCopyObject ml s (RefList k None) = Some (None, s)"
proof -
  from list_copy [OF assms] obtain n where
    n: "list_into k ml (s @ [Lists k [zero_list ml]]) p (length s, 0) = Some (s @ n)"
      "read_list mv k (s @ n) (length s, 0) = Some d"
      "list_arrays mr k (s @ n) (length s, 0) \<subseteq> {length s..<length (s @ n)}" by blast
  from n(1) have "DeepCopyObject ml s (RefList k (Some p)) =
      Some (Some (RefList k (Some (length s, 0))), s @ n)"
    by (simp add: DeepCopyObject_eq)
  with n(2,3) DeepCopyObject_nil(2) show ?thesis by blast
qed

lemma list_copy_example:
  "\<exists>q n d. DeepCopyObject ex_metalib ex_store (RefList KIssuer (Some (4, 0))) =
       Some (Some (RefList KIssuer (Some q)), ex_store @ n) \<and>
     read_list ex_mv KIssuer (ex_store @ n) q = Some d"
proof -
  from read_list_defined [OF ex_metalib_typed ex_store_ok ex_loads(2)] obtain d
    where "read_list ex_mv KIssuer ex_store (4, 0) = Some d" ..
  from list_copy_reads_the_same [OF ex_metalib_ok this] show ?thesis by blast
qed

text \<open>C21: reports on a deep copy, however many, are all carried out on the copy's status as
  \<open>SetReadyCondition\<close> computes them on values, and the original still reads as before.\<close>

theorem copy_protects_original:
  assumes "metalib_ok ml mv mr" and "read_object mv k s p = Some d"
    and "DeepCopyObject ml s (RefObject k (Some p)) = Some (Some (RefObject k (Some q)), s1)"
  shows "\<exists>t b. report_all grow (Of (k, q)) rs s1 = Some t \<and>
    read_status t (Of (k, q)) = Some (b, reported rs (snd (ov_Status d))) \<and>
    read_object mv k t p = Some d"
proof -
  from copy_then_write [OF assms] have c: "read_status s1 (Of (k, q)) = Some (ov_Status d)"
      "length s \<le> length s1" "\<And>a. a < length s \<Longrightarrow> s1 ! a = s ! a"
      "\<And>a. a < length s \<Longrightarrow> a \<notin> status_arrays s1 (Of (k, q))" by blast+
  then have "read_status s1 (Of (k, q)) = Some (fst (ov_Status d), snd (ov_Status d))" by simp
  from report_all_ok [OF this, of grow rs] obtain t b where
    t: "report_all grow (Of (k, q)) rs s1 = Some t"
      "read_status t (Of (k, q)) = Some (b, reported rs (snd (ov_Status d)))" "length s1 \<le> length t"
      "\<And>a. a < length s1 \<Longrightarrow> a \<notin> status_arrays s1 (Of (k, q)) \<Longrightarrow> t ! a = s1 ! a" by blast
  have "read_object mv k t p = Some d"
    by (rule read_object_agree [OF assms(1,2)]) (use c t in auto)
  with t show ?thesis by blast
qed

theorem copy_protects_original_witness:
  "\<exists>q s1 t d. DeepCopyObject ex_metalib ex_store (RefObject KIssuer (Some (3, 0))) =
       Some (Some (RefObject KIssuer (Some q)), s1) \<and>
     report_all (\<lambda>n. 1) (Of (KIssuer, q)) [(9, ''False'', ''r'', ''m'')] s1 = Some t \<and>
     read_object ex_mv KIssuer ex_store (3, 0) = Some d \<and>
     read_object ex_mv KIssuer t (3, 0) = Some d"
proof -
  from ex_object_read obtain d where d: "read_object ex_mv KIssuer ex_store (3, 0) = Some d" ..
  from object_copy [OF ex_metalib_ok d] obtain n where
    "DeepCopyObject ex_metalib ex_store (RefObject KIssuer (Some (3, 0))) =
      Some (Some (RefObject KIssuer (Some (length ex_store, 0))), ex_store @ n)"
    by (auto simp: DeepCopyObject_eq)
  with copy_protects_original [OF ex_metalib_ok d this, of "\<lambda>n. 1" "[(9, ''False'', ''r'', ''m'')]"] d
  show ?thesis by blast
qed

text \<open>C22: in memory, \<open>SetReadyCondition\<close> never panics on a status that can be read; the status then
  reads as the function on values says, every array that existed and is not one of the status
  is left as it was, and the status draws in no array of others.\<close>

theorem SetReadyCondition_in_memory:
  assumes "read_status s p = Some (b, d)"
  shows "\<exists>t. SetReadyCondition_at grow s p now cs r m = Some t \<and>
    read_status t p = Some (False, SetReadyCondition now cs r m d) \<and>
    (\<forall>a<length s. a \<notin> status_arrays s p \<longrightarrow> t ! a = s ! a) \<and>
    status_arrays t p \<subseteq> status_arrays s p \<union> {length s..<length t}"
  using SetReadyCondition_at_ok [OF assms, of grow now cs r m] by blast

theorem SetReadyCondition_in_memory_witness:
  "\<exists>t b d. read_status ex_store (Of (KIssuer, (3, 0))) = Some (b, d) \<and>
     SetReadyCondition_at (\<lambda>n. 1) ex_store (Of (KIssuer, (3, 0))) 9 ''False'' ''r'' ''m'' = Some t \<and>
     read_status t (Of (KIssuer, (3, 0))) = Some (False, SetReadyCondition 9 ''False'' ''r'' ''m'' d)"
proof -
  have "load_status ex_store (Of (KIssuer, (3, 0))) \<noteq> None" by (simp add: ex_loads)
  from read_status_defined [OF ex_store_ok this] obtain b d
    where "read_status ex_store (Of (KIssuer, (3, 0))) = Some (b, d)" by blast
  with SetReadyCondition_in_memory [OF this, of "\<lambda>n. 1" 9 "''False''" "''r''" "''m''"]
  show ?thesis by blast
qed

text \<open>C25: in a well-typed store every deep copy and every \<open>SetReadyCondition\<close> succeeds, leaves a
  well-typed store in which the old arrays have their types and lengths, and a copy of a
  well-typed pointer is well typed.\<close>

theorem memory_stays_typed:
  assumes "metalib_ok ml mv mr" and "metalib_typed ml mv mok" and "store_ok mok s"
    and "ref_ok s x" and "load_status s p \<noteq> None"
  shows "(\<exists>y t. DeepCopyObject ml s x = Some (y, t) \<and> store_ok mok t \<and> extends s t \<and>
            (case y of None \<Rightarrow> True | Some z \<Rightarrow> ref_ok t z)) \<and>
    (\<exists>t. SetReadyCondition_at grow s p now cs r m = Some t \<and> store_ok mok t \<and> extends s t)"
proof
  note mono = metalib_typedD(1) [OF assms(2)]
  show "\<exists>t. SetReadyCondition_at grow s p now cs r m = Some t \<and> store_ok mok t \<and> extends s t"
  proof -
    from read_status_defined [OF assms(3,5)] obtain b d where "read_status s p = Some (b, d)" by blast
    from SetReadyCondition_at_ok [OF this, of grow now cs r m] obtain t
      where "SetReadyCondition_at grow s p now cs r m = Some t" by blast
    with SetReadyCondition_at_typed [OF mono assms(3) this] show ?thesis
      by (auto simp: keeps_types_def)
  qed
  show "\<exists>y t. DeepCopyObject ml s x = Some (y, t) \<and> store_ok mok t \<and> extends s t \<and>
          (case y of None \<Rightarrow> True | Some z \<Rightarrow> ref_ok t z)"
    by (rule DeepCopyObject_typed [OF assms(1-4)])
qed

theorem memory_stays_typed_witness:
  "\<exists>y t. DeepCopyObject ex_metalib ex_store (RefObject KIssuer (Some (3, 0))) = Some (y, t) \<and>
     store_ok ex_mok t"
proof -
  have "ref_ok ex_store (RefObject KIssuer (Some (3, 0)))" by (simp add: ex_loads)
  moreover have "load_status ex_store (Of (KIssuer, (3, 0))) \<noteq> None" by (simp add: ex_loads)
  ultimately show ?thesis
    using memory_stays_typed [OF ex_metalib_ok ex_metalib_typed ex_store_ok] by blast
qed

text \<open>
  For comparison, two issuers that share the array of their conditions, as they would after the
  plain assignment \<open>*out = *in\<close> alone: a report on one is seen in the other.
\<close>

definition ex_shared :: "(loc option) store" where
  "ex_shared = ex_store @ [Objects KIssuer [ex_object]]"

lemma shallow_copy_leaks:
  "case SetReadyCondition_at (\<lambda>n. 0) ex_shared (Of (KIssuer, (5, 0))) 9 ''False'' ''r'' ''x'' of
     None \<Rightarrow> False
   | Some t \<Rightarrow> read_status ex_shared (Of (KIssuer, (3, 0))) \<noteq> read_status t (Of (KIssuer, (3, 0)))"
  by code_simp

text \<open>The value an object in memory stands for, as the controllers see it.\<close>

definition object_value :: "object_kind \<Rightarrow> 'v object_view \<Rightarrow> client_object" where
  "object_value k d = (case k of
     KIssuer \<Rightarrow> ObjIssuer \<lparr>iss_Namespace = ov_Namespace d, iss_Name = ov_Name d,
       iss_Spec = snd (ov_Spec d), iss_Status = snd (ov_Status d)\<rparr>
   | KClusterIssuer \<Rightarrow> ObjClusterIssuer \<lparr>cis_Name = ov_Name d,
       cis_Spec = snd (ov_Spec d), cis_Status = snd (ov_Status d)\<rparr>)"

lemma GetSpecAndStatus_value:
  "GetSpecAndStatus (object_value k d) = Inr (snd (ov_Spec d), snd (ov_Status d))"
  by (cases k) (simp_all add: object_value_def GetSpecAndStatus_def)

text \<open>C23: a reconciliation of an issuer whose object is held by a cache and handed out as a deep copy:
  the report made on the copy in memory gives exactly the status the reconciliation sends to
  the API server, and the cached object still reads as it did.\<close>

theorem reconcile_leaves_cache:
  assumes "metalib_ok ml mv mr" and "read_object mv k s p = Some d"
    and "DeepCopyObject ml s (RefObject k (Some p)) = Some (Some (RefObject k (Some q)), s1)"
    and "newIssuer r kb = Ok ro" and "get_object kb ro req = Inr (object_value k d)"
  shows "\<exists>obj' spec st t e b. oc_update (IssuerReconcile r kb req) = Some obj' \<and>
    GetSpecAndStatus obj' = Inr (spec, st) \<and> oc_events (IssuerReconcile r kb req) = [e] \<and>
    SetReadyCondition_at grow s1 (Of (k, q)) (k_now kb)
      (verdict_status (issuer_verdict r kb req (object_value k d) spec)) (ev_reason e) (ev_message e) = Some t \<and>
    read_status t (Of (k, q)) = Some (b, st) \<and> read_object mv k t p = Some d"
proof -
  define v where "v = issuer_verdict r kb req (object_value k d) (snd (ov_Spec d))"
  define st where "st = SetReadyCondition (k_now kb) (verdict_status v) EventReasonIssuerReconciler
    (verdict_message v) (snd (ov_Status d))"
  have rec: "IssuerReconcile r kb req = verdict_outcome kb v (put_status (object_value k d) st)"
    using IssuerReconcile_found [OF assms(4,5) GetSpecAndStatus_value]
    by (simp add: v_def st_def verdict_object_def)
  then have "oc_update (IssuerReconcile r kb req) = Some (put_status (object_value k d) st)"
      "oc_events (IssuerReconcile r kb req) = [verdict_event v]"
    by (simp_all add: verdict_outcome_def split: option.splits)
  moreover have "GetSpecAndStatus (put_status (object_value k d) st) = Inr (snd (ov_Spec d), st)"
    using GetSpecAndStatus_value by (rule GetSpecAndStatus_put)
  moreover from copy_protects_copy [OF assms(1-3), of grow "k_now kb" "verdict_status v"
      EventReasonIssuerReconciler "verdict_message v"]
  obtain t where "SetReadyCondition_at grow s1 (Of (k, q)) (k_now kb) (verdict_status v)
      EventReasonIssuerReconciler (verdict_message v) = Some t"
      "read_status t (Of (k, q)) = Some (False, st)" "read_object mv k t p = Some d"
    by (auto simp: st_def)
  ultimately show ?thesis by (auto simp: v_def verdict_event_def)
qed

theorem reconcile_leaves_cache_witness:
  "\<exists>q s1 t obj' d. DeepCopyObject ex_metalib ex_store (RefObject KIssuer (Some (3, 0))) =
       Some (Some (RefObject KIssuer (Some q)), s1) \<and>
     oc_update (IssuerReconcile ex_issuer_reconciler
       (ex_kube [] (ex_cr [])\<lparr>k_get_Issuer := \<lambda>n. Inr (ex_cached d)\<rparr>) (''ns'', ''iss'')) = Some obj' \<and>
     read_object ex_mv KIssuer t (3, 0) = Some d"
proof -
  from ex_object_read obtain d where d: "read_object ex_mv KIssuer ex_store (3, 0) = Some d" ..
  from object_copy [OF ex_metalib_ok d] obtain n where
    copy: "DeepCopyObject ex_metalib ex_store (RefObject KIssuer (Some (3, 0))) =
      Some (Some (RefObject KIssuer (Some (length ex_store, 0))), ex_store @ n)"
    by (auto simp: DeepCopyObject_eq)
  define kb where "kb = ex_kube [] (ex_cr [])\<lparr>k_get_Issuer := \<lambda>n. Inr (ex_cached d)\<rparr>"
  have "newIssuer ex_issuer_reconciler kb = Ok RtIssuer"
    by (simp add: kb_def newIssuer_def ex_issuer_reconciler_def ex_scheme_def ex_kube_def)
  moreover have "get_object kb RtIssuer (''ns'', ''iss'') = Inr (object_value KIssuer d)"
    by (simp add: kb_def get_object_def ex_cached_def object_value_def)
  ultimately show ?thesis
    using reconcile_leaves_cache [OF ex_metalib_ok d copy] copy unfolding kb_def by blast
qed

end
