(* ===== verification/CrExchanges.thy ===== *)
theory CrExchanges
  imports CrOutcomes
begin

text \<open>
  What the remote service answered in a reconciliation, and what of it the request shows
  afterwards. After the token a reconciliation makes at most one call; \<open>CrExchange\<close> is the answer
  to it, when it was accepted: of the signer built from the issuer the request refers to, in the
  state the remote service was in.
\<close>

section \<open>The exchange of a reconciliation\<close>

text \<open>
  A submission of a signing request and the task URL answered; a poll of a task URL with the
  resource URL and the status answered; a fetch from a resource URL with the certificate answered.
\<close>

datatype exchange =
    Accepted bytes string
  | Polled string string string
  | Served string bytes

fun answer :: "'w signer \<Rightarrow> signer_call \<Rightarrow> 'w \<Rightarrow> exchange option" where
  "answer S CallToken w = None"
| "answer S (CallSubmit t csr) w =
     (case fst (sg_SubmitCertificateRequest S t csr w) of Ok u \<Rightarrow> Some (Accepted csr u) | _ \<Rightarrow> None)"
| "answer S (CallStatus t u) w =
     (case fst (sg_RequestTaskStatus S t u w) of Ok (v, s) \<Rightarrow> Some (Polled u v s) | _ \<Rightarrow> None)"
| "answer S (CallFetch t u) w =
     (case fst (sg_FetchCertificate S t u w) of Ok cert \<Rightarrow> Some (Served u cert) | _ \<Rightarrow> None)"

text \<open>The signer of the issuer a request refers to, when it is ready and its secret is there.\<close>

definition serving_signer :: "'w cr_reconciler \<Rightarrow> kube \<Rightarrow> certificate_request \<Rightarrow> 'w signer option" where
  "serving_signer r k cr =
     (case k_scheme_new k (cr_IssuerKind cr) of Inl err \<Rightarrow> None | Inr ro \<Rightarrow>
     (case (case ro of
              RtIssuer \<Rightarrow> Some (cr_Namespace cr, cr_Namespace cr)
            | RtClusterIssuer \<Rightarrow> Some ([], rc_ClusterResourceNamespace r)
            | _ \<Rightarrow> None) of None \<Rightarrow> None | Some (ns, sns) \<Rightarrow>
     (case get_object k ro (ns, cr_IssuerName cr) of Inl err \<Rightarrow> None | Inr issuer \<Rightarrow>
     (case GetSpecAndStatus issuer of Inl err \<Rightarrow> None | Inr (spec, st) \<Rightarrow>
      if \<not> IsReady st then None
      else
     (case k_get_Secret k (sns, is_AuthSecretName spec) of Inl err \<Rightarrow> None | Inr secret \<Rightarrow>
     (case rc_SignerBuilder r spec (rc_AuthRealm r) secret of Inl err \<Rightarrow> None | Inr S \<Rightarrow> Some S))))))"

lemma serving_signer_iff: "serving_signer r k cr = Some S \<longleftrightarrow> issuer_serves r k cr S"
  unfolding serving_signer_def issuer_serves_def
  by (auto split: sum.splits runtime_object.splits option.splits)

definition CrExchange ::
    "cmutil \<Rightarrow> 'w cr_reconciler \<Rightarrow> kube \<Rightarrow> namespaced_name \<Rightarrow> 'w \<Rightarrow> exchange option" where
  "CrExchange cm r k req w =
     (case k_get_CertificateRequest k req of
        Inl err \<Rightarrow> None
      | Inr cr \<Rightarrow>
          if cr_ignored cm r cr \<or> cm_IsDenied cm cr \<or> cm_GetCondition cm cr cm_Ready = None then None
          else
            (case serving_signer r k cr of None \<Rightarrow> None | Some S \<Rightarrow>
            (case sg_GetRefreshToken S w of (res, w1) \<Rightarrow>
            (case res of Ok token \<Rightarrow> Option.bind (next_call token cr) (\<lambda>c. answer S c w1) | _ \<Rightarrow> None))))"

lemma CrExchange_signs:
  assumes "k_get_CertificateRequest k req = Inr cr" and "\<not> cr_ignored cm r cr" and "may_sign cm r k cr S"
  shows "CrExchange cm r k req w =
    (case sg_GetRefreshToken S w of (res, w1) \<Rightarrow>
      (case res of Ok token \<Rightarrow> Option.bind (next_call token cr) (\<lambda>c. answer S c w1) | _ \<Rightarrow> None))"
proof -
  have "serving_signer r k cr = Some S" using assms(3) by (simp add: serving_signer_iff may_sign_def)
  with assms show ?thesis by (auto simp: CrExchange_def may_sign_def)
qed

text \<open>It is the answer to a call the reconciliation makes.\<close>

fun asked :: "exchange \<Rightarrow> string \<Rightarrow> signer_call" where
  "asked (Accepted csr u) t = CallSubmit t csr"
| "asked (Polled u v s) t = CallStatus t u"
| "asked (Served u cert) t = CallFetch t u"

lemma answer_asked: "answer S c w = Some x \<Longrightarrow> c \<noteq> CallToken \<and> (\<exists>t. c = asked x t)"
  by (cases c) (auto split: go_result.splits)

lemma CrExchange_calls:
  assumes "CrExchange cm r k req w = Some x"
  shows "\<exists>t. oc_calls (CrReconcile cm lib r k req w) = [CallToken, asked x t]"
proof -
  obtain cr where get: "k_get_CertificateRequest k req = Inr cr"
    using assms by (auto simp: CrExchange_def split: sum.splits)
  then obtain S where ni: "\<not> cr_ignored cm r cr" and may: "may_sign cm r k cr S"
    using assms by (auto simp: CrExchange_def may_sign_def serving_signer_iff split: if_splits option.splits)
  obtain token w1 c where tok: "sg_GetRefreshToken S w = (Ok token, w1)" and c: "next_call token cr = Some c"
    and ans: "answer S c w1 = Some x"
    using assms unfolding CrExchange_signs [OF get ni may]
    by (auto split: prod.splits go_result.splits simp: bind_eq_Some_conv)
  obtain t where "c = asked x t" using answer_asked [OF ans] by blast
  moreover have "oc_calls (CrReconcile cm lib r k req w) = [CallToken, c]"
    unfolding CrReconcile_signs [OF get ni may tok] cr_deferred_simps sign_phase_calls by (simp add: c)
  ultimately show ?thesis by blast
qed

section \<open>What the request shows of it\<close>

text \<open>
  The request before and after: nothing new, or a task, a resource or a certificate that was
  answered in the exchange.
\<close>

inductive gained :: "golib \<Rightarrow> certificate_request \<Rightarrow> exchange option \<Rightarrow> certificate_request \<Rightarrow> bool" for lib cr where
  Nothing: "phase_of cr' \<in> {phase_of cr, PhWaiting, PhFailed, PhDenied} \<Longrightarrow>
    cr_Certificate cr' = cr_Certificate cr \<Longrightarrow> cr_CA cr' = cr_CA cr \<Longrightarrow> gained lib cr x cr'"
| Task: "phase_of cr' = PhSubmitted (trim_space u) \<Longrightarrow>
    cr_Certificate cr' = cr_Certificate cr \<Longrightarrow> cr_CA cr' = cr_CA cr \<Longrightarrow>
    gained lib cr (Some (Accepted (cr_Request cr) u)) cr'"
| Review: "poll_url cr u \<Longrightarrow> phase_of cr' \<in> {PhProcessing (trim_space u), PhApproved (trim_space u)} \<Longrightarrow>
    cr_Certificate cr' = cr_Certificate cr \<Longrightarrow> cr_CA cr' = cr_CA cr \<Longrightarrow> gained lib cr (Some (Polled u v s)) cr'"
| Resource: "poll_url cr u \<Longrightarrow> v \<noteq> [] \<Longrightarrow> phase_of cr' = PhSigned (trim_space v) \<Longrightarrow>
    cr_Certificate cr' = cr_Certificate cr \<Longrightarrow> cr_CA cr' = cr_CA cr \<Longrightarrow> gained lib cr (Some (Polled u v s)) cr'"
| Certificate: "fetch_url cr u \<Longrightarrow> phase_of cr' = PhIssued \<Longrightarrow>
    cr_CA cr' = (case extractCAFromPEMBundle lib (cr_Certificate cr') of None \<Rightarrow> cr_CA cr | Some ca \<Rightarrow> ca) \<Longrightarrow>
    gained lib cr (Some (Served u (cr_Certificate cr'))) cr'"

lemma gained_same: "gained lib cr x cr"
  by (rule gained.Nothing) simp_all

definition body_gained :: "golib \<Rightarrow> 'w cr_run \<Rightarrow> exchange option \<Rightarrow> body_exit \<times> 'w cr_run \<Rightarrow> bool" where
  "body_gained lib run x br \<longleftrightarrow> run_cr (snd br) = run_cr run \<or>
     (\<exists>q. fst br = Return q None) \<and> gained lib (run_cr run) x (run_cr (snd br))"

lemma body_gained_simps [simp]:
  "run_cr run' = run_cr run \<Longrightarrow> body_gained lib run x (ex, run')"
  "body_gained lib run x (Return q None, run') \<longleftrightarrow> run_cr run' = run_cr run \<or> gained lib (run_cr run) x (run_cr run')"
  by (auto simp: body_gained_def)

lemma report_status:
  assumes "cmutil_laws cm"
  shows "cr_Certificate (run_cr (report cm reason m False err run)) = cr_Certificate (run_cr run)"
    and "cr_CA (run_cr (report cm reason m False err run)) = cr_CA (run_cr run)"
  using set_condition_frame(3,4) [OF assms] by (simp_all add: report_def Let_def)

lemmas report_gained = phase_of_report report_status

lemma submit_phase_gained:
  assumes "cmutil_laws cm"
  shows "body_gained lib run (answer S (CallSubmit token (cr_Request (run_cr run))) (run_world run)) (submit_phase cm S token run)"
  using assms
  by (auto simp: submit_phase_def Let_def report_gained text_phases signer_failed_def split: prod.splits go_result.splits
      intro: gained.Task)

lemma poll_phase_gained:
  assumes "cmutil_laws cm" and "poll_url (run_cr run) u"
  shows "body_gained lib run (answer S (CallStatus token u) (run_world run)) (poll_phase cm S token u run)"
proof -
  obtain res w where call: "sg_RequestTaskStatus S token u (run_world run) = (res, w)"
    by (cases "sg_RequestTaskStatus S token u (run_world run)")
  show ?thesis
  proof (cases res)
    case (Ok p)
    obtain v s where p: "p = (v, s)" by (cases p)
    define run1 where "run1 = after_call (CallStatus token u) w run"
    have run1: "run_cr run1 = run_cr run" by (simp add: run1_def)
    note rep = report_gained [OF assms(1), of _ _ None run1, unfolded run1]
    have poll: "poll_phase cm S token u run = br \<Longrightarrow> body_gained lib run (Some (Polled u v s)) br \<Longrightarrow> ?thesis" for br
      by (simp add: call Ok p)
    note eq = poll_phase_Ok [OF call [unfolded Ok p] run1_def]
    show ?thesis
      by (rule poll [OF eq])
         (auto simp: rep run1 text_phases intro: gained.Nothing gained.Review [OF assms(2)] gained.Resource [OF assms(2)])
  qed (simp_all add: poll_phase_def call Let_def signer_failed_def)
qed

lemma fetch_phase_gained:
  assumes "cmutil_laws cm" and "fetch_url (run_cr run) u"
  shows "body_gained lib run (answer S (CallFetch token u) (run_world run)) (fetch_phase cm lib S token u run)"
proof -
  obtain res w where call: "sg_FetchCertificate S token u (run_world run) = (res, w)"
    by (cases "sg_FetchCertificate S token u (run_world run)")
  show ?thesis
  proof (cases res)
    case (Ok cert)
    have "gained lib (run_cr run) (Some (Served u cert)) cr'"
      if "phase_of cr' = PhIssued" "cr_Certificate cr' = cert"
        "cr_CA cr' = (case extractCAFromPEMBundle lib cert of None \<Rightarrow> cr_CA (run_cr run) | Some ca \<Rightarrow> ca)" for cr'
      using gained.Certificate [OF assms(2) that(1), of lib] that(2,3) by simp
    then show ?thesis
      using assms(1)
      by (cases "extractCAFromPEMBundle lib cert")
         (simp_all add: fetch_phase_def call Ok Let_def report_gained text_phases)
  qed (simp_all add: fetch_phase_def call Let_def signer_failed_def)
qed

lemma sign_phase_gained:
  assumes "cmutil_laws cm"
  shows "body_gained lib run (Option.bind (next_call token (run_cr run)) (\<lambda>c. answer S c (run_world run)))
    (sign_phase cm lib S token run)"
  unfolding sign_phase_def next_call_def Let_def
  using submit_phase_gained [OF assms, of lib run S token] poll_phase_gained [OF assms, of run _ lib S token]
    fetch_phase_gained [OF assms, of run _ lib S token]
  by (auto simp: poll_url_def fetch_url_def split: option.splits)

lemma token_phase_gained:
  assumes "cmutil_laws cm"
  shows "body_gained lib run
    (case sg_GetRefreshToken S (run_world run) of (res, w1) \<Rightarrow>
      (case res of Ok token \<Rightarrow> Option.bind (next_call token (run_cr run)) (\<lambda>c. answer S c w1) | _ \<Rightarrow> None))
    (token_phase cm lib S run)"
proof -
  obtain res w1 where tok: "sg_GetRefreshToken S (run_world run) = (res, w1)"
    by (cases "sg_GetRefreshToken S (run_world run)")
  have "body_gained lib run x br" if "body_gained lib (after_call CallToken w1 run) x br" for x br
    using that by (simp add: body_gained_def)
  with sign_phase_gained [OF assms, of lib "after_call CallToken w1 run" _ S] show ?thesis
    by (cases res) (simp_all add: token_phase_def tok Let_def signer_failed_def)
qed

text \<open>A body that does not reach the signer.\<close>

lemma cr_body_nothing:
  assumes "cmutil_laws cm" and "\<nexists>S. may_sign cm r k (run_cr run) S"
  shows "body_gained lib run x (cr_body cm lib r k run)"
proof (cases "cm_IsDenied cm (run_cr run) \<or> cm_GetCondition cm (run_cr run) cm_Ready = None")
  case True
  then show ?thesis
    by (auto simp: cr_body_def Let_def report_gained [OF assms(1)] text_phases intro!: gained.Nothing)
next
  case False
  then have nd: "\<not> cm_IsDenied cm (run_cr run)"
    and rd: "cm_GetCondition cm (run_cr run) cm_Ready \<noteq> None"
    by auto
  have stop: "body_gained lib run x (issuer_phase cm lib r k sns issuer run)"
    if "k_scheme_new k (cr_IssuerKind (run_cr run)) = Inr ro"
      and "get_object k ro (ns, cr_IssuerName (run_cr run)) = Inr issuer"
      and "(ro = RtIssuer \<and> ns = cr_Namespace (run_cr run) \<and> sns = cr_Namespace (run_cr run)) \<or>
           (ro = RtClusterIssuer \<and> ns = [] \<and> sns = rc_ClusterResourceNamespace r)"
    for ro ns sns issuer
  proof -
    have "rc_SignerBuilder r spec (rc_AuthRealm r) secret \<noteq> Inr S"
      if "GetSpecAndStatus issuer = Inr (spec, st)" "IsReady st" "k_get_Secret k (sns, is_AuthSecretName spec) = Inr secret"
      for spec st secret S
      using that \<open>k_scheme_new k _ = _\<close> \<open>get_object k ro _ = _\<close> \<open>_ \<or> _\<close> assms(2) nd rd
      unfolding may_sign_def issuer_serves_def by blast
    then show ?thesis
      by (auto simp: issuer_phase_def Let_def report_gained [OF assms(1)] text_phases signer_failed_def
          split: sum.splits prod.splits intro!: gained.Nothing)
  qed
  show ?thesis
    unfolding cr_body_def Let_def if_not_P [OF nd] if_not_P [OF rd]
    by (auto simp: report_gained [OF assms(1)] text_phases split: sum.splits runtime_object.splits
        intro!: gained.Nothing dest: stop)
qed

lemma cr_deferred_gained:
  assumes "cmutil_laws cm" and "body_gained lib run x br" and "oc_update (cr_deferred cm k br) = Some cr'"
    and "oc_stored (cr_deferred cm k br)"
  shows "gained lib (run_cr run) (if oc_error (cr_deferred cm k br) = None then x else None) cr'"
proof -
  have cr': "cr' = run_cr (deferred_run cm br)" using assms(3) by (simp add: cr_deferred_simps)
  show ?thesis
  proof (cases "\<exists>q. fst br = Return q None")
    case True
    then obtain q run' where br: "br = (Return q None, run')" by (cases br) auto
    have "oc_error (cr_deferred cm k br) = None"
      using assms(4) by (auto simp: br cr_deferred_def Let_def split: option.splits)
    with assms(2) show ?thesis by (auto simp: cr' br deferred_run_quiet gained_same)
  next
    case False
    with assms(2) have same: "run_cr (snd br) = run_cr run" by (auto simp: body_gained_def)
    show ?thesis
      by (cases "fst br"; cases br)
         (use same in \<open>auto simp: cr' deferred_run_def report_gained [OF assms(1)] text_phases gained_same
           split: option.splits intro: gained.Nothing\<close>)
  qed
qed

text \<open>What a stored update shows was answered in the same reconciliation, which ended without an error.\<close>

lemma CrReconcile_gained:
  assumes "cmutil_laws cm" and "k_get_CertificateRequest k req = Inr cr"
    and "oc_update (CrReconcile cm lib r k req w) = Some cr'" and "oc_stored (CrReconcile cm lib r k req w)"
  shows "gained lib cr (if oc_error (CrReconcile cm lib r k req w) = None then CrExchange cm r k req w else None) cr'"
proof -
  define run where "run = \<lparr>run_cr = cr, run_events = [], run_calls = [], run_world = w\<rparr>"
  have run: "run_cr run = cr" "run_world run = w" by (simp_all add: run_def)
  obtain cr0 where "k_get_CertificateRequest k req = Inr cr0" and "\<not> cr_ignored cm r cr0"
    and "CrReconcile cm lib r k req w = cr_deferred cm k
           (cr_body cm lib r k \<lparr>run_cr = cr0, run_events = [], run_calls = [], run_world = w\<rparr>)"
    using CrReconcile_update [OF assms(3)] by blast
  with assms(2) have ni: "\<not> cr_ignored cm r cr" and eq: "CrReconcile cm lib r k req w = cr_deferred cm k (cr_body cm lib r k run)"
    by (simp_all add: run_def)
  have "body_gained lib run (CrExchange cm r k req w) (cr_body cm lib r k run)"
  proof (cases "\<exists>S. may_sign cm r k (run_cr run) S")
    case True
    then obtain S where S: "may_sign cm r k (run_cr run) S" by blast
    show ?thesis
      unfolding CrExchange_signs [OF assms(2) ni S [unfolded run]] cr_body_may_sign [OF S]
      using token_phase_gained [OF assms(1), of lib run S] by (simp only: run)
  next
    case False
    then show ?thesis by (rule cr_body_nothing [OF assms(1)])
  qed
  from cr_deferred_gained [OF assms(1) this] assms(3,4) show ?thesis by (simp add: eq run)
qed

end
