(* ===== verification/Cluster.thy ===== *)
theory Cluster
  imports CrTheorems CrExchanges Manager
begin

text \<open>
  The controllers at work on one cluster. The state holds the objects of the API server, the
  remote service and the calls made to it so far. Issuer reconciliations, request
  reconciliations and the writes of everybody else interleave in any order.

  A reconciliation is one step: the object it was called for is still as it was read when the
  status is written, or the copy read was outdated and the API server refuses the write. Of the
  other objects it reads, the issuer and the secret, any version may be seen, as caches lag
  behind. Reads and writes may fail, which is the argument \<open>faults\<close> of a step.
\<close>

section \<open>The state and what a reconciliation sees of it\<close>

record 'w cluster =
  cl_issuers :: "namespaced_name \<rightharpoonup> issuer"
  cl_cluster_issuers :: "namespaced_name \<rightharpoonup> cluster_issuer"
  cl_secrets :: "namespaced_name \<rightharpoonup> (string \<rightharpoonup> bytes)"
  cl_requests :: "namespaced_name \<rightharpoonup> certificate_request"
  cl_now :: go_time
  cl_world :: 'w
  cl_calls :: "(namespaced_name \<times> signer_call) list"

text \<open>The error a read of an object of a kind meets, and the one the status update meets.\<close>

record faults =
  fa_get :: "string \<Rightarrow> namespaced_name \<Rightarrow> go_error option"
  fa_update :: "go_error option"

definition no_faults :: faults where
  "no_faults = \<lparr>fa_get = (\<lambda>kind n. None), fa_update = None\<rparr>"

definition api_get :: "go_error option \<Rightarrow> 'a option \<Rightarrow> get_error + 'a" where
  "api_get fault x =
     (case fault of
        Some e \<Rightarrow> Inl (GetOther e)
      | None \<Rightarrow> (case x of None \<Rightarrow> Inl (GetNotFound (ErrText ''not found'')) | Some v \<Rightarrow> Inr v))"

text \<open>
  What was installed: the reconcilers \<open>main\<close> sets up, the helpers of cert-manager, the library,
  and a \<open>kube\<close> that knows the scheme, the objects of other types and how names are printed.
\<close>

record 'w installation =
  in_cm :: cmutil
  in_lib :: golib
  in_issuer :: "unit issuer_reconciler"
  in_cluster_issuer :: "unit issuer_reconciler"
  in_request :: "'w cr_reconciler"
  in_base :: kube

definition kube_of :: "'w installation \<Rightarrow> faults \<Rightarrow> 'w cluster \<Rightarrow> kube" where
  "kube_of i f c = (in_base i)\<lparr>
     k_get_Issuer := (\<lambda>n. api_get (fa_get f ''Issuer'' n) (cl_issuers c n)),
     k_get_ClusterIssuer := (\<lambda>n. api_get (fa_get f ''ClusterIssuer'' n) (cl_cluster_issuers c n)),
     k_get_Secret := (\<lambda>n. api_get (fa_get f ''Secret'' n) (cl_secrets c n)),
     k_get_CertificateRequest := (\<lambda>n. api_get (fa_get f ''CertificateRequest'' n) (cl_requests c n)),
     k_update_issuer := (\<lambda>obj. fa_update f),
     k_update_cr := (\<lambda>cr. fa_update f),
     k_now := cl_now c\<rparr>"

text \<open>The reconcilers are those of a process that got to run, from arguments that give the values \<open>fl\<close>.\<close>

definition installed :: "'w installation \<Rightarrow> 'w net \<Rightarrow> flags \<Rightarrow> bool" where
  "installed i net fl \<longleftrightarrow> (\<exists>se other os mgr args rest opts cs err.
     command_line other args = Parsed fl rest \<and>
     run_command se other (in_lib i) net (in_base i) os mgr args =
       Ran opts (in_issuer i) (in_cluster_issuer i) (in_request i) cs err)"

lemma installedE:
  assumes "installed i net fl"
  obtains se os mgr opts cs err where
    "run_process se (in_lib i) net (in_base i) os mgr fl =
       Ran opts (in_issuer i) (in_cluster_issuer i) (in_request i) cs err"
  using assms unfolding installed_def by (metis run_command_parsed)

section \<open>Turns\<close>

definition store_issuer :: "namespaced_name \<Rightarrow> client_object \<Rightarrow> 'w cluster \<Rightarrow> 'w cluster" where
  "store_issuer n obj c =
     (case obj of
        ObjIssuer t \<Rightarrow> c\<lparr>cl_issuers := (cl_issuers c)(n \<mapsto> t)\<rparr>
      | ObjClusterIssuer t \<Rightarrow> c\<lparr>cl_cluster_issuers := (cl_cluster_issuers c)(n \<mapsto> t)\<rparr>
      | ObjOther t \<Rightarrow> c)"

definition issuer_turn ::
    "'w installation \<Rightarrow> faults \<Rightarrow> unit issuer_reconciler \<Rightarrow> namespaced_name \<Rightarrow> 'w cluster \<Rightarrow> 'w cluster" where
  "issuer_turn i f r n c =
     (let out = IssuerReconcile r (kube_of i f c) n
      in case oc_update out of
           None \<Rightarrow> c
         | Some obj \<Rightarrow> if oc_stored out then store_issuer n obj c else c)"

definition request_outcome :: "'w installation \<Rightarrow> faults \<Rightarrow> namespaced_name \<Rightarrow> 'w cluster \<Rightarrow> 'w cr_outcome" where
  "request_outcome i f n c =
     CrReconcile (in_cm i) (in_lib i) (in_request i) (kube_of i f c) n (cl_world c)"

text \<open>What the remote service answers in that turn.\<close>

definition request_exchange :: "'w installation \<Rightarrow> faults \<Rightarrow> namespaced_name \<Rightarrow> 'w cluster \<Rightarrow> exchange option" where
  "request_exchange i f n c = CrExchange (in_cm i) (in_request i) (kube_of i f c) n (cl_world c)"

definition request_turn :: "'w installation \<Rightarrow> faults \<Rightarrow> namespaced_name \<Rightarrow> 'w cluster \<Rightarrow> 'w cluster" where
  "request_turn i f n c =
     (let out = request_outcome i f n c
      in c\<lparr>cl_requests :=
             (case oc_update out of
                None \<Rightarrow> cl_requests c
              | Some cr \<Rightarrow> if oc_stored out then (cl_requests c)(n \<mapsto> cr) else cl_requests c),
           cl_world := oc_world out,
           cl_calls := cl_calls c @ map (Pair n) (oc_calls out)\<rparr>)"

text \<open>A turn that reads an outdated copy of the request (or finds none) and whose update is refused.\<close>

definition outdated :: "namespaced_name \<Rightarrow> certificate_request option \<Rightarrow> 'w cluster \<Rightarrow> 'w cluster" where
  "outdated n old c = c\<lparr>cl_requests := (cl_requests c)(n := old)\<rparr>"

definition stale_turn ::
    "'w installation \<Rightarrow> faults \<Rightarrow> namespaced_name \<Rightarrow> certificate_request option \<Rightarrow> 'w cluster \<Rightarrow> 'w cluster" where
  "stale_turn i f n old c = (request_turn i f n (outdated n old c))\<lparr>cl_requests := cl_requests c\<rparr>"

text \<open>
  The cluster as it looks through caches that lag behind: issuers and secrets as they are in
  \<open>seen\<close>. After the turn they are as they were.
\<close>

definition lagging :: "'w cluster \<Rightarrow> 'w cluster \<Rightarrow> 'w cluster" where
  "lagging seen c = c\<lparr>cl_issuers := cl_issuers seen, cl_cluster_issuers := cl_cluster_issuers seen,
     cl_secrets := cl_secrets seen\<rparr>"

definition lagging_secrets :: "'w cluster \<Rightarrow> 'w cluster \<Rightarrow> 'w cluster" where
  "lagging_secrets seen c = c\<lparr>cl_secrets := cl_secrets seen\<rparr>"

section \<open>Steps\<close>

text \<open>
  What a step was, as far as the properties ask: a turn of a request with its error and what the
  remote service answered in it, the deletion of a request, or a condition of another type that
  somebody else wrote to it.
\<close>

datatype label =
    RequestTurn namespaced_name "ret_error option" "exchange option"
  | Deleted namespaced_name
  | OtherCondition namespaced_name cr_condition
  | Quiet

text \<open>
  Users write specifications and create objects without a status (the status is a subresource
  the API server does not take from them). Other controllers set conditions of other types than
  Ready, with any status, reason and message, also with messages that read like those of this
  program; the Ready condition is written by this program alone. Secrets, the clock and the remote
  service change as they like.
\<close>

inductive cluster_step :: "'w installation \<Rightarrow> 'w cluster \<Rightarrow> label \<Rightarrow> 'w cluster \<Rightarrow> bool" for i where
  Issuer_turn: "cluster_step i c Quiet (lagging_secrets c (issuer_turn i f (in_issuer i) n (lagging_secrets seen c)))"
| ClusterIssuer_turn:
    "cluster_step i c Quiet (lagging_secrets c (issuer_turn i f (in_cluster_issuer i) n (lagging_secrets seen c)))"
| Request_turn: "cluster_step i c (RequestTurn n (oc_error (request_outcome i f n (lagging seen c))) (request_exchange i f n (lagging seen c)))
    (lagging c (request_turn i f n (lagging seen c)))"
| Stale_turn: "fa_update f \<noteq> None \<Longrightarrow>
    cluster_step i c (RequestTurn n (oc_error (request_outcome i f n (outdated n old (lagging seen c))))
        (request_exchange i f n (outdated n old (lagging seen c))))
      (lagging c (stale_turn i f n old (lagging seen c)))"
| Create: "cl_requests c (cr_Namespace cr, cr_Name cr) = None \<Longrightarrow> cr_Conditions cr = [] \<Longrightarrow>
    cr_Certificate cr = [] \<Longrightarrow> cr_CA cr = [] \<Longrightarrow>
    cluster_step i c Quiet (c\<lparr>cl_requests := (cl_requests c)((cr_Namespace cr, cr_Name cr) \<mapsto> cr)\<rparr>)"
| Delete: "cluster_step i c (Deleted n) (c\<lparr>cl_requests := (cl_requests c)(n := None)\<rparr>)"
| Other_condition: "cl_requests c n = Some cr \<Longrightarrow> cc_Type x \<noteq> cm_Ready \<Longrightarrow>
    cluster_step i c (OtherCondition n x)
      (c\<lparr>cl_requests := (cl_requests c)(n \<mapsto> cr\<lparr>cr_Conditions := upsert x (cr_Conditions cr)\<rparr>)\<rparr>)"
| Apply_Issuer: "is_Conditions (iss_Status t) =
      (case cl_issuers c n of None \<Rightarrow> [] | Some old \<Rightarrow> is_Conditions (iss_Status old)) \<Longrightarrow>
    cluster_step i c Quiet (c\<lparr>cl_issuers := (cl_issuers c)(n \<mapsto> t)\<rparr>)"
| Apply_ClusterIssuer: "is_Conditions (cis_Status t) =
      (case cl_cluster_issuers c n of None \<Rightarrow> [] | Some old \<Rightarrow> is_Conditions (cis_Status old)) \<Longrightarrow>
    cluster_step i c Quiet (c\<lparr>cl_cluster_issuers := (cl_cluster_issuers c)(n \<mapsto> t)\<rparr>)"
| Delete_issuers: "cluster_step i c Quiet
    (c\<lparr>cl_issuers := (cl_issuers c) |` A, cl_cluster_issuers := (cl_cluster_issuers c) |` B\<rparr>)"
| Elsewhere: "cluster_step i c Quiet (c\<lparr>cl_secrets := s, cl_now := t, cl_world := w\<rparr>)"

inductive cluster_run :: "'w installation \<Rightarrow> 'w cluster \<Rightarrow> label list \<Rightarrow> 'w cluster \<Rightarrow> bool" for i c where
  Start: "cluster_run i c [] c"
| Step: "cluster_run i c ls c' \<Longrightarrow> cluster_step i c' l c'' \<Longrightarrow> cluster_run i c (ls @ [l]) c''"

definition empty_cluster :: "go_time \<Rightarrow> 'w \<Rightarrow> 'w cluster" where
  "empty_cluster now w = \<lparr>cl_issuers = Map.empty, cl_cluster_issuers = Map.empty, cl_secrets = Map.empty,
     cl_requests = Map.empty, cl_now = now, cl_world = w, cl_calls = []\<rparr>"

section \<open>The history of a request\<close>

text \<open>What happened since a request of the name was last deleted.\<close>

definition since_deleted :: "namespaced_name \<Rightarrow> label list \<Rightarrow> label list" where
  "since_deleted n ls = rev (takeWhile (\<lambda>l. l \<noteq> Deleted n) (rev ls))"

lemma since_deleted_append [simp]:
  "since_deleted n (ls @ [l]) = (if l = Deleted n then [] else since_deleted n ls @ [l])"
  by (simp add: since_deleted_def)

lemma since_deleted_Nil [simp]: "since_deleted n [] = []"
  by (simp add: since_deleted_def)

text \<open>
  Somebody else wrote a condition to the request whose message starts like one of this program's,
  or nobody did. The program searches the conditions of every type for such messages.
\<close>

fun misleads :: "namespaced_name \<Rightarrow> label \<Rightarrow> bool" where
  "misleads n (OtherCondition m x) \<longleftrightarrow> m = n \<and> (submitted_msg x \<or> signed_msg x)"
| "misleads n l \<longleftrightarrow> False"

definition undisturbed :: "namespaced_name \<Rightarrow> label list \<Rightarrow> bool" where
  "undisturbed n ls \<longleftrightarrow> list_all (\<lambda>l. \<not> misleads n l) ls"

lemma undisturbed_append [simp]: "undisturbed n (xs @ ys) \<longleftrightarrow> undisturbed n xs \<and> undisturbed n ys"
  by (simp add: undisturbed_def)

lemma undisturbed_simps [simp]: "undisturbed n []" "undisturbed n [l] \<longleftrightarrow> \<not> misleads n l"
  by (simp_all add: undisturbed_def)

lemma undisturbed_since: "undisturbed n ls \<Longrightarrow> undisturbed n (since_deleted n ls)"
  unfolding undisturbed_def since_deleted_def list_all_iff using set_takeWhileD by fastforce

section \<open>What a turn sees and writes\<close>

lemma kube_of_simps [simp]:
  "k_get_CertificateRequest (kube_of i f c) n = api_get (fa_get f ''CertificateRequest'' n) (cl_requests c n)"
  "k_get_Issuer (kube_of i f c) n = api_get (fa_get f ''Issuer'' n) (cl_issuers c n)"
  "k_get_ClusterIssuer (kube_of i f c) n = api_get (fa_get f ''ClusterIssuer'' n) (cl_cluster_issuers c n)"
  "k_get_Secret (kube_of i f c) n = api_get (fa_get f ''Secret'' n) (cl_secrets c n)"
  "k_update_cr (kube_of i f c) = (\<lambda>cr. fa_update f)" "k_update_issuer (kube_of i f c) = (\<lambda>obj. fa_update f)"
  "k_scheme_new (kube_of i f c) = k_scheme_new (in_base i)" "k_now (kube_of i f c) = cl_now c"
  by (simp_all add: kube_of_def)

lemma api_get_simps [simp]:
  "api_get None (Some v) = Inr v" "api_get (Some e) x = Inl (GetOther e)"
  by (simp_all add: api_get_def)

lemma api_get_Inr [simp]: "api_get fault x = Inr v \<longleftrightarrow> fault = None \<and> x = Some v"
  by (auto simp: api_get_def split: option.splits)

lemma request_turn_simps [simp]:
  "cl_issuers (request_turn i f n c) = cl_issuers c"
  "cl_cluster_issuers (request_turn i f n c) = cl_cluster_issuers c"
  "cl_secrets (request_turn i f n c) = cl_secrets c" "cl_now (request_turn i f n c) = cl_now c"
  "cl_calls (request_turn i f n c) = cl_calls c @ map (Pair n) (oc_calls (request_outcome i f n c))"
  "cl_world (request_turn i f n c) = oc_world (request_outcome i f n c)"
  by (simp_all add: request_turn_def Let_def)

lemma request_turn_others: "m \<noteq> n \<Longrightarrow> cl_requests (request_turn i f n c) m = cl_requests c m"
  by (simp add: request_turn_def Let_def split: option.splits)

lemma stale_turn_simps [simp]:
  "cl_requests (stale_turn i f n old c) = cl_requests c" "cl_issuers (stale_turn i f n old c) = cl_issuers c"
  "cl_cluster_issuers (stale_turn i f n old c) = cl_cluster_issuers c"
  "cl_calls (stale_turn i f n old c) =
     cl_calls c @ map (Pair n) (oc_calls (request_outcome i f n (outdated n old c)))"
  by (simp_all add: stale_turn_def outdated_def)

lemma lagging_simps [simp]:
  "cl_requests (lagging s c) = cl_requests c" "cl_issuers (lagging s c) = cl_issuers s"
  "cl_cluster_issuers (lagging s c) = cl_cluster_issuers s" "cl_secrets (lagging s c) = cl_secrets s"
  "cl_calls (lagging s c) = cl_calls c" "cl_now (lagging s c) = cl_now c" "cl_world (lagging s c) = cl_world c"
  "lagging c c = c"
  by (simp_all add: lagging_def)

lemma lagging_secrets_simps [simp]:
  "cl_requests (lagging_secrets s c) = cl_requests c" "cl_issuers (lagging_secrets s c) = cl_issuers c"
  "cl_cluster_issuers (lagging_secrets s c) = cl_cluster_issuers c" "cl_secrets (lagging_secrets s c) = cl_secrets s"
  "cl_calls (lagging_secrets s c) = cl_calls c" "lagging_secrets c c = c"
  by (simp_all add: lagging_secrets_def)

lemma lagging_request_turn [simp]: "lagging c (request_turn i f n c) = request_turn i f n c"
  by (simp add: lagging_def)

lemma lagging_stale_turn [simp]: "lagging c (stale_turn i f n old c) = stale_turn i f n old c"
  by (simp add: lagging_def stale_turn_def outdated_def)

text \<open>The request a turn leaves: the one it found, or the one whose update was stored.\<close>

lemma request_turn_cases:
  obtains "cl_requests (request_turn i f n c) n = cl_requests c n"
  | cr cr' where "cl_requests c n = Some cr" and "k_get_CertificateRequest (kube_of i f c) n = Inr cr"
      and "oc_update (request_outcome i f n c) = Some cr'" and "oc_stored (request_outcome i f n c)"
      and "cl_requests (request_turn i f n c) n = Some cr'"
proof (cases "\<exists>cr'. oc_update (request_outcome i f n c) = Some cr' \<and> oc_stored (request_outcome i f n c)")
  case True
  then obtain cr' where up: "oc_update (request_outcome i f n c) = Some cr'" "oc_stored (request_outcome i f n c)"
    by blast
  obtain cr where cr: "k_get_CertificateRequest (kube_of i f c) n = Inr cr"
    using CrReconcile_update [OF up(1) [unfolded request_outcome_def]] by metis
  have "cl_requests (request_turn i f n c) n = Some cr'"
    using up by (simp add: request_turn_def Let_def)
  from that(2) [OF _ cr up this] cr show thesis by simp
next
  case False
  then have "cl_requests (request_turn i f n c) n = cl_requests c n"
    by (auto simp: request_turn_def Let_def split: option.splits)
  then show thesis by (rule that(1))
qed

lemma issuer_turn_simps [simp]:
  "cl_requests (issuer_turn i f r n c) = cl_requests c" "cl_calls (issuer_turn i f r n c) = cl_calls c"
  "cl_secrets (issuer_turn i f r n c) = cl_secrets c" "cl_now (issuer_turn i f r n c) = cl_now c"
  "cl_world (issuer_turn i f r n c) = cl_world c"
  by (auto simp: issuer_turn_def store_issuer_def Let_def split: option.splits client_object.splits)

lemma lagging_issuer_turn [simp]: "lagging_secrets c (issuer_turn i f r n c) = issuer_turn i f r n c"
  by (simp add: lagging_secrets_def)

text \<open>Turns that see the cluster as it is.\<close>

lemma current_turns:
  "cluster_step i c Quiet (issuer_turn i f (in_issuer i) n c)"
  "cluster_step i c Quiet (issuer_turn i f (in_cluster_issuer i) n c)"
  "cluster_step i c (RequestTurn n (oc_error (request_outcome i f n c)) (request_exchange i f n c)) (request_turn i f n c)"
  using cluster_step.Issuer_turn [of i c f n c] cluster_step.ClusterIssuer_turn [of i c f n c]
    cluster_step.Request_turn [of i c n f c] by simp_all

end
