(* ===== verification/CrSubmissions.thy ===== *)
theory CrSubmissions
  imports CrTheorems
begin

text \<open>
  When a request is submitted to the remote service: only in a phase before the task URL is
  known, and after a turn that ends without an error it is never in such a phase again.
\<close>

section \<open>Past the submission\<close>

definition past :: "phase \<Rightarrow> bool" where
  "past p \<longleftrightarrow> p \<noteq> PhFresh \<and> p \<noteq> PhWaiting"

lemma past_simps [simp]:
  "\<not> past PhFresh" "\<not> past PhWaiting" "past (PhSubmitted u)" "past (PhProcessing u)" "past (PhApproved u)"
  "past (PhSigned u)" "past PhIssued" "past PhFailed" "past PhDenied"
  by (simp_all add: past_def)

fun is_submit :: "signer_call \<Rightarrow> bool" where
  "is_submit (CallSubmit t csr) = True"
| "is_submit _ = False"

text \<open>A body that ends without an error leaves a request that is past its submission.\<close>

definition leaves_past :: "body_exit \<times> 'w cr_run \<Rightarrow> bool" where
  "leaves_past res \<longleftrightarrow> (\<forall>q e. fst res \<noteq> Return q (Some e)) \<longrightarrow> past (phase_of (run_cr (snd res)))"

lemma leaves_past_simps [simp]:
  "leaves_past (Return q (Some e), run)" "leaves_past (signer_failed e, run)"
  "leaves_past (Return q None, run) \<longleftrightarrow> past (phase_of (run_cr run))"
  "leaves_past (Unwind, run) \<longleftrightarrow> past (phase_of (run_cr run))"
  by (simp_all add: leaves_past_def signer_failed_def)

lemma submit_phase_past:
  assumes "cmutil_laws cm"
    and "fst (sg_SubmitCertificateRequest S token (cr_Request (run_cr run)) (run_world run)) \<noteq> Panic"
  shows "leaves_past (submit_phase cm S token run)"
  using assms by (auto simp: submit_phase_def Let_def phase_of_report text_phases split: prod.splits go_result.splits)

lemma fetch_phase_past:
  "cmutil_laws cm \<Longrightarrow> past (phase_of (run_cr run)) \<Longrightarrow> leaves_past (fetch_phase cm lib S token u run)"
  by (simp add: fetch_phase_def Let_def phase_of_report text_phases split: prod.splits go_result.splits)

lemma poll_phase_past:
  assumes "cmutil_laws cm" and "past (phase_of (run_cr run))"
  shows "leaves_past (poll_phase cm S token u run)"
proof -
  obtain res w where call: "sg_RequestTaskStatus S token u (run_world run) = (res, w)"
    by (cases "sg_RequestTaskStatus S token u (run_world run)")
  from assms show ?thesis
    by (cases res) (auto simp: poll_phase_def call Let_def phase_of_report text_phases)
qed

lemma past_not_submitting:
  assumes "\<not> final (phase_of cr)" and "past (phase_of cr)"
  shows "IsSigned (cr_Conditions cr) \<or> IsSubmitted (cr_Conditions cr)"
  using assms message_found [of cr] by (cases "phase_of cr") auto

lemma sign_phase_past:
  assumes "cmutil_laws cm" and "\<not> final (phase_of (run_cr run))"
    and "past (phase_of (run_cr run))"
  shows "leaves_past (sign_phase cm lib S token run)"
  using past_not_submitting [OF assms(2,3)] assms(1,3)
  by (auto simp: sign_phase_def Let_def fetch_phase_past poll_phase_past split: option.splits)

lemma issuer_phase_past:
  assumes "cmutil_laws cm" and "\<not> final (phase_of (run_cr run))"
    and "past (phase_of (run_cr run))"
  shows "leaves_past (issuer_phase cm lib r k ns issuer run)"
  using assms sign_phase_past [OF assms(1), of "after_call c w run" for c w]
  by (auto simp: issuer_phase_def Let_def phase_of_report text_phases
      split: sum.splits prod.splits go_result.splits)

lemma cr_body_past:
  assumes "cmutil_laws cm" and "\<not> final (phase_of (run_cr run))"
    and "past (phase_of (run_cr run))"
  shows "leaves_past (cr_body cm lib r k run)"
proof -
  have "cm_GetCondition cm (run_cr run) cm_Ready \<noteq> None"
    using assms(1,3) by (auto simp: phase_of_def split: option.splits)
  then show ?thesis
    using assms(1,3) issuer_phase_past [OF assms]
    unfolding cr_body_def Let_def
    by (auto simp: phase_of_report text_phases split: sum.splits runtime_object.splits)
qed

section \<open>Turns without an error\<close>

lemma deferred_past:
  assumes "oc_error (cr_deferred cm k br) = None" and "leaves_past br"
  shows "oc_stored (cr_deferred cm k br) \<and>
    (\<exists>cr'. oc_update (cr_deferred cm k br) = Some cr' \<and> past (phase_of cr'))"
proof -
  have "\<forall>q e. fst br \<noteq> Return q (Some e)"
    using assms(1) by (auto simp: cr_deferred_def Let_def split: prod.splits option.splits)
  moreover from this have "deferred_run cm br = snd br"
    by (auto simp: deferred_run_def split: body_exit.splits option.splits)
  moreover have "oc_stored (cr_deferred cm k br)"
    using assms(1) by (auto simp: cr_deferred_def Let_def split: prod.splits option.splits)
  ultimately show ?thesis using assms(2) by (simp add: leaves_past_def cr_deferred_simps)
qed

lemma CrReconcile_stays_past:
  assumes "cmutil_laws cm" and "k_get_CertificateRequest k req = Inr cr" and "stored_wf cr" and "past (phase_of cr)"
    and "oc_error (CrReconcile cm lib r k req w) = None"
  shows "oc_update (CrReconcile cm lib r k req w) = None \<or> oc_stored (CrReconcile cm lib r k req w) \<and>
    (\<exists>cr'. oc_update (CrReconcile cm lib r k req w) = Some cr' \<and> past (phase_of cr'))"
proof (cases "cr_ignored cm r cr")
  case False
  then have "\<not> final (phase_of cr)" unfolding cr_ignored_stored [OF assms(1,3)] by simp
  then have "leaves_past (cr_body cm lib r k \<lparr>run_cr = cr, run_events = [], run_calls = [], run_world = w\<rparr>)"
    using assms by (intro cr_body_past) simp_all
  moreover have "CrReconcile cm lib r k req w = cr_deferred cm k
      (cr_body cm lib r k \<lparr>run_cr = cr, run_events = [], run_calls = [], run_world = w\<rparr>)"
    using False assms(2) by (simp add: CrReconcile_def)
  ultimately show ?thesis using assms(5) deferred_past by metis
qed (use assms(2) in \<open>simp add: CrReconcile_def\<close>)

text \<open>A turn submits at most once, and not when the request is past its submission.\<close>

lemma CrReconcile_submits:
  "length (filter is_submit (oc_calls (CrReconcile cm lib r k req w))) \<le> 1"
proof (cases "oc_calls (CrReconcile cm lib r k req w) = []")
  case False
  then show ?thesis by (rule CrReconcile_calls) (simp split: go_result.splits option.splits)
qed simp

lemma past_no_submission:
  assumes "k_get_CertificateRequest k req = Inr cr" and "stored_wf cr" and "cmutil_laws cm" and "past (phase_of cr)"
  shows "filter is_submit (oc_calls (CrReconcile cm lib r k req w)) = []"
proof (cases "oc_calls (CrReconcile cm lib r k req w) = []")
  case False
  then show ?thesis
  proof (rule CrReconcile_calls)
    fix cr1 S
    assume get: "k_get_CertificateRequest k req = Inr cr1" and ni: "\<not> cr_ignored cm r cr1"
      and calls: "oc_calls (CrReconcile cm lib r k req w) = CallToken #
        (case fst (sg_GetRefreshToken S w) of
           Ok token \<Rightarrow> (case next_call token cr1 of None \<Rightarrow> [] | Some c \<Rightarrow> [c]) | _ \<Rightarrow> [])"
    from get assms(1) have cr1: "cr1 = cr" by simp
    with ni have "\<not> final (phase_of cr)" by (simp add: cr_ignored_stored [OF assms(3,2)])
    from past_not_submitting [OF this assms(4)]
    have "\<not> is_submit c" if "next_call t cr = Some c" for t c
      using that by (auto simp: next_call_def Let_def split: if_splits)
    then show ?thesis by (simp add: calls cr1 split: go_result.splits option.splits)
  qed
qed simp

context signer_contract begin

text \<open>The turn that submits, when it ends without an error, stores where the task is.\<close>

lemma submitting_turn_past:
  assumes "cmutil_laws cm" and "rc_SignerBuilder r = build"
    and "k_get_CertificateRequest k req = Inr cr"
    and "filter is_submit (oc_calls (CrReconcile cm lib r k req w)) \<noteq> []"
    and "oc_error (CrReconcile cm lib r k req w) = None"
  shows "oc_stored (CrReconcile cm lib r k req w) \<and>
    (\<exists>cr'. oc_update (CrReconcile cm lib r k req w) = Some cr' \<and> past (phase_of cr'))"
proof -
  have "oc_calls (CrReconcile cm lib r k req w) \<noteq> []" using assms(4) by auto
  then obtain cr1 S where get: "k_get_CertificateRequest k req = Inr cr1" and ni: "\<not> cr_ignored cm r cr1"
    and may: "may_sign cm r k cr1 S"
    and calls: "oc_calls (CrReconcile cm lib r k req w) = CallToken #
      (case fst (sg_GetRefreshToken S w) of
         Ok token \<Rightarrow> (case next_call token cr1 of None \<Rightarrow> [] | Some c \<Rightarrow> [c]) | _ \<Rightarrow> [])"
    by (rule CrReconcile_calls)
  then have cr1: "cr1 = cr" using assms(3) by simp
  from assms(4) obtain token w1 where tok: "sg_GetRefreshToken S w = (Ok token, w1)"
    and sub: "\<exists>c. next_call token cr = Some c \<and> is_submit c"
    by (cases "sg_GetRefreshToken S w") (auto simp: calls cr1 split: go_result.splits option.splits if_splits)
  then have nc: "\<not> IsSigned (cr_Conditions cr)" "\<not> IsSubmitted (cr_Conditions cr)"
    by (auto simp: next_call_def Let_def split: if_splits)
  define run where "run = \<lparr>run_cr = cr, run_events = [], run_calls = [CallToken], run_world = w1\<rparr>"
  have eq: "CrReconcile cm lib r k req w = cr_deferred cm k (submit_phase cm S token run)"
    using CrReconcile_signs [OF get ni may tok, of lib] nc by (simp add: cr1 sign_phase_def run_def)
  obtain spec secret where "build spec (rc_AuthRealm r) secret = Inr S"
    using may assms(2) by (auto simp: may_sign_def issuer_serves_def)
  from submit_total [OF this] have "leaves_past (submit_phase cm S token run)"
    by (intro submit_phase_past [OF assms(1)]) simp
  with assms(5) show ?thesis unfolding eq by (rule deferred_past)
qed

end

end
