(* ===== verification/ClusterProps.thy ===== *)
theory ClusterProps
  imports Cluster CrSubmissions
begin

text \<open>
  The invariant of the cluster, kept by every step, and what a turn of a request that ends
  without an error does to its phase.
\<close>

section \<open>Issuers\<close>

text \<open>At most one Ready condition; its status is one of the three and its time is set.\<close>

definition status_ok :: "issuer_status \<Rightarrow> bool" where
  "status_ok st \<longleftrightarrow> length (filter is_ready_cond (is_Conditions st)) \<le> 1 \<and>
     (case GetReadyCondition st of
        None \<Rightarrow> True
      | Some c \<Rightarrow> ic_Status c \<in> {ConditionTrue, ConditionFalse, ConditionUnknown} \<and> ic_LastTransitionTime c \<noteq> None)"

lemma status_ok_new: "is_Conditions st = [] \<Longrightarrow> status_ok st"
  by (simp add: status_ok_def GetReadyCondition_def)

lemma status_ok_same: "is_Conditions st = is_Conditions st' \<Longrightarrow> status_ok st = status_ok st'"
  by (simp add: status_ok_def GetReadyCondition_def)

lemma verdict_status_known: "verdict_status v \<in> {ConditionTrue, ConditionFalse, ConditionUnknown}"
  by (cases v) simp_all

lemma SetReadyCondition_count:
  assumes "length (filter is_ready_cond (is_Conditions st)) \<le> 1"
  shows "length (filter is_ready_cond (is_Conditions (SetReadyCondition now s r m st))) \<le> 1"
proof (cases "GetReadyCondition st")
  case None
  then have "filter is_ready_cond (is_Conditions st) = []"
    by (auto simp: GetReadyCondition_def find_None_iff filter_empty_conv)
  with None show ?thesis by (simp add: SetReadyCondition_def Let_def write_ready_count)
next
  case (Some c)
  then have "is_ready_cond c" by (rule GetReadyCondition_ready)
  with Some assms show ?thesis by (simp add: SetReadyCondition_def Let_def write_ready_count)
qed

lemma status_ok_verdict:
  assumes "status_ok st"
  shows "status_ok (SetReadyCondition now (verdict_status v) r m st)"
proof -
  have "verdict_status v \<noteq> []" by (cases v) (simp_all add: condition_constants)
  then have "ic_LastTransitionTime (ready_after now (verdict_status v) r m (GetReadyCondition st)) \<noteq> None"
    using assms by (auto simp: status_ok_def ready_after_def split: option.splits)
  then show ?thesis
    using assms SetReadyCondition_count [of st] verdict_status_known [of v]
    unfolding status_ok_def GetReadyCondition_SetReadyCondition by (simp add: ready_after_def)
qed

text \<open>A turn writes the status of the object it was asked for, with a verdict.\<close>

lemma issuer_turn_writes:
  assumes "oc_update (IssuerReconcile r (kube_of i f c) n) = Some obj'"
  obtains t v where "cl_issuers c n = Some t"
      "obj' = ObjIssuer (t\<lparr>iss_Status := SetReadyCondition (cl_now c) (verdict_status v)
        EventReasonIssuerReconciler (verdict_message v) (iss_Status t)\<rparr>)"
  | t v where "cl_cluster_issuers c n = Some t"
      "obj' = ObjClusterIssuer (t\<lparr>cis_Status := SetReadyCondition (cl_now c) (verdict_status v)
        EventReasonIssuerReconciler (verdict_message v) (cis_Status t)\<rparr>)"
proof -
  obtain ro obj spec st where obj: "get_object (kube_of i f c) ro n = Inr obj"
    and st: "GetSpecAndStatus obj = Inr (spec, st)"
    and obj': "obj' = verdict_object (kube_of i f c) (issuer_verdict r (kube_of i f c) n obj spec) obj st"
    using IssuerReconcile_update [OF assms] by metis
  show thesis
  proof (cases ro)
    case RtIssuer
    with obj obtain t where "obj = ObjIssuer t" "cl_issuers c n = Some t"
      by (auto simp: get_object_def map_sum_def split: sum.splits)
    with st obj' that(1) show thesis
      by (auto simp: GetSpecAndStatus_def verdict_object_def put_status_def)
  next
    case RtClusterIssuer
    with obj obtain t where "obj = ObjClusterIssuer t" "cl_cluster_issuers c n = Some t"
      by (auto simp: get_object_def map_sum_def split: sum.splits)
    with st obj' that(2) show thesis
      by (auto simp: GetSpecAndStatus_def verdict_object_def put_status_def)
  qed (use obj st in \<open>auto simp: get_object_def map_sum_def GetSpecAndStatus_def split: sum.splits\<close>)
qed

definition issuers_ok :: "'w cluster \<Rightarrow> bool" where
  "issuers_ok c \<longleftrightarrow> (\<forall>n t. cl_issuers c n = Some t \<longrightarrow> status_ok (iss_Status t)) \<and>
     (\<forall>n t. cl_cluster_issuers c n = Some t \<longrightarrow> status_ok (cis_Status t))"

lemma issuer_turn_ok:
  assumes "issuers_ok c"
  shows "issuers_ok (issuer_turn i f r n c)"
proof (cases "\<exists>obj. oc_update (IssuerReconcile r (kube_of i f c) n) = Some obj \<and>
    oc_stored (IssuerReconcile r (kube_of i f c) n)")
  case False
  then have "issuer_turn i f r n c = c" by (auto simp: issuer_turn_def Let_def split: option.splits)
  with assms show ?thesis by simp
next
  case True
  then obtain obj where obj: "oc_update (IssuerReconcile r (kube_of i f c) n) = Some obj"
    and eq: "issuer_turn i f r n c = store_issuer n obj c"
    by (auto simp: issuer_turn_def)
  from obj show ?thesis
    unfolding eq by (rule issuer_turn_writes)
      (use assms status_ok_verdict in \<open>auto simp: issuers_ok_def store_issuer_def\<close>)
qed

section \<open>Requests\<close>

definition request_ok :: "namespaced_name \<Rightarrow> certificate_request \<Rightarrow> bool" where
  "request_ok n cr \<longleftrightarrow> n = (cr_Namespace cr, cr_Name cr) \<and> stored_wf cr"

definition cluster_ok :: "'w cluster \<Rightarrow> bool" where
  "cluster_ok c \<longleftrightarrow> issuers_ok c \<and> (\<forall>n cr. cl_requests c n = Some cr \<longrightarrow> request_ok n cr)"

lemma cluster_ok_wf: "cluster_ok c \<Longrightarrow> cl_requests c n = Some cr \<Longrightarrow> stored_wf cr"
  unfolding cluster_ok_def request_ok_def by blast

lemma request_turn_ok:
  assumes "cmutil_laws (in_cm i)" and "rc_SignerBuilder (in_request i) = essendi_builder lib net"
    and "\<And>n cr. cl_requests c n = Some cr \<Longrightarrow> request_ok n cr" and "cl_requests (request_turn i f n c) m = Some cr"
  shows "request_ok m cr"
proof (cases "m = n")
  case True
  show ?thesis
  proof (rule request_turn_cases [of i f n c])
    fix cr1 cr'
    assume cr: "cl_requests c n = Some cr1" and get: "k_get_CertificateRequest (kube_of i f c) n = Inr cr1"
      and up: "oc_update (request_outcome i f n c) = Some cr'"
      and cr': "cl_requests (request_turn i f n c) n = Some cr'"
    have ok: "request_ok n cr1" by (rule assms(3) [OF cr])
    then have "stored_wf cr'"
      using essendi.reconcile_stored [OF assms(1,2) get _ up [unfolded request_outcome_def]] by (simp add: request_ok_def)
    moreover have "same_spec cr' cr1"
      using CrReconcile_frame(1) [OF assms(1) get up [unfolded request_outcome_def]] .
    ultimately show ?thesis using ok cr' assms(4) True by (auto simp: request_ok_def same_spec_def)
  qed (use assms(3,4) True in auto)
qed (use assms(3,4) in \<open>auto simp: request_turn_others\<close>)

lemma cluster_step_ok:
  assumes "cmutil_laws (in_cm i)" and "rc_SignerBuilder (in_request i) = essendi_builder lib net"
    and "cluster_step i c l c'" and "cluster_ok c"
  shows "cluster_ok c'"
  using assms(3,4)
proof (cases rule: cluster_step.cases)
  case (Issuer_turn f n seen)
  then show ?thesis using assms(4) issuer_turn_ok [of "lagging_secrets seen c" i f _ n]
    by (simp add: cluster_ok_def issuers_ok_def)
next
  case (ClusterIssuer_turn f n seen)
  then show ?thesis using assms(4) issuer_turn_ok [of "lagging_secrets seen c" i f _ n]
    by (simp add: cluster_ok_def issuers_ok_def)
next
  case (Request_turn n f seen)
  then show ?thesis
    using assms(4) request_turn_ok [OF assms(1,2), of "lagging seen c" f n] by (auto simp: cluster_ok_def issuers_ok_def)
next
  case (Create cr)
  then have "request_ok (cr_Namespace cr, cr_Name cr) cr"
    by (simp add: request_ok_def created_wf)
  then show ?thesis using Create assms(4) by (auto simp: cluster_ok_def issuers_ok_def)
next
  case (Other_condition n cr x)
  from assms(4) Other_condition(3) have "request_ok n cr" unfolding cluster_ok_def by blast
  then have "request_ok n (cr\<lparr>cr_Conditions := upsert x (cr_Conditions cr)\<rparr>)"
    using stored_wf_other Other_condition(4) by (simp add: request_ok_def)
  then show ?thesis using Other_condition assms(4) by (auto simp: cluster_ok_def issuers_ok_def)
next
  case (Apply_Issuer t n)
  have "status_ok (iss_Status t)"
  proof (cases "cl_issuers c n")
    case None
    with Apply_Issuer(3) show ?thesis by (simp add: status_ok_new)
  next
    case (Some old)
    with assms(4) have "status_ok (iss_Status old)" unfolding cluster_ok_def issuers_ok_def by blast
    moreover from Some Apply_Issuer(3) have "is_Conditions (iss_Status t) = is_Conditions (iss_Status old)" by simp
    ultimately show ?thesis using status_ok_same by blast
  qed
  then show ?thesis using Apply_Issuer assms(4) by (auto simp: cluster_ok_def issuers_ok_def)
next
  case (Apply_ClusterIssuer t n)
  have "status_ok (cis_Status t)"
  proof (cases "cl_cluster_issuers c n")
    case None
    with Apply_ClusterIssuer(3) show ?thesis by (simp add: status_ok_new)
  next
    case (Some old)
    with assms(4) have "status_ok (cis_Status old)" unfolding cluster_ok_def issuers_ok_def by blast
    moreover from Some Apply_ClusterIssuer(3) have "is_Conditions (cis_Status t) = is_Conditions (cis_Status old)" by simp
    ultimately show ?thesis using status_ok_same by blast
  qed
  then show ?thesis using Apply_ClusterIssuer assms(4) by (auto simp: cluster_ok_def issuers_ok_def)
qed (use assms(4) in \<open>auto simp: cluster_ok_def issuers_ok_def restrict_map_def split: if_splits\<close>)

lemma cluster_run_ok:
  assumes "cluster_run i c ls c'" and "cmutil_laws (in_cm i)"
    and "rc_SignerBuilder (in_request i) = essendi_builder lib net" and "cluster_ok c"
  shows "cluster_ok c'"
  using assms(1)
proof (induction rule: cluster_run.induct)
  case (Step ls c1 l c2)
  then show ?case using cluster_step_ok [OF assms(2,3)] by blast
qed (rule assms(4))

lemma empty_cluster_ok: "cluster_ok (empty_cluster now w)"
  by (simp add: cluster_ok_def issuers_ok_def empty_cluster_def)

section \<open>Submissions\<close>

text \<open>
  The submissions made for a request, and the turns and deletions after which another one is
  made: a turn that ended with an error, and a deletion, after which the name is free again.
\<close>

definition submissions :: "namespaced_name \<Rightarrow> (namespaced_name \<times> signer_call) list \<Rightarrow> nat" where
  "submissions n calls = length (filter (\<lambda>(m, c). m = n \<and> is_submit c) calls)"

fun restarts :: "namespaced_name \<Rightarrow> label \<Rightarrow> bool" where
  "restarts n (RequestTurn m err x) \<longleftrightarrow> m = n \<and> err \<noteq> None"
| "restarts n (Deleted m) \<longleftrightarrow> m = n"
| "restarts n l \<longleftrightarrow> False"

lemma submissions_append [simp]: "submissions n (xs @ ys) = submissions n xs + submissions n ys"
  by (simp add: submissions_def)

lemma submissions_turn [simp]:
  "submissions n (map (Pair m) calls) = (if m = n then length (filter is_submit calls) else 0)"
  by (induction calls) (auto simp: submissions_def)

definition submitted :: "namespaced_name \<Rightarrow> 'w cluster \<Rightarrow> bool" where
  "submitted n c \<longleftrightarrow> (\<exists>cr. cl_requests c n = Some cr \<and> past (phase_of cr))"

lemma submissions_once: "length (filter is_submit (oc_calls (request_outcome i f n c))) \<le> 1"
  unfolding request_outcome_def by (rule CrReconcile_submits)

text \<open>A turn without an error: it does not submit again, and a request it submits is past that.\<close>

lemma quiet_turn_submitted:
  assumes "cmutil_laws (in_cm i)" and "rc_SignerBuilder (in_request i) = essendi_builder lib net"
    and "\<And>cr. cl_requests c n = Some cr \<Longrightarrow> stored_wf cr"
    and "oc_error (request_outcome i f n c) = None"
  shows "length (filter is_submit (oc_calls (request_outcome i f n c))) + of_bool (submitted n c)
    \<le> of_bool (submitted n (request_turn i f n c))"
proof (cases "\<exists>cr. k_get_CertificateRequest (kube_of i f c) n = Inr cr")
  case True
  then obtain cr where get: "k_get_CertificateRequest (kube_of i f c) n = Inr cr" and cr: "cl_requests c n = Some cr"
    by auto
  note wf = assms(3) [OF cr] and err = assms(4) [unfolded request_outcome_def]
  have stored: "submitted n (request_turn i f n c)"
    if "oc_stored (request_outcome i f n c) \<and> (\<exists>cr'. oc_update (request_outcome i f n c) = Some cr' \<and> past (phase_of cr'))"
    using that by (auto simp: submitted_def request_turn_def Let_def)
  show ?thesis
  proof (cases "past (phase_of cr)")
    case True
    from past_no_submission [OF get wf assms(1) True]
    have none: "filter is_submit (oc_calls (request_outcome i f n c)) = []" by (simp add: request_outcome_def)
    have "submitted n (request_turn i f n c)"
      using CrReconcile_stays_past [OF assms(1) get wf True err]
    proof
      assume "oc_update (CrReconcile (in_cm i) (in_lib i) (in_request i) (kube_of i f c) n (cl_world c)) = None"
      then show ?thesis using True cr by (simp add: submitted_def request_turn_def request_outcome_def Let_def)
    qed (use stored in \<open>simp add: request_outcome_def\<close>)
    then show ?thesis by (simp add: none)
  next
    case False
    with cr have "\<not> submitted n c" by (simp add: submitted_def)
    moreover have "submitted n (request_turn i f n c)" if "filter is_submit (oc_calls (request_outcome i f n c)) \<noteq> []"
      using essendi.submitting_turn_past [OF assms(1,2) get that [unfolded request_outcome_def] err] stored
      by (simp add: request_outcome_def)
    ultimately show ?thesis using submissions_once [of i f n c] by (cases "submitted n (request_turn i f n c)") auto
  qed
next
  case False
  then obtain e where "k_get_CertificateRequest (kube_of i f c) n = Inl e"
    by (cases "k_get_CertificateRequest (kube_of i f c) n") auto
  then have "request_outcome i f n c = quiet_return None (cl_world c)"
    using assms(4) by (cases e) (auto simp: request_outcome_def CrReconcile_def)
  then show ?thesis by (simp add: submitted_def request_turn_def)
qed

lemma cr_deferred_refused: "k_update_cr k = (\<lambda>cr. Some e) \<Longrightarrow> oc_error (cr_deferred cm k br) \<noteq> None"
  by (auto simp: cr_deferred_def Let_def split: prod.splits)

lemma stale_turn_error:
  assumes "fa_update f \<noteq> None" and "oc_error (request_outcome i f n c) = None"
  shows "oc_calls (request_outcome i f n c) = []"
proof (rule ccontr)
  assume calls: "oc_calls (request_outcome i f n c) \<noteq> []"
  from assms(1) obtain e where "k_update_cr (kube_of i f c) = (\<lambda>cr. Some e)" by auto
  note refused = cr_deferred_refused [OF this]
  from calls obtain cr where "k_get_CertificateRequest (kube_of i f c) n = Inr cr"
    and "\<not> cr_ignored (in_cm i) (in_request i) cr"
    unfolding request_outcome_def by (rule CrReconcile_calls)
  with assms(2) show False
    unfolding request_outcome_def CrReconcile_def by (simp add: refused api_get_def del: not_None_eq)
qed

text \<open>A turn of the request, with or without an error.\<close>

lemma request_turn_submits:
  assumes "cmutil_laws (in_cm i)" and "rc_SignerBuilder (in_request i) = essendi_builder lib net"
    and wf: "\<And>n cr. cl_requests c n = Some cr \<Longrightarrow> stored_wf cr"
  shows "length (filter is_submit (oc_calls (request_outcome i f n c))) + of_bool (submitted n c)
    \<le> of_bool (oc_error (request_outcome i f n c) \<noteq> None) + of_bool (submitted n (request_turn i f n c))"
proof (cases "oc_error (request_outcome i f n c) = None")
  case True
  with quiet_turn_submitted [OF assms(1,2) wf True] show ?thesis by simp
next
  case False
  have "filter is_submit (oc_calls (request_outcome i f n c)) = []"
    if "submitted n c" "k_get_CertificateRequest (kube_of i f c) n = Inr cr" for cr
  proof -
    have "cl_requests c n = Some cr" using that(2) by simp
    with that past_no_submission [OF that(2) wf [OF this] assms(1)] show ?thesis
      by (auto simp: request_outcome_def submitted_def)
  qed
  moreover have "oc_calls (request_outcome i f n c) = []"
    if "\<And>cr. k_get_CertificateRequest (kube_of i f c) n \<noteq> Inr cr"
    using CrReconcile_calls [of "in_cm i" "in_lib i" "in_request i" "kube_of i f c" n "cl_world c"] that
    unfolding request_outcome_def by metis
  ultimately have "filter is_submit (oc_calls (request_outcome i f n c)) = []" if "submitted n c"
    using that by (metis filter.simps(1))
  with False submissions_once [of i f n c] show ?thesis by (cases "submitted n c") auto
qed

lemma submitted_request_turn: "m \<noteq> n \<Longrightarrow> submitted m (request_turn i f n c) = submitted m c"
  by (simp add: submitted_def request_turn_others)

lemma submitted_lagging [simp]: "submitted n (lagging s c) = submitted n c"
  by (simp add: submitted_def)

lemma cluster_step_submissions:
  assumes "cmutil_laws (in_cm i)" and "rc_SignerBuilder (in_request i) = essendi_builder lib net"
    and "cluster_step i c l c'" and "cluster_ok c"
  shows "submissions n (cl_calls c') + of_bool (submitted n c)
    \<le> submissions n (cl_calls c) + of_bool (restarts n l) + of_bool (submitted n c')"
  using assms(3)
proof (cases rule: cluster_step.cases)
  case (Request_turn m f seen)
  have "stored_wf cr" if "cl_requests (lagging seen c) n = Some cr" for n cr
    using cluster_ok_wf [OF assms(4)] that by simp
  from request_turn_submits [OF assms(1,2), of "lagging seen c" f n, OF this] Request_turn show ?thesis
    by (cases "m = n") (auto simp: submitted_request_turn)
next
  case (Stale_turn f m old seen)
  have "submitted n c' = submitted n c" by (simp add: Stale_turn(2) submitted_def)
  moreover have "length (filter is_submit (oc_calls (request_outcome i f m (outdated m old (lagging seen c)))))
      \<le> of_bool (oc_error (request_outcome i f m (outdated m old (lagging seen c))) \<noteq> None)"
    using stale_turn_error [OF Stale_turn(3), of i m "outdated m old (lagging seen c)"]
      submissions_once [of i f m "outdated m old (lagging seen c)"]
    by (cases "oc_error (request_outcome i f m (outdated m old (lagging seen c)))") simp_all
  ultimately show ?thesis unfolding Stale_turn(1,2) by (cases "m = n") auto
next
  case (Create cr)
  then have "submitted n c \<longrightarrow> submitted n c'" by (auto simp: submitted_def)
  with Create show ?thesis by simp
next
  case (Other_condition m cr x)
  then have "submitted n c' = submitted n c" by (auto simp: submitted_def phase_of_other)
  with Other_condition show ?thesis by simp
next
  case (Delete m)
  then show ?thesis by (auto simp: submitted_def)
qed (simp_all add: submitted_def)

lemma cluster_run_submissions:
  assumes "cluster_run i c ls c'" and "cmutil_laws (in_cm i)"
    and "rc_SignerBuilder (in_request i) = essendi_builder lib net" and "cluster_ok c"
  shows "submissions n (cl_calls c') + of_bool (submitted n c)
    \<le> submissions n (cl_calls c) + length (filter (restarts n) ls) + of_bool (submitted n c')"
  using assms(1)
proof (induction rule: cluster_run.induct)
  case (Step ls c1 l c2)
  have "cluster_ok c1" using cluster_run_ok [OF Step(1) assms(2,3,4)] .
  from cluster_step_submissions [OF assms(2,3) Step(2) this, of n] Step(3) show ?case
    by (cases "restarts n l") simp_all
qed simp

end
