(* ===== verification/ClusterProgress.thy ===== *)
theory ClusterProgress
  imports ClusterProps
begin

text \<open>
  Progress of the cluster when nothing fails: a turn of a request is \<open>reconcile_once\<close>, two turns
  make a new issuer ready, and what a started process runs satisfies what both rest on.
\<close>

section \<open>A turn is reconcile_once\<close>

text \<open>A reconciliation reads one certificate request, the one it was called for.\<close>

lemma kube_get_select:
  "k_get_Secret (k\<lparr>k_get_CertificateRequest := g\<rparr>) = k_get_Secret k"
  "k_nn_string (k\<lparr>k_get_CertificateRequest := g\<rparr>) = k_nn_string k"
  "k_scheme_new (k\<lparr>k_get_CertificateRequest := g\<rparr>) = k_scheme_new k"
  "k_update_cr (k\<lparr>k_get_CertificateRequest := g\<rparr>) = k_update_cr k"
  "k_now (k\<lparr>k_get_CertificateRequest := g\<rparr>) = k_now k"
  by simp_all

lemma issuer_phase_get:
  "issuer_phase cm lib r (k\<lparr>k_get_CertificateRequest := g\<rparr>) sns obj run = issuer_phase cm lib r k sns obj run"
  unfolding issuer_phase_def secret_error_def kube_get_select by (rule refl)

lemma cr_body_get: "cr_body cm lib r (k\<lparr>k_get_CertificateRequest := g\<rparr>) run = cr_body cm lib r k run"
  unfolding cr_body_def issuer_phase_get get_object_get kube_get_select by (rule refl)

lemma cr_deferred_get: "cr_deferred cm (k\<lparr>k_get_CertificateRequest := g\<rparr>) br = cr_deferred cm k br"
  unfolding cr_deferred_def kube_get_select by (rule refl)

lemma CrReconcile_reads:
  "k_get_CertificateRequest k req = Inr cr \<Longrightarrow>
     CrReconcile cm lib r (k\<lparr>k_get_CertificateRequest := (\<lambda>n. Inr cr)\<rparr>) req w = CrReconcile cm lib r k req w"
  by (simp add: CrReconcile_def cr_body_get cr_deferred_get)

lemma no_faults_simps [simp]: "fa_get no_faults kind n = None" "fa_update no_faults = None"
  by (simp_all add: no_faults_def)

lemma request_turn_once:
  assumes "cl_requests c n = Some cr"
    and "reconcile_once (in_cm i) (in_lib i) (in_request i) (kube_of i no_faults c) n (cr, cl_world c) = (cr', w')"
  shows "cl_requests (request_turn i no_faults n c) n = Some cr'" and "cl_world (request_turn i no_faults n c) = w'"
proof -
  have "k_get_CertificateRequest (kube_of i no_faults c) n = Inr cr" using assms(1) by simp
  note reads = CrReconcile_reads [OF this]
  from assms show "cl_requests (request_turn i no_faults n c) n = Some cr'" and "cl_world (request_turn i no_faults n c) = w'"
    by (auto simp: request_turn_def request_outcome_def reconcile_once_def reads Let_def split: option.splits)
qed

text \<open>What a turn of a request leaves alone, and with it what the next turn sees of the cluster.\<close>

definition same_surroundings :: "'w cluster \<Rightarrow> 'w cluster \<Rightarrow> bool" where
  "same_surroundings c c' \<longleftrightarrow> cl_issuers c' = cl_issuers c \<and> cl_cluster_issuers c' = cl_cluster_issuers c \<and>
     cl_secrets c' = cl_secrets c \<and> cl_now c' = cl_now c"

lemma kube_of_surroundings:
  "same_surroundings c c' \<Longrightarrow>
     (kube_of i f c')\<lparr>k_get_CertificateRequest := g\<rparr> = (kube_of i f c)\<lparr>k_get_CertificateRequest := g\<rparr>"
  by (simp add: same_surroundings_def kube_of_def)

lemma reconcile_once_surroundings:
  "same_surroundings c c' \<Longrightarrow>
     reconcile_once cm lib r (kube_of i f c') n = reconcile_once cm lib r (kube_of i f c) n"
  by (simp add: reconcile_once_def kube_of_surroundings fun_eq_iff)

lemma request_turns_iterate:
  assumes "cl_requests c n = Some cr"
    and "(reconcile_once (in_cm i) (in_lib i) (in_request i) (kube_of i no_faults c) n ^^ m) (cr, cl_world c) = (cr', w')"
  shows "cl_requests ((request_turn i no_faults n ^^ m) c) n = Some cr' \<and>
    cl_world ((request_turn i no_faults n ^^ m) c) = w' \<and>
    same_surroundings c ((request_turn i no_faults n ^^ m) c)"
  using assms(2)
proof (induction m arbitrary: cr' w')
  case 0
  then show ?case using assms(1) by (simp add: same_surroundings_def)
next
  case (Suc m)
  let ?once = "reconcile_once (in_cm i) (in_lib i) (in_request i) (kube_of i no_faults c) n"
  obtain cr1 w1 where mid: "(?once ^^ m) (cr, cl_world c) = (cr1, w1)" by (cases "(?once ^^ m) (cr, cl_world c)")
  define c1 where "c1 = (request_turn i no_faults n ^^ m) c"
  from Suc.IH [OF mid] have c1: "cl_requests c1 n = Some cr1" "cl_world c1 = w1" "same_surroundings c c1"
    by (simp_all add: c1_def)
  have "?once (cr1, w1) = (cr', w')" using Suc.prems mid by simp
  then have "reconcile_once (in_cm i) (in_lib i) (in_request i) (kube_of i no_faults c1) n (cr1, cl_world c1) = (cr', w')"
    unfolding reconcile_once_surroundings [OF c1(3)] c1(2) .
  from request_turn_once [OF c1(1) this] c1(3) show ?case
    by (simp add: c1_def [symmetric]) (simp add: same_surroundings_def)
qed

section \<open>Turns of an issuer\<close>

text \<open>The object of a kind stored under a name.\<close>

definition stored_object :: "runtime_object \<Rightarrow> namespaced_name \<Rightarrow> 'w cluster \<Rightarrow> client_object option" where
  "stored_object ro n c =
     (case ro of
        RtIssuer \<Rightarrow> map_option ObjIssuer (cl_issuers c n)
      | RtClusterIssuer \<Rightarrow> map_option ObjClusterIssuer (cl_cluster_issuers c n)
      | _ \<Rightarrow> None)"

lemma stored_object_get:
  "stored_object ro n c = Some obj \<Longrightarrow> get_object (kube_of i no_faults c) ro n = Inr obj"
  by (auto simp: stored_object_def get_object_def api_get_def split: runtime_object.splits)

lemma stored_object_spec:
  assumes "stored_object ro n c = Some obj"
  obtains spec st where "GetSpecAndStatus obj = Inr (spec, st)"
  using assms by (auto simp: stored_object_def GetSpecAndStatus_def split: runtime_object.splits)

lemma stored_object_store:
  "stored_object ro n c = Some obj \<Longrightarrow>
     stored_object ro n (store_issuer n (put_status obj st) c) = Some (put_status obj st)"
  by (auto simp: stored_object_def store_issuer_def put_status_def split: runtime_object.splits)

lemma store_issuer_twice:
  "store_issuer n (put_status obj st') (store_issuer n (put_status obj st) c) = store_issuer n (put_status obj st') c"
  by (cases obj) (simp_all add: store_issuer_def put_status_def)

lemma store_issuer_simps [simp]:
  "cl_requests (store_issuer n obj c) = cl_requests c" "cl_secrets (store_issuer n obj c) = cl_secrets c"
  "cl_now (store_issuer n obj c) = cl_now c" "cl_world (store_issuer n obj c) = cl_world c"
  by (cases obj; simp add: store_issuer_def)+

lemma issuer_turn_found:
  assumes "newIssuer r (kube_of i no_faults c) = Ok ro" and "stored_object ro n c = Some obj"
    and "GetSpecAndStatus obj = Inr (spec, st)"
  shows "issuer_turn i no_faults r n c = store_issuer n
    (let v = issuer_verdict r (kube_of i no_faults c) n obj spec
     in put_status obj (SetReadyCondition (cl_now c) (verdict_status v) EventReasonIssuerReconciler (verdict_message v) st)) c"
  using IssuerReconcile_found [OF assms(1) stored_object_get [OF assms(2)] assms(3)]
  by (simp add: issuer_turn_def verdict_outcome_def verdict_object_def Let_def)

text \<open>A turn of an issuer that was seen before and whose secret exists makes it ready.\<close>

lemma issuer_verdict_healthy:
  assumes "ir_HealthCheckerBuilder r = EssendiHealthCheckerFromIssuerAndSecretData" and "ir_Check r = Check"
    and "ready_of obj \<noteq> None"
    and "cl_secrets c (secret_namespace r n obj, is_AuthSecretName spec) = Some secret"
  shows "issuer_verdict r (kube_of i no_faults c) n obj spec = Healthy"
  using assms
  by (auto simp: issuer_verdict_def Let_def api_get_def EssendiHealthCheckerFromIssuerAndSecretData_def Check_def)

lemma secret_namespace_put [simp]: "secret_namespace r n (put_status obj st) = secret_namespace r n obj"
  by (cases obj) (simp_all add: secret_namespace_def put_status_def)

text \<open>Two turns make every issuer ready whose secret exists, whatever its status was.\<close>

lemma issuer_turns_ready:
  assumes "newIssuer r (in_base i) = Ok ro"
    and "ir_HealthCheckerBuilder r = EssendiHealthCheckerFromIssuerAndSecretData" and "ir_Check r = Check"
    and "stored_object ro n c = Some obj" and obj: "GetSpecAndStatus obj = Inr (spec, st)"
    and "cl_secrets c (secret_namespace r n obj, is_AuthSecretName spec) = Some secret"
  obtains st' where "(issuer_turn i no_faults r n ^^ 2) c = store_issuer n (put_status obj st') c" and "IsReady st'"
proof -
  have new: "newIssuer r (kube_of i no_faults c1) = Ok ro" for c1
    using assms(1) by (simp add: newIssuer_def)
  obtain s1 r1 m1 where one: "issuer_turn i no_faults r n c =
      store_issuer n (put_status obj (SetReadyCondition (cl_now c) s1 r1 m1 st)) c"
    by (simp add: issuer_turn_found [OF new assms(4) obj] Let_def)
  define st1 where "st1 = SetReadyCondition (cl_now c) s1 r1 m1 st"
  define c1 where "c1 = store_issuer n (put_status obj st1) c"
  have found: "stored_object ro n c1 = Some (put_status obj st1)"
    unfolding c1_def by (rule stored_object_store [OF assms(4)])
  have "ready_of (put_status obj st1) \<noteq> None"
    unfolding ready_of_status [OF GetSpecAndStatus_put [OF obj]]
    by (simp add: st1_def GetReadyCondition_SetReadyCondition)
  then have healthy: "issuer_verdict r (kube_of i no_faults c1) n (put_status obj st1) spec = Healthy"
    by (rule issuer_verdict_healthy [OF assms(2,3)]) (use assms(6) in \<open>simp add: c1_def\<close>)
  have "issuer_turn i no_faults r n c1 = store_issuer n (put_status obj
      (SetReadyCondition (cl_now c) ConditionTrue EventReasonIssuerReconciler ''Success'' st1)) c"
    unfolding issuer_turn_found [OF new found GetSpecAndStatus_put [OF obj]] healthy Let_def
    by (simp add: c1_def store_issuer_twice)
  with one have "(issuer_turn i no_faults r n ^^ 2) c = store_issuer n (put_status obj
      (SetReadyCondition (cl_now c) ConditionTrue EventReasonIssuerReconciler ''Success'' st1)) c"
    by (simp add: numeral_2_eq_2 c1_def st1_def)
  then show thesis by (rule that) (simp add: IsReady_shows)
qed

section \<open>From an issuer and a request to a certificate\<close>

text \<open>
  The issuer a request refers to: the reconciler that keeps it, the type and the name of the
  object, and the namespace of its secret.
\<close>

definition referenced ::
    "'w installation \<Rightarrow> certificate_request \<Rightarrow>
       (unit issuer_reconciler \<times> runtime_object \<times> namespaced_name \<times> string) option" where
  "referenced i cr =
     (if cr_IssuerKind cr = ''Issuer'' then
        Some (in_issuer i, RtIssuer, (cr_Namespace cr, cr_IssuerName cr), cr_Namespace cr)
      else if cr_IssuerKind cr = ''ClusterIssuer'' then
        Some (in_cluster_issuer i, RtClusterIssuer, ([], cr_IssuerName cr), rc_ClusterResourceNamespace (in_request i))
      else None)"

lemma referenced_cases:
  assumes "referenced i cr = Some (r, ro, n, sns)"
  obtains "cr_IssuerKind cr = ''Issuer''" and "r = in_issuer i" and "ro = RtIssuer"
      and "n = (cr_Namespace cr, cr_IssuerName cr)" and "sns = cr_Namespace cr"
    | "cr_IssuerKind cr = ''ClusterIssuer''" and "r = in_cluster_issuer i" and "ro = RtClusterIssuer"
      and "n = ([], cr_IssuerName cr)" and "sns = rc_ClusterResourceNamespace (in_request i)"
proof (cases "cr_IssuerKind cr = ''Issuer''")
  case True
  with assms have "r = in_issuer i \<and> ro = RtIssuer \<and> n = (cr_Namespace cr, cr_IssuerName cr) \<and> sns = cr_Namespace cr"
    by (auto simp: referenced_def)
  with True show thesis by (intro that(1)) blast+
next
  case False
  with assms have "cr_IssuerKind cr = ''ClusterIssuer'' \<and> r = in_cluster_issuer i \<and> ro = RtClusterIssuer \<and>
      n = ([], cr_IssuerName cr) \<and> sns = rc_ClusterResourceNamespace (in_request i)"
    by (auto simp: referenced_def split: if_splits)
  then show thesis by (intro that(2)) blast+
qed

text \<open>In a started process, the reconciler of the issuer finds the object and the same secret as the request.\<close>

lemma referenced_wired:
  assumes "referenced i cr = Some (r, ro, n, sns)" and "scheme_registered (in_base i)"
    and "run_process se lib net (in_base i) os mgr fl = Ran opts (in_issuer i) (in_cluster_issuer i) (in_request i) cs err"
  shows "newIssuer r (in_base i) = Ok ro" and "ir_Check r = Check"
    and "ir_HealthCheckerBuilder r = EssendiHealthCheckerFromIssuerAndSecretData"
    and "k_scheme_new (in_base i) (cr_IssuerKind cr) = Inr ro"
    and "stored_object ro n c = Some obj \<Longrightarrow> secret_namespace r n obj = sns"
proof -
  obtain ns where w: "in_issuer i = issuer_reconciler_for ''Issuer'' ns"
      "in_cluster_issuer i = issuer_reconciler_for ''ClusterIssuer'' ns" "in_request i = cr_reconciler_for lib net fl ns"
    by (rule run_process_wires [OF assms(3)])
  note new = newIssuer_registered [OF assms(2)] and reg = assms(2) [unfolded scheme_registered_iff]
  from assms(1) show "newIssuer r (in_base i) = Ok ro" "ir_Check r = Check"
      "ir_HealthCheckerBuilder r = EssendiHealthCheckerFromIssuerAndSecretData"
      "k_scheme_new (in_base i) (cr_IssuerKind cr) = Inr ro"
    by (cases rule: referenced_cases; simp add: new reg w; simp add: issuer_reconciler_for_def)+
  from assms(1) show "secret_namespace r n obj = sns" if "stored_object ro n c = Some obj"
    using that
    by (cases rule: referenced_cases)
       (auto simp: stored_object_def secret_namespace_def w issuer_reconciler_for_def cr_reconciler_for_def)
qed

lemma turns_issue:
  assumes "run_process se lib net (in_base i) os mgr fl = Ran opts (in_issuer i) (in_cluster_issuer i) (in_request i) cs err"
    and "scheme_registered (in_base i)" and "cmutil_laws (in_cm i)"
    and "cl_requests c n = Some cr" and "cr_wf cr" and "on_course task resource (phase_of cr)"
    and "cr_IssuerGroup cr = GroupVersion_Group" and "\<not> cm_IsDenied (in_cm i) cr"
    and "fl_disableApprovedCheck fl \<or> cm_IsApproved (in_cm i) cr"
    and "referenced i cr = Some (r, ro, m, sns)" and "stored_object ro m c = Some obj"
    and obj: "GetSpecAndStatus obj = Inr (spec, st)"
    and "cl_secrets c (sns, is_AuthSecretName spec) = Some secret"
    and "EssendiSignerFromIssuerAndSecretData spec (fl_essendixcAuthRealm fl) secret = Inr s"
    and "completes (essendi_signer lib net s) (cr_Request cr) task resource polls"
  shows "\<exists>k cr'. cl_requests ((request_turn i no_faults n ^^ k) ((issuer_turn i no_faults r m ^^ 2) c)) n = Some cr' \<and>
    phase_of cr' = PhIssued \<and> cr_Certificate cr' \<noteq> []"
proof -
  obtain ns where rq: "in_request i = cr_reconciler_for lib net fl ns"
    by (rule run_process_wires [OF assms(1)])
  note wired = referenced_wired [OF assms(10,2,1)]
  have "secret_namespace r m obj = sns" by (rule wired(5) [OF assms(11)])
  with assms(13) have "cl_secrets c (secret_namespace r m obj, is_AuthSecretName spec) = Some secret" by simp
  from issuer_turns_ready [OF wired(1,3,2) assms(11) obj this] obtain st' where
    two: "(issuer_turn i no_faults r m ^^ 2) c = store_issuer m (put_status obj st') c" and ready: "IsReady st'" .
  define c2 where "c2 = store_issuer m (put_status obj st') c"
  let ?k = "kube_of i no_faults c2" and ?S = "essendi_signer lib net s"
  have "get_object ?k ro m = Inr (put_status obj st')"
    unfolding c2_def by (rule stored_object_get [OF stored_object_store [OF assms(11)]])
  moreover have "GetSpecAndStatus (put_status obj st') = Inr (spec, st')" by (rule GetSpecAndStatus_put [OF obj])
  moreover have "k_get_Secret ?k (sns, is_AuthSecretName spec) = Inr secret"
    using assms(13) by (simp add: c2_def)
  moreover have "rc_SignerBuilder (in_request i) spec (rc_AuthRealm (in_request i)) secret = Inr ?S"
    using assms(14) by (simp add: rq cr_reconciler_for_def essendi_builder_def)
  moreover have "k_scheme_new ?k (cr_IssuerKind cr) = Inr ro" using wired(4) by simp
  moreover have "\<exists>ns'. m = (ns', cr_IssuerName cr) \<and> (ro = RtIssuer \<and> ns' = cr_Namespace cr \<and> sns = cr_Namespace cr \<or>
      ro = RtClusterIssuer \<and> ns' = [] \<and> sns = rc_ClusterResourceNamespace (in_request i))"
    using assms(10) by (cases rule: referenced_cases) simp_all
  ultimately have "issuer_serves (in_request i) ?k cr ?S"
    using ready unfolding issuer_serves_def by blast
  then have sign: "signable (in_cm i) (in_request i) ?k cr ?S"
    using assms(7-9) by (auto simp: signable_def rq cr_reconciler_for_def)
  have upd: "k_update_cr ?k = (\<lambda>cr. None)" by simp
  obtain k cr' w' where turns: "(reconcile_once (in_cm i) (in_lib i) (in_request i) ?k n ^^ k) (cr, cl_world c2) = (cr', w')"
    and out: "phase_of cr' = PhIssued" "cr_Certificate cr' \<noteq> []"
    using essendi.reaches_certificate [OF assms(3) run_process_builder [OF assms(1)] upd assms(15,5,6) sign] by metis
  have "cl_requests c2 n = Some cr" using assms(4) by (simp add: c2_def)
  from request_turns_iterate [OF this turns] out show ?thesis unfolding two c2_def by blast
qed

text \<open>Turns are steps.\<close>

lemma run_request_turns:
  "cluster_run i c0 ls c \<Longrightarrow>
     \<exists>ls'. cluster_run i c0 (ls @ ls') ((request_turn i f n ^^ m) c) \<and> undisturbed k ls'"
proof (induction m)
  case 0
  then show ?case by (intro exI [of _ "[]"]) simp
next
  case (Suc m)
  let ?c = "(request_turn i f n ^^ m) c"
  obtain ls' where run: "cluster_run i c0 (ls @ ls') ?c" and quiet: "undisturbed k ls'" using Suc by blast
  let ?l = "RequestTurn n (oc_error (request_outcome i f n ?c)) (request_exchange i f n ?c)"
  have "cluster_run i c0 (ls @ (ls' @ [?l])) ((request_turn i f n ^^ Suc m) c)"
    using cluster_run.Step [OF run current_turns(3) [of i ?c n f]] by simp
  moreover have "undisturbed k (ls' @ [?l])" using quiet by simp
  ultimately show ?case by blast
qed

lemma run_issuer_turns:
  assumes "cluster_run i c0 ls c" and "r = in_issuer i \<or> r = in_cluster_issuer i"
  shows "\<exists>ls'. cluster_run i c0 (ls @ ls') ((issuer_turn i f r n ^^ m) c) \<and> undisturbed k ls'"
proof (induction m)
  case 0
  then show ?case using assms(1) by (intro exI [of _ "[]"]) simp
next
  case (Suc m)
  let ?c = "(issuer_turn i f r n ^^ m) c"
  from Suc obtain ls' where run: "cluster_run i c0 (ls @ ls') ?c" and quiet: "undisturbed k ls'" by blast
  have "cluster_step i ?c Quiet (issuer_turn i f r n ?c)"
    using assms(2) current_turns(1,2) by metis
  from cluster_run.Step [OF run this] have "cluster_run i c0 (ls @ (ls' @ [Quiet])) ((issuer_turn i f r n ^^ Suc m) c)"
    by simp
  moreover have "undisturbed k (ls' @ [Quiet])" using quiet by simp
  ultimately show ?case by blast
qed

end
