(* ===== verification/WorkQueue.thy ===== *)
theory WorkQueue
  imports Main
begin

text \<open>
  How controller-runtime calls a reconciler, as far as its documentation promises: names of
  objects wait in a queue; objects are read from a cache that the watch keeps up with the API
  server; every change of an object is delivered some time, which updates the cache and puts
  the name into the queue; a name is taken out for its reconciliation and put back when that
  ends with an error, a panic or a requeue time. The process may end at any time and start again
  with nothing but the API server.

  The state is of any type, with the objects of one kind in it. The contract \<open>level_triggered\<close>
  is what a reconciler has to keep so that no object is forgotten.
\<close>

record ('s, 'n, 'o) queued =
  qd_state :: 's
  qd_cache :: "'n \<Rightarrow> 'o option"
  qd_undelivered :: "'n set"
  qd_queue :: "'n set"

definition changed :: "('s \<Rightarrow> 'n \<Rightarrow> 'o option) \<Rightarrow> 's \<Rightarrow> 's \<Rightarrow> 'n set" where
  "changed objs s s' = {n. objs s' n \<noteq> objs s n}"

text \<open>A process starts with an empty queue and nothing delivered.\<close>

definition queue_start :: "'s \<Rightarrow> ('s, 'n, 'o) queued" where
  "queue_start s = \<lparr>qd_state = s, qd_cache = (\<lambda>n. None), qd_undelivered = UNIV, qd_queue = {}\<rparr>"

text \<open>The cache catches up with an object, and its name is queued.\<close>

definition deliver ::
    "('s \<Rightarrow> 'n \<Rightarrow> 'o option) \<Rightarrow> 'n \<Rightarrow> ('s, 'n, 'o) queued \<Rightarrow> ('s, 'n, 'o) queued" where
  "deliver objs n q = q\<lparr>qd_cache := (qd_cache q)(n := objs (qd_state q) n),
     qd_undelivered := qd_undelivered q - {n}, qd_queue := insert n (qd_queue q)\<rparr>"

text \<open>
  \<open>turn n outdated read s s' again\<close>: a reconciliation of \<open>n\<close> that read \<open>read\<close> from the cache, with
  a change not yet delivered if \<open>outdated\<close>, leads from \<open>s\<close> to \<open>s'\<close> and asks to be run again or not.
  \<open>env\<close> is what everybody else does. Changes that follow each other may be delivered one by one.
\<close>

inductive queue_step ::
    "('s \<Rightarrow> 'n \<Rightarrow> 'o option) \<Rightarrow> ('n \<Rightarrow> bool \<Rightarrow> 'o option \<Rightarrow> 's \<Rightarrow> 's \<Rightarrow> bool \<Rightarrow> bool) \<Rightarrow> ('s \<Rightarrow> 's \<Rightarrow> bool) \<Rightarrow>
       ('s, 'n, 'o) queued \<Rightarrow> ('s, 'n, 'o) queued \<Rightarrow> bool"
  for objs turn env where
  Turn: "n \<in> qd_queue q \<Longrightarrow> turn n (n \<in> qd_undelivered q) (qd_cache q n) (qd_state q) s' again \<Longrightarrow>
    queue_step objs turn env q (q\<lparr>qd_state := s',
      qd_undelivered := qd_undelivered q \<union> changed objs (qd_state q) s',
      qd_queue := (if again then qd_queue q else qd_queue q - {n})\<rparr>)"
| Deliver: "n \<in> qd_undelivered q \<Longrightarrow>
    queue_step objs turn env q (deliver objs n q)"
| Deliver_older: "n \<in> qd_undelivered q \<Longrightarrow>
    queue_step objs turn env q (q\<lparr>qd_cache := (qd_cache q)(n := x), qd_queue := insert n (qd_queue q)\<rparr>)"
| Environment: "env (qd_state q) s' \<Longrightarrow>
    queue_step objs turn env q (q\<lparr>qd_state := s',
      qd_undelivered := qd_undelivered q \<union> changed objs (qd_state q) s'\<rparr>)"
| Resync: "queue_step objs turn env q (q\<lparr>qd_queue := insert n (qd_queue q)\<rparr>)"
| Restart: "queue_step objs turn env q (queue_start (qd_state q))"

text \<open>A name that is taken care of: its change will be delivered, or it is in the queue.\<close>

definition awaited :: "('s, 'n, 'o) queued \<Rightarrow> 'n \<Rightarrow> bool" where
  "awaited q n \<longleftrightarrow> n \<in> qd_undelivered q \<or> n \<in> qd_queue q"

text \<open>
  The contract: a reconciliation that read the object as it is, does not ask to be run again and
  leaves it as it was, found it settled.
\<close>

locale level_triggered =
  fixes objs :: "'s \<Rightarrow> 'n \<Rightarrow> 'o option"
    and turn :: "'n \<Rightarrow> bool \<Rightarrow> 'o option \<Rightarrow> 's \<Rightarrow> 's \<Rightarrow> bool \<Rightarrow> bool"
    and settled :: "'o \<Rightarrow> bool"
    and wf :: "'s \<Rightarrow> bool"
  assumes no_silent_stop: "wf s \<Longrightarrow> turn n False (objs s n) s s' False \<Longrightarrow> objs s' n = objs s n \<Longrightarrow>
      objs s n = Some x \<Longrightarrow> settled x"
begin

definition attended :: "('s, 'n, 'o) queued \<Rightarrow> bool" where
  "attended q \<longleftrightarrow> (\<forall>n. n \<notin> qd_undelivered q \<longrightarrow> qd_cache q n = objs (qd_state q) n) \<and>
     (\<forall>n x. objs (qd_state q) n = Some x \<longrightarrow> settled x \<or> awaited q n)"

lemma attended_start: "attended (queue_start s)"
  by (simp add: attended_def queue_start_def awaited_def)

lemma attended_step:
  assumes "queue_step objs turn env q q'" and "attended q" and "wf (qd_state q)"
  shows "attended q'"
  using assms(1)
proof (cases rule: queue_step.cases)
  case (Turn n s' again)
  have cache: "qd_cache q m = objs (qd_state q) m" if "m \<notin> qd_undelivered q" for m
    using assms(2) that by (simp add: attended_def)
  have "settled x \<or> awaited q' m" if x: "objs s' m = Some x" for m x
  proof (cases "m \<in> qd_undelivered q \<or> objs s' m \<noteq> objs (qd_state q) m")
    case True
    then show ?thesis by (auto simp: Turn(1) awaited_def changed_def)
  next
    case False
    with x have same: "objs (qd_state q) m = Some x" "m \<notin> qd_undelivered q" by simp_all
    with assms(2) have "settled x \<or> m \<in> qd_queue q" by (auto simp: attended_def awaited_def)
    moreover have "settled x" if "m = n" "\<not> again"
      using no_silent_stop [OF assms(3), of n s' x] Turn(3) that same False cache [of n] x by simp
    ultimately show ?thesis by (auto simp: Turn(1) awaited_def)
  qed
  with cache show ?thesis by (auto simp: Turn(1) attended_def changed_def)
next
  case (Deliver n)
  then show ?thesis using assms(2) by (auto simp: attended_def awaited_def deliver_def)
next
  case (Environment s')
  then show ?thesis
    using assms(2) by (auto simp: attended_def awaited_def changed_def)
next
  case (Deliver_older n x)
  then show ?thesis using assms(2) by (auto simp: attended_def awaited_def)
next
  case (Resync n)
  then show ?thesis using assms(2) by (auto simp: attended_def awaited_def)
next
  case Restart
  then show ?thesis by (simp add: attended_start)
qed

end

end
