(* ===== verification/CrWakeups.thy ===== *)
theory CrWakeups
  imports CrTheorems
begin

text \<open>
  A reconciliation of a certificate request that ends without an error or a panic either asks to
  be run again or changes the phase of the request.
\<close>

definition moves :: "phase \<Rightarrow> body_exit \<times> 'w cr_run \<Rightarrow> bool" where
  "moves p res \<longleftrightarrow> (\<forall>q. fst res = Return q None \<longrightarrow> 0 < q \<or> phase_of (run_cr (snd res)) \<noteq> p)"

lemma moves_simps [simp]:
  "moves p (Unwind, run)" "moves p (Return q (Some e), run)" "moves p (signer_failed e, run)"
  "moves p (Return q None, run) \<longleftrightarrow> 0 < q \<or> phase_of (run_cr run) \<noteq> p"
  by (simp_all add: moves_def signer_failed_def)

lemma defaultTaskCheckInterval_positive [simp]: "0 < defaultTaskCheckInterval"
  by (simp add: defaultTaskCheckInterval_def time_Second_def)

lemma submit_phase_moves: "moves p (submit_phase cm S token run)"
  by (simp add: submit_phase_def Let_def split: prod.splits go_result.splits)

lemma fetch_phase_moves:
  "cmutil_laws cm \<Longrightarrow> \<not> final p \<Longrightarrow> moves p (fetch_phase cm lib S token u run)"
  by (auto simp: fetch_phase_def Let_def phase_of_report text_phases split: prod.splits go_result.splits)

lemma poll_phase_moves:
  assumes "cmutil_laws cm" and "\<not> final p" and "\<nexists>v. p = PhSigned v"
  shows "moves p (poll_phase cm S token u run)"
proof -
  obtain res w where call: "sg_RequestTaskStatus S token u (run_world run) = (res, w)"
    by (cases "sg_RequestTaskStatus S token u (run_world run)")
  from assms show ?thesis
    by (cases res) (auto simp: poll_phase_def call Let_def phase_of_report text_phases)
qed

lemma sign_phase_moves:
  assumes "cmutil_laws cm" and "\<not> final (phase_of (run_cr run))"
  shows "moves (phase_of (run_cr run)) (sign_phase cm lib S token run)"
proof -
  have "\<nexists>v. phase_of (run_cr run) = PhSigned v" if "\<not> IsSigned (cr_Conditions (run_cr run))"
    using message_found(1) [of "run_cr run"] that by blast
  with assms show ?thesis
    by (auto simp: sign_phase_def Let_def fetch_phase_moves submit_phase_moves poll_phase_moves split: option.splits)
qed

lemma issuer_phase_moves:
  assumes "cmutil_laws cm" and "\<not> final (phase_of (run_cr run))"
  shows "moves (phase_of (run_cr run)) (issuer_phase cm lib r k ns issuer run)"
  using assms sign_phase_moves [OF assms(1), of "after_call c w run" for c w]
  by (auto simp: issuer_phase_def Let_def phase_of_report text_phases
      split: sum.splits prod.splits go_result.splits)

lemma cr_body_moves:
  assumes "cmutil_laws cm" and "\<not> final (phase_of (run_cr run))"
  shows "moves (phase_of (run_cr run)) (cr_body cm lib r k run)"
proof -
  have "phase_of (run_cr run) = PhFresh" if "cm_GetCondition cm (run_cr run) cm_Ready = None"
    using that assms(1) by (simp add: phase_of_def)
  then show ?thesis
    using assms issuer_phase_moves [OF assms]
    unfolding cr_body_def Let_def
    by (auto simp: phase_of_report text_phases split: sum.splits runtime_object.splits)
qed

text \<open>Whether the outcome of a reconciliation makes controller-runtime run it again by itself.\<close>

definition asks_again :: "('o, 'z) outcome_scheme \<Rightarrow> bool" where
  "asks_again out \<longleftrightarrow> oc_error out \<noteq> None \<or> oc_panic out \<or> 0 < oc_RequeueAfter out"

lemma CrReconcile_moves:
  assumes "cmutil_laws cm" and "k_get_CertificateRequest k req = Inr cr" and "stored_wf cr" and "\<not> cr_ignored cm r cr"
    and "\<not> asks_again (CrReconcile cm lib r k req w)"
  shows "oc_stored (CrReconcile cm lib r k req w) \<and>
    (\<exists>cr'. oc_update (CrReconcile cm lib r k req w) = Some cr' \<and> phase_of cr' \<noteq> phase_of cr)"
proof -
  define run where "run = \<lparr>run_cr = cr, run_events = [], run_calls = [], run_world = w\<rparr>"
  obtain ex run' where body: "cr_body cm lib r k run = (ex, run')" by (cases "cr_body cm lib r k run")
  have eq: "CrReconcile cm lib r k req w = cr_deferred cm k (ex, run')"
    using assms(2,4) body by (simp add: CrReconcile_def run_def)
  from assms(5) obtain q where ex: "ex = Return q None" and q: "\<not> 0 < q" and stored: "oc_stored (cr_deferred cm k (ex, run'))"
    unfolding eq asks_again_def cr_deferred_simps
    by (cases ex) (auto simp: cr_deferred_def deferred_run_quiet Let_def split: option.splits)
  have "\<not> final (phase_of (run_cr run))"
    using assms(4) by (simp add: cr_ignored_stored [OF assms(1,3)] run_def)
  then have "moves (phase_of (run_cr run)) (cr_body cm lib r k run)"
    by (rule cr_body_moves [OF assms(1)])
  then have "phase_of (run_cr run') \<noteq> phase_of (run_cr run)" using q by (simp add: body ex)
  moreover have "run_cr run = cr" by (simp add: run_def)
  ultimately show ?thesis using stored unfolding eq ex by (simp add: cr_deferred_simps deferred_run_quiet)
qed

end
