(* ===== verification/ClusterQueue.thy ===== *)
theory ClusterQueue
  imports ClusterProgress WorkQueue CrWakeups
begin

text \<open>
  The reconcilers under controller-runtime's queue: each keeps the contract \<open>level_triggered\<close> on
  the objects of its kind. The certificate requests that are settled are those the reconciler
  ignores until somebody else changes them; an issuer is never settled.
\<close>

section \<open>Certificate requests\<close>

definition request_reconciled ::
    "'w installation \<Rightarrow> namespaced_name \<Rightarrow> bool \<Rightarrow> certificate_request option \<Rightarrow> 'w cluster \<Rightarrow> 'w cluster \<Rightarrow> bool \<Rightarrow> bool" where
  "request_reconciled i n late read c c' again \<longleftrightarrow>
     (\<exists>f seen. if late
          then fa_update f \<noteq> None \<and> c' = lagging c (stale_turn i f n read (lagging seen c)) \<and>
               again = asks_again (request_outcome i f n (outdated n read (lagging seen c)))
          else c' = lagging c (request_turn i f n (lagging seen c)) \<and>
               again = asks_again (request_outcome i f n (lagging seen c)))"

definition others_step :: "'w installation \<Rightarrow> 'w cluster \<Rightarrow> 'w cluster \<Rightarrow> bool" where
  "others_step i c c' \<longleftrightarrow> (\<exists>l. cluster_step i c l c' \<and> (case l of RequestTurn n err x \<Rightarrow> False | _ \<Rightarrow> True))"

lemma request_reconciled_step:
  assumes "request_reconciled i n late read c c' again"
  shows "\<exists>l. cluster_step i c l c'"
proof -
  from assms obtain f seen where "if late
      then fa_update f \<noteq> None \<and> c' = lagging c (stale_turn i f n read (lagging seen c))
      else c' = lagging c (request_turn i f n (lagging seen c))"
    unfolding request_reconciled_def by (cases late) auto
  then show ?thesis
    using cluster_step.Request_turn [of i c n f seen] cluster_step.Stale_turn [of f i c n read seen]
    by (cases late) auto
qed

definition request_settled :: "'w installation \<Rightarrow> certificate_request \<Rightarrow> bool" where
  "request_settled i cr \<longleftrightarrow> cr_ignored (in_cm i) (in_request i) cr"

text \<open>What the contract rests on: the invariant of the cluster, and that \<open>i\<close> was started as the program is.\<close>

definition requests_wf :: "'w installation \<Rightarrow> 'w cluster \<Rightarrow> bool" where
  "requests_wf i c \<longleftrightarrow> cluster_ok c \<and> cmutil_laws (in_cm i) \<and>
     (\<exists>lib net. rc_SignerBuilder (in_request i) = essendi_builder lib net)"

lemma request_not_stopped:
  assumes laws: "cmutil_laws (in_cm i)" and "\<not> asks_again (request_outcome i f n c)"
    and "cl_requests (request_turn i f n c) n = cl_requests c n" and cr: "cl_requests c n = Some cr"
    and wf: "stored_wf cr"
  shows "request_settled i cr"
proof (rule ccontr)
  assume "\<not> request_settled i cr"
  then have ni: "\<not> cr_ignored (in_cm i) (in_request i) cr" by (simp add: request_settled_def)
  have get: "k_get_CertificateRequest (kube_of i f c) n = Inr cr"
  proof (cases "fa_get f ''CertificateRequest'' n")
    case (Some e)
    then have "k_get_CertificateRequest (kube_of i f c) n = Inl (GetOther e)" by simp
    then have "oc_error (request_outcome i f n c) \<noteq> None" by (simp add: request_outcome_def CrReconcile_def)
    with assms(2) show ?thesis by (simp add: asks_again_def)
  qed (use cr in simp)
  obtain cr' where "oc_stored (request_outcome i f n c)" "oc_update (request_outcome i f n c) = Some cr'"
    "phase_of cr' \<noteq> phase_of cr"
    using CrReconcile_moves [OF laws get wf ni assms(2) [unfolded request_outcome_def]]
    unfolding request_outcome_def by blast
  then have "cl_requests (request_turn i f n c) n = Some cr'" by (simp add: request_turn_def Let_def)
  with assms(3) cr \<open>phase_of cr' \<noteq> phase_of cr\<close> show False by simp
qed

interpretation requests: level_triggered cl_requests "request_reconciled i" "request_settled i" "requests_wf i"
  for i :: "'w installation"
proof unfold_locales
  fix c c' :: "'w cluster" and n x
  assume wf: "requests_wf i c" and turn: "request_reconciled i n False (cl_requests c n) c c' False"
    and same: "cl_requests c' n = cl_requests c n" and x: "cl_requests c n = Some x"
  from turn obtain f seen where f: "c' = lagging c (request_turn i f n (lagging seen c))"
      "\<not> asks_again (request_outcome i f n (lagging seen c))"
    unfolding request_reconciled_def by auto
  have "cmutil_laws (in_cm i)" "stored_wf x"
    using wf x cluster_ok_wf [of c n x] unfolding requests_wf_def by blast+
  then show "request_settled i x"
    using request_not_stopped [OF _ f(2), of x] same x f(1) by simp
qed

definition request_queue ::
    "'w installation \<Rightarrow> ('w cluster, namespaced_name, certificate_request) queued \<Rightarrow>
       ('w cluster, namespaced_name, certificate_request) queued \<Rightarrow> bool" where
  "request_queue i = queue_step cl_requests (request_reconciled i) (others_step i)"

lemma requests_wf_step: "cluster_step i c l c' \<Longrightarrow> requests_wf i c \<Longrightarrow> requests_wf i c'"
  using cluster_step_ok by (auto simp: requests_wf_def)

lemma request_queue_attended:
  assumes "(request_queue i)\<^sup>*\<^sup>* (queue_start c) q" and "requests_wf i c"
  shows "requests.attended i q \<and> requests_wf i (qd_state q)"
  using assms(1)
proof (induction rule: rtranclp_induct)
  case base
  show ?case using assms(2) requests.attended_start by (simp add: queue_start_def)
next
  case (step q q')
  from step(2) have q: "queue_step cl_requests (request_reconciled i) (others_step i) q q'" by (simp add: request_queue_def)
  have "qd_state q' = qd_state q \<or> (\<exists>l. cluster_step i (qd_state q) l (qd_state q'))"
    using q by (cases rule: queue_step.cases)
      (auto simp: others_step_def queue_start_def deliver_def dest: request_reconciled_step)
  with step(3) have "requests_wf i (qd_state q')" using requests_wf_step by metis
  with requests.attended_step [OF q] step(3) show ?case by blast
qed

section \<open>Issuers and cluster issuers\<close>

text \<open>A reconciliation of an issuer that read an outdated copy changes nothing: its update is refused.\<close>

definition issuer_reconciled ::
    "'w installation \<Rightarrow> unit issuer_reconciler \<Rightarrow> namespaced_name \<Rightarrow> bool \<Rightarrow> client_object option \<Rightarrow>
       'w cluster \<Rightarrow> 'w cluster \<Rightarrow> bool \<Rightarrow> bool" where
  "issuer_reconciled i r n late read c c' again \<longleftrightarrow>
     (if late then c' = c
      else \<exists>f seen. c' = lagging_secrets c (issuer_turn i f r n (lagging_secrets seen c)) \<and>
             again = asks_again (IssuerReconcile r (kube_of i f (lagging_secrets seen c)) n))"

lemma stored_object_lagging [simp]: "stored_object ro n (lagging_secrets s c) = stored_object ro n c"
  by (simp add: stored_object_def split: runtime_object.splits)

definition issuer_queue ::
    "'w installation \<Rightarrow> unit issuer_reconciler \<Rightarrow> runtime_object \<Rightarrow>
       ('w cluster, namespaced_name, client_object) queued \<Rightarrow> ('w cluster, namespaced_name, client_object) queued \<Rightarrow> bool" where
  "issuer_queue i r ro =
     queue_step (\<lambda>c n. stored_object ro n c) (issuer_reconciled i r) (\<lambda>c c'. \<exists>l. cluster_step i c l c')"

lemma issuer_not_stopped:
  assumes "newIssuer r (in_base i) = Ok ro" and "\<not> asks_again (IssuerReconcile r (kube_of i f c) n)"
    and "stored_object ro n c = Some obj"
  shows "stored_object ro n (issuer_turn i f r n c) \<noteq> Some obj"
proof -
  let ?k = "kube_of i f c"
  have new: "newIssuer r ?k = Ok ro" using assms(1) by (simp add: newIssuer_def)
  obtain spec st where obj: "GetSpecAndStatus obj = Inr (spec, st)" by (rule stored_object_spec [OF assms(3)])
  have get: "get_object ?k ro n = Inr obj"
  proof (cases "get_object ?k ro n")
    case (Inl e)
    with assms(3) have "\<exists>err. e = GetOther err"
      by (auto simp: stored_object_def get_object_def api_get_def split: runtime_object.splits option.splits)
    with Inl new have "oc_error (IssuerReconcile r ?k n) \<noteq> None" by (auto simp: IssuerReconcile_def)
    with assms(2) show ?thesis by (simp add: asks_again_def)
  next
    case (Inr x)
    with assms(3) show ?thesis
      by (auto simp: stored_object_def get_object_def api_get_def split: runtime_object.splits option.splits)
  qed
  define v where "v = issuer_verdict r ?k n obj spec"
  note found = IssuerReconcile_found [OF new get obj, folded v_def]
  have "\<not> asks_again (verdict_outcome ?k v (verdict_object ?k v obj st))" using assms(2) by (simp add: found)
  then have v: "v = FirstSeen" and upd: "fa_update f = None"
    by (cases v; auto simp: asks_again_def verdict_outcome_def defaultHealthCheckInterval_def time_Minute_def time_Second_def
        split: option.splits)+
  have "issuer_turn i f r n c = store_issuer n (verdict_object ?k v obj st) c"
    by (simp add: issuer_turn_def found verdict_outcome_def upd)
  then have "stored_object ro n (issuer_turn i f r n c) = Some (verdict_object ?k v obj st)"
    using stored_object_store [OF assms(3)] by (simp add: verdict_object_def)
  moreover have "ready_of (verdict_object ?k v obj st) \<noteq> None" by (simp add: verdict_object_ready [OF obj])
  moreover have "ready_of obj = None"
    using v unfolding v_def issuer_verdict_def by (auto simp: Let_def split: if_splits sum.splits option.splits)
  ultimately show ?thesis by auto
qed

interpretation issuers: level_triggered "\<lambda>c n. stored_object ro n c" "issuer_reconciled i r" "\<lambda>obj. False"
    "\<lambda>c. newIssuer r (in_base i) = Ok ro"
  for i :: "'w installation" and r ro
  by unfold_locales (auto simp: issuer_reconciled_def dest: issuer_not_stopped)

lemma issuer_queue_attended:
  assumes "(issuer_queue i r ro)\<^sup>*\<^sup>* (queue_start c) q" and "newIssuer r (in_base i) = Ok ro"
  shows "issuers.attended ro q"
  using assms(1)
  by (induction rule: rtranclp_induct)
     (auto simp: issuer_queue_def issuers.attended_start intro: issuers.attended_step [OF _ _ assms(2)])

end
