(* ===== verification/ClusterHistory.thy ===== *)
theory ClusterHistory
  imports ClusterProps "HOL-Library.Sublist"
begin

text \<open>
  What a request owes to the turns before it. The labels of a run record what the remote service
  answered in each turn; every task URL, resource URL and certificate a request shows is found
  there, in the order the program asked for them, among what happened since a request of that
  name was last deleted.
\<close>

section \<open>Turns behind a phase\<close>

text \<open>A turn of the request that ended without an error, with the answer it got.\<close>

abbreviation answered :: "namespaced_name \<Rightarrow> exchange \<Rightarrow> label" where
  "answered n x \<equiv> RequestTurn n None (Some x)"

text \<open>
  The turns of a task: its submission; of a resource: the poll of that task as well; and of a
  certificate: the fetch of that resource as well.
\<close>

definition task_turns :: "namespaced_name \<Rightarrow> bytes \<Rightarrow> string \<Rightarrow> label list" where
  "task_turns n csr u = [answered n (Accepted csr u)]"

definition resource_turns :: "namespaced_name \<Rightarrow> bytes \<Rightarrow> string \<Rightarrow> string \<Rightarrow> string \<Rightarrow> label list" where
  "resource_turns n csr u v s = task_turns n csr u @ [answered n (Polled (trim_space u) v s)]"

definition certificate_turns ::
    "namespaced_name \<Rightarrow> bytes \<Rightarrow> string \<Rightarrow> string \<Rightarrow> string \<Rightarrow> bytes \<Rightarrow> label list" where
  "certificate_turns n csr u v s cert = resource_turns n csr u v s @ [answered n (Served (trim_space v) cert)]"

text \<open>What the history \<open>h\<close> of the request \<open>cr\<close> shows for its phase.\<close>

definition accounted :: "namespaced_name \<Rightarrow> label list \<Rightarrow> certificate_request \<Rightarrow> bool" where
  "accounted n h cr \<longleftrightarrow>
     (\<forall>t. in_review (phase_of cr) = Some t \<longrightarrow> (\<exists>u. t = trim_space u \<and> subseq (task_turns n (cr_Request cr) u) h)) \<and>
     (\<forall>t. phase_of cr = PhSigned t \<longrightarrow>
        (\<exists>u v s. v \<noteq> [] \<and> t = trim_space v \<and> subseq (resource_turns n (cr_Request cr) u v s) h)) \<and>
     (phase_of cr = PhIssued \<longrightarrow>
        (\<exists>u v s. v \<noteq> [] \<and> subseq (certificate_turns n (cr_Request cr) u v s (cr_Certificate cr)) h))"

text \<open>The certificate and the CA, whatever other conditions say.\<close>

definition certificate_served :: "golib \<Rightarrow> namespaced_name \<Rightarrow> label list \<Rightarrow> certificate_request \<Rightarrow> bool" where
  "certificate_served lib n h cr \<longleftrightarrow>
     (if phase_of cr = PhIssued
      then (\<exists>v. answered n (Served v (cr_Certificate cr)) \<in> set h) \<and>
           cr_CA cr = (case extractCAFromPEMBundle lib (cr_Certificate cr) of None \<Rightarrow> [] | Some ca \<Rightarrow> ca)
      else cr_Certificate cr = [] \<and> cr_CA cr = [])"

lemma subseq_later: "subseq xs h \<Longrightarrow> subseq xs (h @ [l])"
  by (rule subseq_rev_drop_many)

lemma subseq_last: "subseq xs h \<Longrightarrow> subseq (xs @ [l]) (h @ [l])"
  by (rule list_emb_append_mono) simp_all

lemma accounted_later: "accounted n h cr \<Longrightarrow> accounted n (h @ [l]) cr"
  unfolding accounted_def using subseq_later by meson

lemma certificate_served_later: "certificate_served lib n h cr \<Longrightarrow> certificate_served lib n (h @ [l]) cr"
  unfolding certificate_served_def by (auto split: if_splits)

text \<open>Both speak of the phase, the signing request, the certificate and the CA only.\<close>

lemma accounted_cong:
  "phase_of cr' = phase_of cr \<Longrightarrow> cr_Request cr' = cr_Request cr \<Longrightarrow> cr_Certificate cr' = cr_Certificate cr \<Longrightarrow>
     accounted n h cr' = accounted n h cr"
  by (simp add: accounted_def)

lemma certificate_served_cong:
  "phase_of cr' = phase_of cr \<Longrightarrow> cr_Certificate cr' = cr_Certificate cr \<Longrightarrow> cr_CA cr' = cr_CA cr \<Longrightarrow>
     certificate_served lib n h cr' = certificate_served lib n h cr"
  by (simp add: certificate_served_def)

section \<open>A turn adds what it got\<close>

lemma gained_served:
  assumes "gained lib cr (if err = None then x else None) cr'" and "certificate_served lib n h cr"
    and "phase_of cr \<noteq> PhIssued"
  shows "certificate_served lib n (h @ [RequestTurn n err x]) cr'"
proof -
  have keep: "cr_Certificate cr = []" "cr_CA cr = []"
    using assms(2,3) by (simp_all add: certificate_served_def)
  show ?thesis
    using assms(1) by (cases rule: gained.cases)
      (use assms(3) in \<open>auto simp: certificate_served_def keep split: if_splits option.splits\<close>)
qed

lemma gained_accounted:
  assumes "gained lib cr (if err = None then x else None) cr'" and "accounted n h cr"
    and "cr_wf cr" and "\<not> final (phase_of cr)" and "cr_Request cr' = cr_Request cr"
  shows "accounted n (h @ [RequestTurn n err x]) cr'"
proof -
  have task: "\<exists>u. t = trim_space u \<and> subseq (task_turns n (cr_Request cr) u) h" if "poll_url cr t" for t
    using assms(2) that submitted_phase(2) [OF assms(3,4), of t] by (simp add: accounted_def)
  have resource: "\<exists>u v s. v \<noteq> [] \<and> t = trim_space v \<and> subseq (resource_turns n (cr_Request cr) u v s) h"
    if "fetch_url cr t" for t
    using assms(2) that signed_phase(2) [OF assms(3,4), of t] by (simp add: accounted_def)
  from assms(1) show ?thesis
  proof (cases rule: gained.cases)
    case Nothing
    show ?thesis
    proof (cases "phase_of cr' = phase_of cr")
      case True
      have "accounted n (h @ [RequestTurn n err x]) cr" by (rule accounted_later [OF assms(2)])
      then show ?thesis using accounted_cong [OF True assms(5)] Nothing(2) by simp
    qed (use Nothing(1) in \<open>auto simp: accounted_def\<close>)
  next
    case (Task u)
    then have "RequestTurn n err x = answered n (Accepted (cr_Request cr) u)" by (simp split: if_splits)
    then have "subseq (task_turns n (cr_Request cr) u) (h @ [RequestTurn n err x])"
      using subseq_last [of "[]" h] by (simp add: task_turns_def)
    then show ?thesis using Task assms(5) by (auto simp: accounted_def)
  next
    case (Review t v s)
    obtain u where u: "t = trim_space u" "subseq (task_turns n (cr_Request cr) u) h"
      using task [OF Review(2)] by blast
    note sub = subseq_later [OF u(2), of "RequestTurn n err x"]
    show ?thesis
      using Review(3) sub assms(5) u(1) by (auto simp: accounted_def)
  next
    case (Resource t v s)
    obtain u where u: "t = trim_space u" "subseq (task_turns n (cr_Request cr) u) h"
      using task [OF Resource(2)] by blast
    have "RequestTurn n err x = answered n (Polled (trim_space u) v s)"
      using Resource(1) u(1) by (simp split: if_splits)
    with subseq_last [OF u(2), of "RequestTurn n err x"]
    have "subseq (resource_turns n (cr_Request cr) u v s) (h @ [RequestTurn n err x])"
      by (simp add: resource_turns_def)
    then show ?thesis using Resource assms(5) by (auto simp: accounted_def)
  next
    case (Certificate t)
    obtain u v s where v: "v \<noteq> []" "t = trim_space v" "subseq (resource_turns n (cr_Request cr) u v s) h"
      using resource [OF Certificate(2)] by blast
    have "RequestTurn n err x = answered n (Served (trim_space v) (cr_Certificate cr'))"
      using Certificate(1) v(2) by (simp split: if_splits)
    with subseq_last [OF v(3), of "RequestTurn n err x"]
    have "subseq (certificate_turns n (cr_Request cr) u v s (cr_Certificate cr')) (h @ [RequestTurn n err x])"
      by (simp add: certificate_turns_def)
    then show ?thesis using Certificate v(1) assms(5) by (auto simp: accounted_def)
  qed
qed

section \<open>The invariant of a request and its history\<close>

definition history_ok :: "'w installation \<Rightarrow> namespaced_name \<Rightarrow> label list \<Rightarrow> certificate_request \<Rightarrow> bool" where
  "history_ok i n h cr \<longleftrightarrow> stored_wf cr \<and> certificate_served (in_lib i) n h cr \<and>
     (undisturbed n h \<longrightarrow> foreign_quiet (cr_Conditions cr) \<and> accounted n h cr \<and>
        (phase_step (in_request i) (cr_Request cr))\<^sup>*\<^sup>* PhFresh (phase_of cr))"

lemma history_ok_wf: "history_ok i n h cr \<Longrightarrow> undisturbed n h \<Longrightarrow> cr_wf cr"
  by (simp add: history_ok_def cr_wf_def)

lemma history_ok_later: "history_ok i n h cr \<Longrightarrow> history_ok i n (h @ [l]) cr"
  unfolding history_ok_def using certificate_served_later accounted_later by (metis undisturbed_append)

lemma history_ok_created:
  assumes "cr_Conditions cr = []" and "cr_Certificate cr = []" and "cr_CA cr = []"
  shows "history_ok i n h cr"
proof -
  have "phase_of cr = PhFresh" using assms(1) by (simp add: phase_of_def)
  with assms show ?thesis
    by (simp add: history_ok_def created_wf certificate_served_def foreign_quiet_def accounted_def)
qed

lemma history_ok_other:
  assumes "history_ok i n h cr" and "cc_Type x \<noteq> cm_Ready"
  shows "history_ok i n (h @ [OtherCondition n x]) (cr\<lparr>cr_Conditions := upsert x (cr_Conditions cr)\<rparr>)"
proof -
  let ?cr = "cr\<lparr>cr_Conditions := upsert x (cr_Conditions cr)\<rparr>"
  note later = history_ok_later [OF assms(1), of "OtherCondition n x", unfolded history_ok_def]
  have ph: "phase_of ?cr = phase_of cr" by (rule phase_of_other [OF assms(2)])
  have "certificate_served (in_lib i) n (h @ [OtherCondition n x]) ?cr"
    using later certificate_served_cong [OF ph] by simp
  moreover have "foreign_quiet (cr_Conditions ?cr) \<and> accounted n (h @ [OtherCondition n x]) ?cr \<and>
      (phase_step (in_request i) (cr_Request ?cr))\<^sup>*\<^sup>* PhFresh (phase_of ?cr)"
    if q: "undisturbed n (h @ [OtherCondition n x])"
    using later q foreign_quiet_other accounted_cong [OF ph] ph by simp
  ultimately show ?thesis using later stored_wf_other assms(2) by (simp add: history_ok_def)
qed

lemma history_ok_turn:
  assumes "cmutil_laws (in_cm i)" and "rc_SignerBuilder (in_request i) = essendi_builder lib net"
    and "history_ok i n h cr" and get: "k_get_CertificateRequest (kube_of i f c) n = Inr cr"
    and up: "oc_update (request_outcome i f n c) = Some cr'" "oc_stored (request_outcome i f n c)"
  shows "history_ok i n (h @ [RequestTurn n (oc_error (request_outcome i f n c)) (request_exchange i f n c)]) cr'"
proof -
  let ?l = "RequestTurn n (oc_error (request_outcome i f n c)) (request_exchange i f n c)"
  note up' = up [unfolded request_outcome_def]
  have stored: "stored_wf cr" and served: "certificate_served (in_lib i) n h cr"
    using assms(3) by (simp_all add: history_ok_def)
  obtain cr1 where "k_get_CertificateRequest (kube_of i f c) n = Inr cr1" "\<not> cr_ignored (in_cm i) (in_request i) cr1"
    using CrReconcile_update [OF up'(1)] by metis
  with get have "\<not> cr_ignored (in_cm i) (in_request i) cr" by simp
  then have nf: "\<not> final (phase_of cr)" unfolding cr_ignored_stored [OF assms(1) stored] by simp
  then have ni: "phase_of cr \<noteq> PhIssued" by auto
  have gain: "gained (in_lib i) cr (if oc_error (request_outcome i f n c) = None then request_exchange i f n c else None) cr'"
    using CrReconcile_gained [OF assms(1) get up'] by (simp only: request_outcome_def request_exchange_def)
  have spec: "cr_Request cr' = cr_Request cr"
    using CrReconcile_frame(1) [OF assms(1) get up'(1)] by (simp add: same_spec_def)
  have "foreign_quiet (cr_Conditions cr') \<and> accounted n (h @ [?l]) cr' \<and>
      (phase_step (in_request i) (cr_Request cr'))\<^sup>*\<^sup>* PhFresh (phase_of cr')"
    if q: "undisturbed n (h @ [?l])"
  proof -
    have uq: "undisturbed n h" using q by simp
    note wf = history_ok_wf [OF assms(3) uq]
    have "accounted n h cr" and path: "(phase_step (in_request i) (cr_Request cr))\<^sup>*\<^sup>* PhFresh (phase_of cr)"
      using assms(3) uq by (simp_all add: history_ok_def)
    then have "accounted n (h @ [?l]) cr'" by (intro gained_accounted [OF gain _ wf nf spec])
    moreover have step: "cr_wf cr' \<and> (cr' = cr \<or> phase_step (in_request i) (cr_Request cr) (phase_of cr) (phase_of cr'))"
      using essendi.reconcile_step [OF assms(1,2) get wf up'(1)] .
    moreover have "(phase_step (in_request i) (cr_Request cr'))\<^sup>*\<^sup>* PhFresh (phase_of cr')"
      using path step unfolding spec by (auto intro: rtranclp.rtrancl_into_rtrancl)
    ultimately show ?thesis by (simp add: cr_wf_def)
  qed
  then show ?thesis
    using essendi.reconcile_stored [OF assms(1,2) get stored up'(1)] gained_served [OF gain served ni]
    by (simp add: history_ok_def)
qed

text \<open>Every stored request of a run has such a history.\<close>

definition histories_ok :: "'w installation \<Rightarrow> label list \<Rightarrow> 'w cluster \<Rightarrow> bool" where
  "histories_ok i ls c \<longleftrightarrow> (\<forall>n cr. cl_requests c n = Some cr \<longrightarrow> history_ok i n (since_deleted n ls) cr)"

lemma histories_ok_later:
  assumes "histories_ok i ls c" and "cl_requests c' n = cl_requests c n" and "l \<noteq> Deleted n"
    and "cl_requests c' n = Some cr"
  shows "history_ok i n (since_deleted n (ls @ [l])) cr"
proof -
  have "history_ok i n (since_deleted n ls) cr"
    using assms(1,4) unfolding histories_ok_def assms(2) by blast
  then show ?thesis using assms(3) by (simp add: history_ok_later)
qed

lemma cluster_step_histories:
  assumes "cmutil_laws (in_cm i)" and "rc_SignerBuilder (in_request i) = essendi_builder lib net"
    and "cluster_step i c l c'" and "histories_ok i ls c"
  shows "histories_ok i (ls @ [l]) c'"
  unfolding histories_ok_def
proof (intro allI impI)
  fix n cr assume cr: "cl_requests c' n = Some cr"
  note later = histories_ok_later [OF assms(4) _ _ cr, of l]
  from assms(3) show "history_ok i n (since_deleted n (ls @ [l])) cr"
  proof (cases rule: cluster_step.cases)
    case (Request_turn m f seen)
    let ?c = "lagging seen c"
    show ?thesis
    proof (cases "m = n")
      case True
      show ?thesis
      proof (rule request_turn_cases [of i f m ?c])
        fix cr1 cr'
        assume found: "cl_requests ?c m = Some cr1" and turn: "k_get_CertificateRequest (kube_of i f ?c) m = Inr cr1"
          "oc_update (request_outcome i f m ?c) = Some cr'" "oc_stored (request_outcome i f m ?c)"
          and new: "cl_requests (request_turn i f m ?c) m = Some cr'"
        have "cl_requests c m = Some cr1" using found by simp
        then have "history_ok i m (since_deleted m ls) cr1" using assms(4) unfolding histories_ok_def by blast
        from history_ok_turn [OF assms(1,2) this turn] show ?thesis
          using new cr True Request_turn by simp
      qed (rule later, use Request_turn True in simp_all)
    qed (rule later, use Request_turn in \<open>simp_all add: request_turn_others\<close>)
  next
    case (Create cr0)
    show ?thesis
    proof (cases "n = (cr_Namespace cr0, cr_Name cr0)")
      case True
      then show ?thesis using Create cr by (auto intro: history_ok_created)
    qed (rule later, use Create in simp_all)
  next
    case (Delete m)
    show ?thesis
    proof (cases "m = n")
      case True
      with Delete cr show ?thesis by simp
    qed (rule later, use Delete in simp_all)
  next
    case (Other_condition m cr0 x)
    show ?thesis
    proof (cases "m = n")
      case True
      then have "history_ok i n (since_deleted n ls) cr0"
        using assms(4) Other_condition(3) unfolding histories_ok_def by blast
      from history_ok_other [OF this Other_condition(4)] show ?thesis using True Other_condition cr by simp
    qed (rule later, use Other_condition in simp_all)
  qed ((rule later; simp)+)
qed

lemma cluster_run_histories:
  assumes "cluster_run i c ls c'" and "cmutil_laws (in_cm i)"
    and "rc_SignerBuilder (in_request i) = essendi_builder lib net" and "cl_requests c = Map.empty"
  shows "histories_ok i ls c'"
  using assms(1)
proof (induction rule: cluster_run.induct)
  case Start
  then show ?case using assms(4) by (simp add: histories_ok_def)
next
  case (Step ls c1 l c2)
  then show ?case using cluster_step_histories [OF assms(2,3)] by blast
qed

end
