(* ===== verification/ClusterTheorems.thy ===== *)
theory ClusterTheorems
  imports ClusterProgress ClusterHistory StartTheorems
begin

text \<open>
  The properties of the whole: the reconcilers that \<open>main\<close> sets up, at work on one cluster.
\<close>

section \<open>An installation and a cluster\<close>

definition ex_flags :: flags where
  "ex_flags = default_flags\<lparr>fl_clusterResourceNamespace := ''system'', fl_essendixcAuthRealm := ''realm'',
     fl_disableApprovedCheck := True\<rparr>"

definition ex_installation :: "unit installation" where
  "ex_installation = \<lparr>in_cm = cmutil_doc, in_lib = ex_lib, in_issuer = issuer_reconciler_for ''Issuer'' ''system'',
     in_cluster_issuer = issuer_reconciler_for ''ClusterIssuer'' ''system'', in_request = ex_reconciler False,
     in_base = ex_kube [] (ex_cr [])\<rparr>"

lemma ex_installation_simps [simp]:
  "in_cm ex_installation = cmutil_doc" "in_lib ex_installation = ex_lib"
  "in_request ex_installation = ex_reconciler False" "in_base ex_installation = ex_kube [] (ex_cr [])"
  by (simp_all add: ex_installation_def)

lemma ex_started:
  obtains opts cs err where "run_process ex_scheme_env ex_lib ex_net (in_base ex_installation) ex_os ex_mgr ex_flags =
    Ran opts (in_issuer ex_installation) (in_cluster_issuer ex_installation) (in_request ex_installation) cs err"
proof -
  have main: "run_process ex_scheme_env ex_lib ex_net (in_base ex_installation) ex_os ex_mgr ex_flags =
      run_manager ex_lib ex_net (in_base ex_installation) ex_mgr ex_flags ''system''"
    by (simp add: run_process_def main_init_def Must_def ex_scheme_env_def main_def ex_flags_def)
       (simp add: default_flags_def)
  have r: "cr_reconciler_for ex_lib ex_net ex_flags ''system'' = in_request ex_installation"
    by (simp add: cr_reconciler_for_def ex_flags_def ex_reconciler_def)
  have reg: "scheme_registered (in_base ex_installation)" by (simp add: ex_scheme_registered)
  have "me_GetConfig ex_mgr = None" "me_NewManager ex_mgr opts = None" "me_Complete ex_mgr c = None" for opts c
    by (simp_all add: ex_mgr_def)
  from run_manager_starts [OF reg this, where lib = ex_lib and net = ex_net and fl = ex_flags and ns = "''system''"]
  show thesis using that unfolding main r by (auto simp: ex_installation_def)
qed

lemma ex_installed: "installed ex_installation ex_net ex_flags"
proof -
  obtain opts cs err where run: "run_process ex_scheme_env ex_lib ex_net (in_base ex_installation) ex_os ex_mgr ex_flags =
      Ran opts (in_issuer ex_installation) (in_cluster_issuer ex_installation) (in_request ex_installation) cs err"
    by (rule ex_started)
  note args = command_line_render [of "\<lambda>n. None" ex_flags]
  have "run_command ex_scheme_env (\<lambda>n. None) (in_lib ex_installation) ex_net
      (in_base ex_installation) ex_os ex_mgr (render_flags ex_flags) =
    Ran opts (in_issuer ex_installation) (in_cluster_issuer ex_installation) (in_request ex_installation) cs err"
    unfolding run_command_parsed [OF args] using run by simp
  with args show ?thesis unfolding installed_def by blast
qed

text \<open>Before the first turn: the issuer, its secret and the request have been created.\<close>

definition ex_cluster :: "unit cluster" where
  "ex_cluster = (empty_cluster 1700000000000000000 ())\<lparr>
     cl_issuers := [(''ns'', ''iss'') \<mapsto> ex_issuer []], cl_secrets := [(''ns'', ''auth'') \<mapsto> ex_secret],
     cl_requests := [ex_req \<mapsto> ex_cr []]\<rparr>"

lemma ex_cluster_reached:
  "cluster_run ex_installation (empty_cluster 1700000000000000000 ()) [Quiet, Quiet, Quiet] ex_cluster"
proof -
  let ?c0 = "empty_cluster 1700000000000000000 ()"
  let ?c1 = "?c0\<lparr>cl_secrets := [(''ns'', ''auth'') \<mapsto> ex_secret], cl_now := 1700000000000000000, cl_world := ()\<rparr>"
  let ?c2 = "?c1\<lparr>cl_issuers := (cl_issuers ?c1)((''ns'', ''iss'') \<mapsto> ex_issuer [])\<rparr>"
  have 1: "cluster_step ex_installation ?c0 Quiet ?c1" by (rule cluster_step.Elsewhere)
  have 2: "cluster_step ex_installation ?c1 Quiet ?c2"
    by (rule cluster_step.Apply_Issuer) (simp add: ex_issuer_def empty_cluster_def)
  have "cluster_step ex_installation ?c2 Quiet
      (?c2\<lparr>cl_requests := (cl_requests ?c2)((cr_Namespace (ex_cr []), cr_Name (ex_cr [])) \<mapsto> ex_cr [])\<rparr>)"
    by (rule cluster_step.Create) (simp_all add: ex_cr_def empty_cluster_def)
  also have "?c2\<lparr>cl_requests := (cl_requests ?c2)((cr_Namespace (ex_cr []), cr_Name (ex_cr [])) \<mapsto> ex_cr [])\<rparr> = ex_cluster"
    by (simp add: ex_cluster_def empty_cluster_def ex_req_def ex_cr_def)
  finally have 3: "cluster_step ex_installation ?c2 Quiet ex_cluster" .
  from cluster_run.Step [OF cluster_run.Step [OF cluster_run.Step [OF cluster_run.Start 1] 2] 3]
  show ?thesis by (simp only: append.simps)
qed

lemma ex_start:
  "scheme_registered (in_base ex_installation)" "cmutil_laws (in_cm ex_installation)"
  "cl_requests ex_cluster ex_req = Some (ex_cr [])"
  "\<not> cm_IsDenied (in_cm ex_installation) (ex_cr [])"
  "fl_disableApprovedCheck ex_flags \<or> cm_IsApproved (in_cm ex_installation) (ex_cr [])"
  "referenced ex_installation (ex_cr []) = Some (in_issuer ex_installation, RtIssuer, (''ns'', ''iss''), ''ns'')"
  "stored_object RtIssuer (''ns'', ''iss'') ex_cluster = Some (ObjIssuer (ex_issuer []))"
  "GetSpecAndStatus (ObjIssuer (ex_issuer [])) = Inr (ex_spec, \<lparr>is_Conditions = []\<rparr>)"
  "cl_secrets ex_cluster (''ns'', is_AuthSecretName ex_spec) = Some ex_secret"
  "EssendiSignerFromIssuerAndSecretData ex_spec (fl_essendixcAuthRealm ex_flags) ex_secret = Inr ex_essendi"
  by (simp_all add: ex_scheme_registered cmutil_laws_doc ex_cluster_def has_condition_doc_def ex_flags_def ex_issuer_def
      ex_builder referenced_def stored_object_def GetSpecAndStatus_def)
     (simp add: ex_spec_def)

lemma ex_on_course:
  "on_course (\<lambda>u. u = ''https://xc/task'') (\<lambda>u. u = ''https://xc/cert'') (phase_of (ex_cr []))"
  by (simp add: on_course_def ex_phases)

lemma ex_issued_run:
  "\<exists>ls c cr. cluster_run ex_installation (empty_cluster 1700000000000000000 ()) ls c \<and>
     undisturbed ex_req (since_deleted ex_req ls) \<and> cl_requests c ex_req = Some cr \<and> phase_of cr = PhIssued"
proof -
  obtain opts cs err where run: "run_process ex_scheme_env ex_lib ex_net (in_base ex_installation) ex_os ex_mgr ex_flags =
      Ran opts (in_issuer ex_installation) (in_cluster_issuer ex_installation) (in_request ex_installation) cs err"
    by (rule ex_started)
  let ?c = "(issuer_turn ex_installation no_faults (in_issuer ex_installation) (''ns'', ''iss'') ^^ 2) ex_cluster"
  obtain m cr' where "cl_requests ((request_turn ex_installation no_faults ex_req ^^ m) ?c) ex_req = Some cr'"
    and "phase_of cr' = PhIssued"
    using turns_issue [OF run ex_start(1,2,3) cr_wf_created [OF ex_cr_simps(6)] ex_on_course ex_cr_simps(2)
        ex_start(4-10) ex_completes [unfolded ex_signer_def]] by auto
  moreover obtain ls where "cluster_run ex_installation (empty_cluster 1700000000000000000 ()) ([Quiet, Quiet, Quiet] @ ls) ?c"
    and quiet: "undisturbed ex_req ls"
    using run_issuer_turns [OF ex_cluster_reached] by metis
  from run_request_turns [OF this(1), where f = no_faults and n = ex_req and m = m and k = ex_req] obtain ls' where
    "cluster_run ex_installation (empty_cluster 1700000000000000000 ()) (([Quiet, Quiet, Quiet] @ ls) @ ls')
      ((request_turn ex_installation no_faults ex_req ^^ m) ?c)" and "undisturbed ex_req ls'"
    by blast
  moreover from this quiet have "undisturbed ex_req (since_deleted ex_req (([Quiet, Quiet, Quiet] @ ls) @ ls'))"
    by (intro undisturbed_since) (simp add: undisturbed_def)
  ultimately show ?thesis by blast
qed

section \<open>Properties\<close>

text \<open>C1: whatever the order of reconciliations, failures, reads from lagging caches, deletions and writes
  of others (who leave the Ready conditions to this program, and may set any other condition of a
  request), every request of a cluster that started empty is stored under its own name, with one
  condition per type, a URL in its Ready condition where the message announces one, and a certificate
  where Ready is True. Unless somebody else has written a condition to it whose message starts like one
  of this program's, it is well-formed and in a phase the state machine leads to. Every issuer and
  cluster issuer has at most one Ready condition, whose status is True, False or Unknown and whose
  transition time is set.\<close>

theorem cluster_invariant:
  assumes "cluster_run i (empty_cluster now w) ls c" and "cmutil_laws (in_cm i)"
    and "installed i net fl"
  shows "(\<forall>n cr. cl_requests c n = Some cr \<longrightarrow> n = (cr_Namespace cr, cr_Name cr) \<and> stored_wf cr \<and>
      (undisturbed n (since_deleted n ls) \<longrightarrow>
         cr_wf cr \<and> (phase_step (in_request i) (cr_Request cr))\<^sup>*\<^sup>* PhFresh (phase_of cr))) \<and>
    (\<forall>n t. cl_issuers c n = Some t \<longrightarrow> status_ok (iss_Status t)) \<and>
    (\<forall>n t. cl_cluster_issuers c n = Some t \<longrightarrow> status_ok (cis_Status t))"
proof -
  obtain se os mgr opts cs err where run: "run_process se (in_lib i) net (in_base i) os mgr fl =
      Ran opts (in_issuer i) (in_cluster_issuer i) (in_request i) cs err"
    by (rule installedE [OF assms(3)])
  note build = run_process_builder [OF run]
  have ok: "cluster_ok c" using cluster_run_ok [OF assms(1,2) build empty_cluster_ok] .
  have hist: "histories_ok i ls c"
    by (rule cluster_run_histories [OF assms(1,2) build]) (simp add: empty_cluster_def)
  have "n = (cr_Namespace cr, cr_Name cr) \<and> stored_wf cr \<and> (undisturbed n (since_deleted n ls) \<longrightarrow>
      cr_wf cr \<and> (phase_step (in_request i) (cr_Request cr))\<^sup>*\<^sup>* PhFresh (phase_of cr))"
    if n: "cl_requests c n = Some cr" for n cr
  proof -
    from ok n have "request_ok n cr" unfolding cluster_ok_def by blast
    moreover from hist n have h: "history_ok i n (since_deleted n ls) cr" unfolding histories_ok_def by blast
    ultimately show ?thesis using history_ok_wf [OF h] by (simp add: request_ok_def history_ok_def)
  qed
  with ok show ?thesis unfolding cluster_ok_def issuers_ok_def by blast
qed

theorem cluster_invariant_witness:
  "\<exists>c. cluster_run ex_installation (empty_cluster 1700000000000000000 ()) [Quiet, Quiet, Quiet, Quiet] c \<and>
     stored_wf (the (cl_requests c ex_req)) \<and> status_ok (iss_Status (the (cl_issuers c (''ns'', ''iss''))))"
proof -
  let ?c = "issuer_turn ex_installation no_faults (in_issuer ex_installation) (''ns'', ''iss'') ex_cluster"
  have run: "cluster_run ex_installation (empty_cluster 1700000000000000000 ()) [Quiet, Quiet, Quiet, Quiet] ?c"
    using cluster_run.Step [OF ex_cluster_reached current_turns(1)] by simp
  have new: "newIssuer (in_issuer ex_installation) (kube_of ex_installation no_faults ex_cluster) = Ok RtIssuer"
    by (simp add: newIssuer_def ex_installation_def issuer_reconciler_for_def ex_scheme_def)
  have "\<exists>t. cl_issuers ?c (''ns'', ''iss'') = Some t"
    unfolding issuer_turn_found [OF new ex_start(7,8)] by (simp add: store_issuer_def put_status_def Let_def)
  moreover have "cl_requests ?c ex_req = Some (ex_cr [])" by (simp add: ex_cluster_def)
  moreover note cluster_invariant [OF run _ ex_installed]
  ultimately show ?thesis using run by (metis cmutil_laws_doc ex_installation_simps(1) option.sel)
qed

text \<open>C5: a request is submitted to the remote service at most once more than its reconciliations have
  ended with an error and it has been deleted; so at most once when neither happens.\<close>

theorem submissions_bounded:
  assumes "cluster_run i (empty_cluster now w) ls c" and "cmutil_laws (in_cm i)"
    and "installed i net fl"
  shows "submissions n (cl_calls c) \<le> 1 + length (filter (restarts n) ls)"
proof -
  obtain se os mgr opts cs err where run: "run_process se (in_lib i) net (in_base i) os mgr fl =
      Ran opts (in_issuer i) (in_cluster_issuer i) (in_request i) cs err"
    by (rule installedE [OF assms(3)])
  have "submissions n (cl_calls (empty_cluster now w)) = 0" by (simp add: submissions_def empty_cluster_def)
  with cluster_run_submissions [OF assms(1,2) run_process_builder [OF run] empty_cluster_ok, of n]
  show ?thesis by (cases "submitted n c"; cases "submitted n (empty_cluster now w)") simp_all
qed

theorem submissions_bounded_witness:
  "\<exists>ls c. cluster_run ex_installation (empty_cluster 1700000000000000000 ()) ls c \<and> submitted ex_req c \<and>
     submissions ex_req (cl_calls c) \<le> 1 + length (filter (restarts ex_req) ls)"
proof -
  obtain ls c where run: "cluster_run ex_installation (empty_cluster 1700000000000000000 ()) ls c" and "submitted ex_req c"
    using ex_issued_run unfolding submitted_def by (metis past_simps(7))
  with submissions_bounded [OF run ex_start(2) ex_installed] show ?thesis by blast
qed

text \<open>C3: recovery and progress: whatever has happened to the cluster before, once nothing fails any more,
  two turns of the controller of the issuer a request refers to and then enough turns of the request
  controller bring the request to a non-empty certificate in its status. The request is of the program's
  group, not denied, approved where that is asked for, and not in a final phase, and none of its conditions
  of other types than Ready has a message that starts like one of this program's; its issuer exists with
  a secret that has the four keys; and the remote service completes its task, in particular the one the
  request may be waiting for already.\<close>

theorem cluster_issues:
  assumes "cluster_run i (empty_cluster now w) ls c" and "cmutil_laws (in_cm i)"
    and "installed i net fl"
    and "scheme_registered (in_base i)"
    and "cl_requests c n = Some cr" and "foreign_quiet (cr_Conditions cr)" and "on_course task resource (phase_of cr)"
    and "cr_IssuerGroup cr = GroupVersion_Group" and "\<not> cm_IsDenied (in_cm i) cr"
    and "fl_disableApprovedCheck fl \<or> cm_IsApproved (in_cm i) cr"
    and "referenced i cr = Some (r, ro, m, sns)" and "stored_object ro m c = Some obj"
    and "GetSpecAndStatus obj = Inr (spec, st)"
    and "cl_secrets c (sns, is_AuthSecretName spec) = Some secret"
    and "EssendiSignerFromIssuerAndSecretData spec (fl_essendixcAuthRealm fl) secret = Inr s"
    and "completes (essendi_signer (in_lib i) net s) (cr_Request cr) task resource polls"
  shows "\<exists>k cr'. cl_requests ((request_turn i no_faults n ^^ k) ((issuer_turn i no_faults r m ^^ 2) c)) n = Some cr' \<and>
    phase_of cr' = PhIssued \<and> cr_Certificate cr' \<noteq> []"
proof -
  obtain se os mgr opts cs err where run: "run_process se (in_lib i) net (in_base i) os mgr fl =
      Ran opts (in_issuer i) (in_cluster_issuer i) (in_request i) cs err"
    by (rule installedE [OF assms(3)])
  have "cr_wf cr"
    using cluster_ok_wf [OF cluster_run_ok [OF assms(1,2) run_process_builder [OF run] empty_cluster_ok] assms(5)] assms(6)
    by (simp add: cr_wf_def)
  from turns_issue [OF run assms(4,2,5) this assms(7-16)] show ?thesis .
qed

theorem cluster_issues_witness:
  "\<exists>k cr'. cl_requests ((request_turn ex_installation no_faults ex_req ^^ k)
      ((issuer_turn ex_installation no_faults (in_issuer ex_installation) (''ns'', ''iss'') ^^ 2) ex_cluster)) ex_req = Some cr' \<and>
    phase_of cr' = PhIssued \<and> cr_Certificate cr' \<noteq> []"
proof -
  note completes = ex_completes [unfolded ex_signer_def ex_installation_simps(2) [symmetric]]
  show ?thesis
    by (rule cluster_issues [OF ex_cluster_reached ex_start(2) ex_installed ex_start(1,3)
          cr_wfD(2) [OF cr_wf_created [OF ex_cr_simps(6)]] ex_on_course ex_cr_simps(2)
          ex_start(4-10) completes])
qed

text \<open>C6: Ready is True only with a non-empty certificate that the remote service served in a turn of this
  request, since a request of its name was last deleted, and the CA is the root certificate found in
  that certificate, if there is one; before that both are empty. Unless somebody else has, in that
  time, written a condition to the request whose message starts like one of this program's, the
  certificate was served at a resource URL which the remote service had answered, in an earlier turn,
  to a poll of the task URL it had answered to the submission of this very signing request in a still
  earlier one.\<close>

theorem issued_only_fetched:
  assumes "cluster_run i (empty_cluster now w) ls c" and "cmutil_laws (in_cm i)"
    and "installed i net fl"
    and "cl_requests c n = Some cr"
  shows "if phase_of cr = PhIssued
    then cr_Certificate cr \<noteq> [] \<and>
      (\<exists>v. RequestTurn n None (Some (Served v (cr_Certificate cr))) \<in> set (since_deleted n ls)) \<and>
      cr_CA cr = (case extractCAFromPEMBundle (in_lib i) (cr_Certificate cr) of None \<Rightarrow> [] | Some ca \<Rightarrow> ca) \<and>
      (undisturbed n (since_deleted n ls) \<longrightarrow>
         (\<exists>u v s. v \<noteq> [] \<and> subseq
            [RequestTurn n None (Some (Accepted (cr_Request cr) u)),
             RequestTurn n None (Some (Polled (trim_space u) v s)),
             RequestTurn n None (Some (Served (trim_space v) (cr_Certificate cr)))] (since_deleted n ls)))
    else cr_Certificate cr = [] \<and> cr_CA cr = []"
proof -
  obtain se os mgr opts cs err where run: "run_process se (in_lib i) net (in_base i) os mgr fl =
      Ran opts (in_issuer i) (in_cluster_issuer i) (in_request i) cs err"
    by (rule installedE [OF assms(3)])
  have "histories_ok i ls c"
    by (rule cluster_run_histories [OF assms(1,2) run_process_builder [OF run]]) (simp add: empty_cluster_def)
  then have h: "history_ok i n (since_deleted n ls) cr" using assms(4) unfolding histories_ok_def by blast
  then have served: "certificate_served (in_lib i) n (since_deleted n ls) cr" and "stored_wf cr"
    by (simp_all add: history_ok_def)
  show ?thesis
  proof (cases "phase_of cr = PhIssued")
    case True
    then have "cr_Certificate cr \<noteq> []" by (rule stored_wf_issued [OF \<open>stored_wf cr\<close>])
    moreover have "\<exists>u v s. v \<noteq> [] \<and> subseq (certificate_turns n (cr_Request cr) u v s (cr_Certificate cr)) (since_deleted n ls)"
      if "undisturbed n (since_deleted n ls)"
      using h that True by (simp add: history_ok_def accounted_def)
    ultimately show ?thesis
      using served True by (simp add: certificate_served_def certificate_turns_def resource_turns_def task_turns_def)
  next
    case False
    with served show ?thesis by (simp add: certificate_served_def)
  qed
qed

theorem issued_only_fetched_witness:
  "\<exists>ls c cr u v s. cluster_run ex_installation (empty_cluster 1700000000000000000 ()) ls c \<and>
     cl_requests c ex_req = Some cr \<and> phase_of cr = PhIssued \<and> subseq
       [RequestTurn ex_req None (Some (Accepted (cr_Request cr) u)),
        RequestTurn ex_req None (Some (Polled (trim_space u) v s)),
        RequestTurn ex_req None (Some (Served (trim_space v) (cr_Certificate cr)))] (since_deleted ex_req ls)"
proof -
  obtain ls c cr where run: "cluster_run ex_installation (empty_cluster 1700000000000000000 ()) ls c"
    and quiet: "undisturbed ex_req (since_deleted ex_req ls)" and cr: "cl_requests c ex_req = Some cr" "phase_of cr = PhIssued"
    using ex_issued_run by blast
  from issued_only_fetched [OF run ex_start(2) ex_installed cr(1)] quiet cr run show ?thesis by (simp only: simp_thms if_True) blast
qed

end
