(* ===== verification/QueueTheorems.thy ===== *)
theory QueueTheorems
  imports ClusterQueue ClusterTheorems
begin

text \<open>
  No wakeup is lost: under controller-runtime's queue, with a cache that lags behind and a process
  that may restart at any time, every object that still has something to expect is looked at again.
\<close>

lemma others_run:
  assumes "cluster_run i c ls c'" and "set ls \<subseteq> {Quiet}"
  shows "(request_queue i)\<^sup>*\<^sup>* (queue_start c) (queue_start c')"
  using assms
proof (induction rule: cluster_run.induct)
  case (Step ls c1 l c2)
  then have run: "(request_queue i)\<^sup>*\<^sup>* (queue_start c) (queue_start c1)" and "cluster_step i c1 Quiet c2"
    by auto
  then have "others_step i c1 c2" unfolding others_step_def by (intro exI [of _ Quiet]) simp
  then have "others_step i (qd_state (queue_start c1)) c2" by (simp add: queue_start_def)
  from queue_step.Environment [where env = "others_step i", OF this] have "request_queue i (queue_start c1)
      ((queue_start c1)\<lparr>qd_state := c2, qd_undelivered := qd_undelivered (queue_start c1) \<union> changed cl_requests c1 c2\<rparr>)"
    by (simp add: request_queue_def queue_start_def)
  moreover have "(queue_start c1)\<lparr>qd_state := c2, qd_undelivered := qd_undelivered (queue_start c1) \<union> changed cl_requests c1 c2\<rparr>
      = queue_start c2"
    by (simp add: queue_start_def)
  ultimately show ?case using run by (metis rtranclp.rtrancl_into_rtrancl)
qed simp

section \<open>Properties\<close>

text \<open>C4: no request is forgotten: a request that is neither of a foreign group nor in a final phase nor
  still to be approved is in the queue of the controller, or a change of it is yet to be delivered.\<close>

theorem no_request_forgotten:
  assumes "(request_queue i)\<^sup>*\<^sup>* (queue_start (empty_cluster now w)) q" and "cmutil_laws (in_cm i)"
    and "installed i net fl"
    and "cl_requests (qd_state q) n = Some cr" and "cr_IssuerGroup cr = GroupVersion_Group"
    and "\<not> final (phase_of cr)" and "rc_CheckApprovedCondition (in_request i) \<longrightarrow> cm_IsApproved (in_cm i) cr"
  shows "n \<in> qd_queue q \<or> n \<in> qd_undelivered q"
proof -
  obtain se os mgr opts cs err where run: "run_process se (in_lib i) net (in_base i) os mgr fl =
      Ran opts (in_issuer i) (in_cluster_issuer i) (in_request i) cs err"
    by (rule installedE [OF assms(3)])
  have "requests_wf i (empty_cluster now w)"
    using assms(2) run_process_builder [OF run] empty_cluster_ok by (auto simp: requests_wf_def)
  from request_queue_attended [OF assms(1) this] have att: "requests.attended i q" and wf: "requests_wf i (qd_state q)"
    by simp_all
  have "stored_wf cr"
    using wf cluster_ok_wf [OF _ assms(4)] by (simp add: requests_wf_def)
  then have "\<not> request_settled i cr"
    using assms(5-7) by (auto simp: request_settled_def cr_ignored_stored [OF assms(2)])
  with att assms(4) show ?thesis unfolding requests.attended_def awaited_def by blast
qed

theorem no_request_forgotten_witness:
  "\<exists>q. (request_queue ex_installation)\<^sup>*\<^sup>* (queue_start (empty_cluster 1700000000000000000 ())) q \<and>
     ex_req \<notin> qd_undelivered q \<and> ex_req \<in> qd_queue q"
proof -
  define q where "q = deliver cl_requests ex_req (queue_start ex_cluster)"
  have "(request_queue ex_installation)\<^sup>*\<^sup>* (queue_start (empty_cluster 1700000000000000000 ())) (queue_start ex_cluster)"
    by (rule others_run [OF ex_cluster_reached]) simp
  moreover have "request_queue ex_installation (queue_start ex_cluster) q"
    unfolding request_queue_def q_def by (rule queue_step.Deliver) (simp add: queue_start_def)
  ultimately have reached: "(request_queue ex_installation)\<^sup>*\<^sup>* (queue_start (empty_cluster 1700000000000000000 ())) q"
    by (rule rtranclp.rtrancl_into_rtrancl)
  have "cl_requests (qd_state q) ex_req = Some (ex_cr [])" by (simp add: q_def deliver_def queue_start_def ex_start(3))
  from no_request_forgotten [OF reached ex_start(2) ex_installed this ex_cr_simps(2)] reached show ?thesis
    by (auto simp: ex_phases q_def deliver_def)
qed

text \<open>C14: no issuer is forgotten: every Issuer and ClusterIssuer that exists is in the queue of its
  controller, or a change of it is yet to be delivered, so its health is checked for ever.\<close>

theorem no_issuer_forgotten:
  assumes "(issuer_queue i r ro)\<^sup>*\<^sup>* (queue_start c) q"
    and "installed i net fl"
    and "scheme_registered (in_base i)"
    and "r = in_issuer i \<and> ro = RtIssuer \<or> r = in_cluster_issuer i \<and> ro = RtClusterIssuer"
    and "stored_object ro n (qd_state q) = Some obj"
  shows "n \<in> qd_queue q \<or> n \<in> qd_undelivered q"
proof -
  obtain se os mgr opts cs err where run: "run_process se (in_lib i) net (in_base i) os mgr fl =
      Ran opts (in_issuer i) (in_cluster_issuer i) (in_request i) cs err"
    by (rule installedE [OF assms(2)])
  obtain ns where "in_issuer i = issuer_reconciler_for ''Issuer'' ns"
      "in_cluster_issuer i = issuer_reconciler_for ''ClusterIssuer'' ns"
    by (rule run_process_wires [OF run])
  with assms(4) newIssuer_registered [OF assms(3)] have "newIssuer r (in_base i) = Ok ro" by auto
  from issuer_queue_attended [OF assms(1) this] assms(5) show ?thesis
    unfolding issuers.attended_def awaited_def by blast
qed

theorem no_issuer_forgotten_witness:
  "\<exists>q. (issuer_queue ex_installation (in_issuer ex_installation) RtIssuer)\<^sup>*\<^sup>* (queue_start ex_cluster) q \<and>
     (''ns'', ''iss'') \<notin> qd_undelivered q \<and> (''ns'', ''iss'') \<in> qd_queue q"
proof -
  let ?n = "(''ns'', ''iss'')"
  define q where "q = deliver (\<lambda>c n. stored_object RtIssuer n c) ?n (queue_start ex_cluster)"
  have "issuer_queue ex_installation (in_issuer ex_installation) RtIssuer (queue_start ex_cluster) q"
    unfolding issuer_queue_def q_def by (rule queue_step.Deliver) (simp add: queue_start_def)
  then have reached: "(issuer_queue ex_installation (in_issuer ex_installation) RtIssuer)\<^sup>*\<^sup>* (queue_start ex_cluster) q"
    by (rule r_into_rtranclp)
  have "stored_object RtIssuer ?n (qd_state q) = Some (ObjIssuer (ex_issuer []))"
    unfolding ex_start(7) [symmetric] by (simp add: q_def deliver_def queue_start_def)
  from no_issuer_forgotten [OF reached ex_installed ex_start(1) _ this] reached show ?thesis
    by (auto simp: q_def deliver_def)
qed

end
