(* ===== verification/Spec2Isabelle.thy ===== *)
theory Spec2Isabelle
  imports IssuerTheorems CrEndings SignerTheorems CaTheorems StartTheorems HeapTheorems QueueTheorems
begin

text \<open>
  A model of the cert-manager issuer for the Essendi XC certificate service (package paths are
  under \<open>src/\<close>), and the theorems that make it correct.

  \<^bold>\<open>The program.\<close> A controller manager runs three reconcilers. Two instances of
  \<open>IssuerReconciler\<close> (\<open>internal/controllers/issuer_controller.go\<close>) keep the Ready condition of
  Issuer and ClusterIssuer objects. \<open>CertificateRequestReconciler\<close>
  (\<open>internal/controllers/certificaterequest_controller.go\<close>) carries a \<open>CertificateRequest\<close> of
  cert-manager through the remote service: submit, poll, fetch. It talks to the service through
  the signer (\<open>internal/issuer/signer/signer.go\<close>), which it builds from the issuer and its secret,
  and it keeps no state of its own: the URL of the pending task and how far it has come are
  written in the text of the request's Ready condition and read back by
  \<open>internal/issuer/util/util.go\<close>.

  \<^bold>\<open>Theories, in the order of the code.\<close>
  \<^item> \<open>GoBase\<close>: errors and results of Go calls, package \<open>strings\<close>, decimal printing, durations.
  \<^item> \<open>ApiTypes\<close>: \<open>api/v1alpha1\<close>, the records of the custom resources and the constants.
  \<^item> \<open>IssuerUtil\<close>, \<open>CrUtil\<close>: \<open>internal/issuer/util/util.go\<close>, the half on issuers and the half on
    certificate requests.
  \<^item> \<open>GoCrypto\<close>: SHA-256, HMAC and base64 of the Go library, as executable functions, with the
    sizes of their results and the base64 round trip.
  \<^item> \<open>CertManager\<close>: the certificate request as cert-manager defines it, and its helper functions
    as the argument \<open>cm\<close>; \<open>cmutil_laws\<close> states what cert-manager documents of them.
  \<^item> \<open>GoText\<close>, \<open>GoJson\<close>: UTF-8 and \<open>encoding/json\<close>: the writer, the scanner and the parser, a
    stack machine with Go's bound of 10000 on the nesting depth, and \<open>Unmarshal\<close> into maps.
  \<^item> \<open>GoPem\<close>: PEM blocks, the writer of \<open>encoding/pem\<close>, and what its reader is documented to do.
  \<^item> \<open>GoUrl\<close>: \<open>url.Parse\<close>, and the escaping of paths it undoes.
  \<^item> \<open>GoLib\<close>: HTTP messages, the host-stripping regular expression, and the library
    functions that stay arguments (\<open>golib\<close>).
  \<^item> \<open>Signer\<close>: \<open>signer.go\<close> and \<open>x509util.go\<close>; the remote service is a state type \<open>'w\<close> and a
    transport \<open>'w net\<close> that maps a request and a state to an answer and the next state.
  \<^item> \<open>Kube\<close>: the answers of the API server during one reconciliation, events, outcomes.
  \<^item> \<open>IssuerController\<close>, \<open>PemChain\<close>, \<open>CrController\<close>: the two \<open>Reconcile\<close> handlers and
    \<open>internal/controllers/pem_chain.go\<close>. A handler returns an outcome: \<open>RequeueAfter\<close>, the error,
    whether it panics, the object given to the status update and whether it was stored, the
    events recorded and the calls made to the remote service. The deferred update is a function
    of its own that runs on every way out of the body, panics included.
  \<^item> \<open>GoFlag\<close>: package \<open>flag\<close>, the reading of a command line. \<open>Manager\<close>: \<open>main.go\<close>, from the package
    initialisation and the arguments of the process to the three reconcilers and their controllers.
  \<^item> \<open>GoHeap\<close>, \<open>DeepCopy\<close>: the same objects as structs in an explicit store, in which slices share
    arrays and pointers alias, and \<open>api/v1alpha1/zz_generated.deepcopy.go\<close> statement by statement;
    \<open>HeapIssuer\<close>: \<open>SetReadyCondition\<close> on that store.
  \<^item> \<open>Policies\<close>, \<open>Authority\<close>: \<open>policies.go\<close> and \<open>authority.go\<close> of the signer package.
  \<^item> \<open>Cluster\<close>: the reconcilers \<open>main\<close> sets up (\<open>installed\<close>: from some arguments of the process) at
    work on one cluster. Its state is the objects of the API server, the state of the remote
    service and the calls made so far; a step is a turn of one of the reconcilers, with the faults
    it meets and the outdated objects it may read, or a write of somebody else. Labels record what a
    step was, with the error of a turn and what the remote service answered in it. Others may set any
    condition of another type than Ready, with any message; the program searches the conditions of
    every type for its own messages, so some properties ask that no other condition quotes them
    (\<open>undisturbed\<close> for the history of a request, \<open>foreign_quiet\<close> for its conditions).
  \<^item> \<open>WorkQueue\<close>: how controller-runtime calls a reconciler: the queue, the cache that lags behind
    the API server, the delivery of changes, restarts of the process.

  \<^bold>\<open>Interfaces.\<close> Locales state what one part relies on in another, each interpreted on the
  program's own definitions: \<open>condition_store\<close> (the Ready condition of an issuer, interpretation
  \<open>ready\<close> on \<open>SetReadyCondition\<close>), \<open>signer_contract\<close> (what the request controller relies on in a
  signer, interpretation \<open>essendi\<close> on \<open>essendi_builder\<close>, for every library and network),
  \<open>sort_interface\<close> (Go's \<open>sort.Interface\<close>, interpretation \<open>ext\<close> on the extended key usages) and
  \<open>signing_policy\<close> (interpretation \<open>permissive\<close>). \<open>level_triggered\<close> is what controller-runtime needs of a
  reconciler so that no object is forgotten: one that does not ask to be run again and changes nothing
  found its object settled (interpretations \<open>requests\<close> and \<open>issuers\<close>). For the store, \<open>variable\<close> (reading and writing a
  variable of one type), \<open>deep_value\<close> (a value read through pointers depends only on the arrays it
  reaches), \<open>copier\<close> (a \<open>DeepCopyInto\<close> makes its target read as its source, from new arrays) and
  \<open>element_copier\<close> (the same for the loop over a slice) have one interpretation for every struct of
  the API.

  \<^bold>\<open>What the lemmas show.\<close>
  \<^item> \<open>IssuerProps\<close>, \<open>IssuerTheorems\<close>: an issuer reconciliation equals its abstract verdict (first
    seen, retry, healthy); from that equation when an issuer is Ready, that event and condition
    agree, and what is left alone.
  \<^item> \<open>CrLemmas\<close>: \<open>writes\<close> lists every way a reconciliation can write a request, and the list is
    shown complete. \<open>CrCalls\<close>: what has to hold before the remote service is called, and that a
    token request is followed by at most one call.
  \<^item> \<open>CrLifecycle\<close>: the phases of a request, the state machine \<open>phase_step\<close>, the proof that the
    controller simulates it, and what of a stored request holds whatever others write into its
    conditions of other types (\<open>stored_wf\<close>) or only while they quote none of the program's messages
    (\<open>cr_wf\<close>).
  \<^item> \<open>CrProgress\<close>: the turn of the controller in each phase as an equation, and that a request
    reaches its certificate when the service completes. The measure is the rank of the phase
    and the number of polls the service will still answer without a result; no fuel is used.
  \<^item> \<open>CrOutcomes\<close>: requeueing, errors, and exactly when a reconciliation panics. \<open>CrExchanges\<close>: what the
    remote service answered in a reconciliation, and what of it the request shows afterwards. \<open>CrTheorems\<close>, \<open>CrEndings\<close>: the properties.
  \<^item> \<open>CrSubmissions\<close>: once a turn has ended without an error, the request is not submitted again.
    \<open>CrWakeups\<close>: a turn without an error asks to be run again or changes the phase.
  \<^item> \<open>ClusterProps\<close>, \<open>ClusterHistory\<close>, \<open>ClusterProgress\<close>, \<open>ClusterTheorems\<close>: the invariant of the cluster
    by induction over its runs, the bound on submissions, the turns in the history of a request that
    account for its phase and its certificate, and that from every state a run leads to two turns of
    the issuer's controller and finitely many of the request's lead to the certificate.
  \<^item> \<open>ClusterQueue\<close>, \<open>QueueTheorems\<close>: no request that is not settled and no issuer is ever without
    a wakeup to come.
  \<^item> \<open>GoJsonProps\<close>: what the JSON writer writes, the parser reads back.
  \<^item> \<open>SignerProps\<close>, \<open>SignerTheorems\<close>: what is sent and signed, and what each answer means.
  \<^item> \<open>HeapLaws\<close>, \<open>HeapViews\<close>, \<open>DeepCopyProps\<close>, \<open>DeepCopyLists\<close>: every \<open>DeepCopyInto\<close> reads the same
    afterwards and shares no array with its source. \<open>HeapIssuer\<close>: \<open>SetReadyCondition\<close> on the store
    computes what it computes on values. \<open>HeapTyping\<close>, \<open>HeapSafety\<close>: the store stays well typed, and
    on a well-typed store no copy panics. \<open>HeapTheorems\<close>: the properties, among them that a
    reconciliation never changes the cached object it was given a copy of.
  \<^item> \<open>CaTheorems\<close>: key usages and the certificate authority. \<open>StartTheorems\<close>: what a process started
    with given arguments runs with.
  \<^item> \<open>Examples\<close>: one concrete cluster, library and remote service, the witness of the hypotheses.

  \<^bold>\<open>Bounds.\<close> Durations are 64-bit words, as in Go; points in time are integers (nanoseconds), as
  the range of Go's time exceeds any date in use. Key usages are 64-bit words. The loops over PEM
  blocks end because every block leaves a shorter rest (\<open>pem_decode_shorter\<close>); \<open>ca_loop\<close> is
  the loop as written, and ends within as many turns as the bundle has bytes. \<open>sort.Sort\<close> is
  modelled as the insertion sort it is for up to twelve elements; \<open>ext_usages_bound\<close> shows there
  are never more.

  \<^bold>\<open>Not modelled.\<close> Logging; the deep copies of the Kubernetes metadata types,
  which are an argument (\<open>metalib\<close>) with the law a deep copy obeys; the manager and
  the registration of controllers with it, and the flags other packages bind, which are arguments
  of \<open>Manager\<close>; DER, templates, the reading of PEM and the check of a URL's
  authority, which are arguments of the definitions; the deployment files. A reconciliation is one
  step of the cluster: concurrent changes of its own object show as a refused update, those of the
  issuers and secrets it reads as outdated versions of them. The delays of the queue (the requeue
  time, the backoff after an error) are not modelled: a name put back is in the queue.
\<close>

end
